(* ===== verification/Prelude.thy ===== *)
theory Prelude
  imports Main "HOL-Library.Word"
begin

text \<open>
  The shared vocabulary of the development: the machine integers of the C and C++ sources, the
  errno values the kernel modules return, the two ways a kernel code path can fail to reach its
  return statement, the collections of rewrite rules the component proofs use, and generic list
  lemmas (the last elements of a list, filtering scans) that several components share.
\<close>

unbundle bit_operations_syntax

type_synonym u8 = "8 word"
type_synonym u16 = "16 word"
type_synonym u32 = "32 word"
type_synonym u64 = "64 word"

text \<open>
  Rewrite rules the components export: \<open>status_simps\<close> for facts about rendered text,
  \<open>mm_rules\<close> for facts about kernel memory operations, \<open>frame_rules\<close> for the fields an
  operation leaves alone.
\<close>

named_theorems status_simps
named_theorems mm_rules
named_theorems frame_rules

section \<open>Errno values and abnormal kernel outcomes\<close>

definition ENOMEM :: int where "ENOMEM = 12"
definition EFAULT :: int where "EFAULT = 14"
definition EINVAL :: int where "EINVAL = 22"

lemmas errno_defs = ENOMEM_def EFAULT_def EINVAL_def

text \<open>
  A kernel path either reaches its return statement, or sleeps in \<open>mutex_lock\<close> because the lock
  is held, or takes a fatal fault on a plain load or store.
\<close>

datatype kstop = WouldBlock | KernelOops

section \<open>The last elements of a list\<close>

definition take_last :: "nat \<Rightarrow> 'a list \<Rightarrow> 'a list" where
  "take_last n xs = drop (length xs - n) xs"

lemma length_take_last [simp]: "length (take_last n xs) = min n (length xs)"
  by (simp add: take_last_def)

lemma take_last_short [simp]: "length xs \<le> n \<Longrightarrow> take_last n xs = xs"
  by (simp add: take_last_def)

lemma take_last_Nil [simp]: "take_last n [] = []"
  by (simp add: take_last_def)

lemma take_last_take_last_append:
  "take_last n (take_last n xs @ ys) = take_last n (xs @ ys)"
proof (cases "length xs \<le> n")
  case False
  then have "take_last n xs @ ys = drop (length xs - n) (xs @ ys)"
    by (simp add: take_last_def)
  moreover have "length (take_last n xs @ ys) - n = length ys"
    using False by simp
  ultimately show ?thesis
    using False by (simp add: take_last_def add.commute)
qed simp

lemma take_last_snoc_full:
  "length xs = n \<Longrightarrow> 0 < n \<Longrightarrow> take_last n (xs @ [x]) = tl xs @ [x]"
  by (cases xs) (auto simp: take_last_def)

lemma set_take_last: "set (take_last n xs) \<subseteq> set xs"
  by (simp add: take_last_def set_drop_subset)

section \<open>Scans\<close>

lemma takeWhile_append_stop:
  "\<forall>x \<in> set xs. P x \<Longrightarrow> (ys = [] \<or> \<not> P (hd ys)) \<Longrightarrow> takeWhile P (xs @ ys) = xs"
  by (induction xs) (cases ys; auto)+

lemma dropWhile_append_stop:
  "\<forall>x \<in> set xs. P x \<Longrightarrow> (ys = [] \<or> \<not> P (hd ys)) \<Longrightarrow> dropWhile P (xs @ ys) = ys"
  by (induction xs) (cases ys; auto)+

lemma dropWhile_id_hd: "xs = [] \<or> \<not> P (hd xs) \<Longrightarrow> dropWhile P xs = xs"
  by (cases xs) auto

end
