(* ===== verification/Page_Walk.thy ===== *)
theory Page_Walk
  imports Prelude
begin

text \<open>
  The kernel memory interface the modules run on, and the page-table walker of
  \<open>src/kernel/safety_mem/safety_mem.c\<close>. The machine (memory and translation tables) has an
  abstract type; the kernel's accessors, \<open>set_memory_ro\<close>/\<open>rw\<close>, the fault-tolerant copies and the
  CPU's loads and stores are the fields of a record that every definition takes as an argument.
  What the code relies on about them is the predicate \<open>kernel_mm_ok\<close>: hypotheses of the theorems,
  satisfied by the concrete kernel of the theory Reference_Kernel.
\<close>

section \<open>The kernel's memory services\<close>

text \<open>
  Table pointers and addresses are 64-bit, 0 is NULL. \<open>entry\<close> reads the table entry at a pointer.
  The functions named like the kernel's take the machine where the kernel reads memory. A plain
  store or load is \<open>None\<close> when the CPU takes a fault. \<open>phys_of\<close> is the MMU's translation of an
  address; no definition of the model uses it, only the hypotheses below do.
\<close>

record 'm kernel_mm =
  PAGE_SIZE :: u64
  PAGE_SHIFT :: nat
  entry :: "'m \<Rightarrow> u64 \<Rightarrow> u64"
  pgd_offset_k :: "'m \<Rightarrow> u64 \<Rightarrow> u64"
  p4d_offset :: "'m \<Rightarrow> u64 \<Rightarrow> u64 \<Rightarrow> u64"
  pud_offset :: "'m \<Rightarrow> u64 \<Rightarrow> u64 \<Rightarrow> u64"
  pmd_offset :: "'m \<Rightarrow> u64 \<Rightarrow> u64 \<Rightarrow> u64"
  pte_offset_kernel :: "'m \<Rightarrow> u64 \<Rightarrow> u64 \<Rightarrow> u64"
  pgd_none :: "u64 \<Rightarrow> bool"
  pgd_bad :: "u64 \<Rightarrow> bool"
  p4d_none :: "u64 \<Rightarrow> bool"
  p4d_bad :: "u64 \<Rightarrow> bool"
  pud_none :: "u64 \<Rightarrow> bool"
  pud_bad :: "u64 \<Rightarrow> bool"
  pmd_none :: "u64 \<Rightarrow> bool"
  pmd_sect :: "u64 \<Rightarrow> bool"
  pmd_write :: "u64 \<Rightarrow> bool"
  pmd_pfn :: "u64 \<Rightarrow> u64"
  pte_none :: "u64 \<Rightarrow> bool"
  pte_present :: "u64 \<Rightarrow> bool"
  pte_write :: "u64 \<Rightarrow> bool"
  pte_pfn :: "u64 \<Rightarrow> u64"
  set_memory_ro :: "u64 \<Rightarrow> int \<Rightarrow> 'm \<Rightarrow> int \<times> 'm"
  set_memory_rw :: "u64 \<Rightarrow> int \<Rightarrow> 'm \<Rightarrow> int \<times> 'm"
  load32 :: "u64 \<Rightarrow> 'm \<Rightarrow> u32 option"
  store32 :: "u64 \<Rightarrow> u32 \<Rightarrow> 'm \<Rightarrow> 'm option"
  copy_from_kernel_nofault :: "u64 \<Rightarrow> 'm \<Rightarrow> int \<times> u32 option"
  copy_to_kernel_nofault :: "u64 \<Rightarrow> u32 \<Rightarrow> 'm \<Rightarrow> int \<times> 'm"
  phys_to_virt :: "u64 \<Rightarrow> u64"
  phys_of :: "'m \<Rightarrow> u64 \<Rightarrow> u64 option"

section \<open>The walker\<close>

record pgtable_walk_info =
  virt_addr :: u64
  phys_addr :: u64
  pgd_val :: u64
  p4d_val :: u64
  pud_val :: u64
  pmd_val :: u64
  pte_val :: u64
  is_block_mapping :: bool
  is_writable :: bool
  is_valid :: bool

text \<open>\<open>memset(info, 0, sizeof(*info))\<close>.\<close>

definition zero_walk_info :: pgtable_walk_info where
  "zero_walk_info = \<lparr>virt_addr = 0, phys_addr = 0, pgd_val = 0, p4d_val = 0, pud_val = 0,
     pmd_val = 0, pte_val = 0, is_block_mapping = False, is_writable = False, is_valid = False\<rparr>"

definition safety_mem_walk_pgtable :: "'m kernel_mm \<Rightarrow> 'm \<Rightarrow> u64 \<Rightarrow> pgtable_walk_info" where
  "safety_mem_walk_pgtable K m addr =
     (let info = zero_walk_info\<lparr>virt_addr := addr\<rparr>;
          pgd = pgd_offset_k K m addr in
      if pgd_none K (entry K m pgd) \<or> pgd_bad K (entry K m pgd) then info else
      let info = info\<lparr>pgd_val := entry K m pgd\<rparr>;
          p4d = p4d_offset K m pgd addr in
      if p4d_none K (entry K m p4d) \<or> p4d_bad K (entry K m p4d) then info else
      let info = info\<lparr>p4d_val := entry K m p4d\<rparr>;
          pud = pud_offset K m p4d addr in
      if pud_none K (entry K m pud) \<or> pud_bad K (entry K m pud) then info else
      let info = info\<lparr>pud_val := entry K m pud\<rparr>;
          pmd = pmd_offset K m pud addr in
      if pmd_none K (entry K m pmd) then info else
      let info = info\<lparr>pmd_val := entry K m pmd\<rparr> in
      if pmd_sect K (entry K m pmd)
      then info\<lparr>is_block_mapping := True, is_valid := True,
             is_writable := pmd_write K (entry K m pmd),
             phys_addr := push_bit (PAGE_SHIFT K) (pmd_pfn K (entry K m pmd))\<rparr>
      else
        let pte = pte_offset_kernel K m pmd addr in
        if pte = 0 \<or> pte_none K (entry K m pte) then info
        else info\<lparr>pte_val := entry K m pte, is_block_mapping := False,
               is_valid := pte_present K (entry K m pte),
               is_writable := pte_write K (entry K m pte),
               phys_addr := push_bit (PAGE_SHIFT K) (pte_pfn K (entry K m pte))\<rparr>)"

definition safety_mem_mapping_entry :: "pgtable_walk_info \<Rightarrow> u64" where
  "safety_mem_mapping_entry info = (if is_block_mapping info then pmd_val info else pte_val info)"

definition safety_mem_mapping_level :: "pgtable_walk_info \<Rightarrow> string" where
  "safety_mem_mapping_level info = (if is_block_mapping info then ''PMD_BLOCK'' else ''PTE_PAGE'')"

section \<open>Facts about every walk\<close>

text \<open>The mapping a walk found, if it is valid and lets the CPU write.\<close>

abbreviation mapped_rw :: "'m kernel_mm \<Rightarrow> 'm \<Rightarrow> u64 \<Rightarrow> bool" where
  "mapped_rw K m a \<equiv>
     is_valid (safety_mem_walk_pgtable K m a) \<and> is_writable (safety_mem_walk_pgtable K m a)"

abbreviation mapped_ro :: "'m kernel_mm \<Rightarrow> 'm \<Rightarrow> u64 \<Rightarrow> bool" where
  "mapped_ro K m a \<equiv>
     is_valid (safety_mem_walk_pgtable K m a) \<and> \<not> is_writable (safety_mem_walk_pgtable K m a)"

lemma walk_virt_addr [simp]: "virt_addr (safety_mem_walk_pgtable K m a) = a"
  by (simp add: safety_mem_walk_pgtable_def Let_def)

text \<open>A block mapping is read from the PMD, and then no PTE is read.\<close>

lemma walk_block:
  assumes "is_block_mapping (safety_mem_walk_pgtable K m a)"
  shows "is_valid (safety_mem_walk_pgtable K m a)
    \<and> pte_val (safety_mem_walk_pgtable K m a) = 0
    \<and> pmd_sect K (pmd_val (safety_mem_walk_pgtable K m a))
    \<and> is_writable (safety_mem_walk_pgtable K m a)
        = pmd_write K (pmd_val (safety_mem_walk_pgtable K m a))
    \<and> phys_addr (safety_mem_walk_pgtable K m a)
        = push_bit (PAGE_SHIFT K) (pmd_pfn K (pmd_val (safety_mem_walk_pgtable K m a)))"
  using assms
  by (simp add: safety_mem_walk_pgtable_def Let_def zero_walk_info_def split: if_splits)

text \<open>A valid page mapping reports the permission and frame of its PTE.\<close>

lemma walk_page:
  assumes "is_valid (safety_mem_walk_pgtable K m a)"
    and "\<not> is_block_mapping (safety_mem_walk_pgtable K m a)"
  shows "pte_present K (pte_val (safety_mem_walk_pgtable K m a))
    \<and> is_writable (safety_mem_walk_pgtable K m a)
        = pte_write K (pte_val (safety_mem_walk_pgtable K m a))
    \<and> phys_addr (safety_mem_walk_pgtable K m a)
        = push_bit (PAGE_SHIFT K) (pte_pfn K (pte_val (safety_mem_walk_pgtable K m a)))"
  using assms
  by (simp add: safety_mem_walk_pgtable_def Let_def zero_walk_info_def split: if_splits)

text \<open>
  For every kernel, machine and address, the walker's report comes from the leaf entry it
  prints: a valid mapping's writability and frame are those of the entry
  \<open>safety_mem_mapping_entry\<close> selects (the PMD for a block, the PTE for a page), and the level text
  names the level that entry is from.
\<close>

theorem walk_reports_leaf_entry:
  assumes "is_valid (safety_mem_walk_pgtable K m a)"
  shows "let info = safety_mem_walk_pgtable K m a; e = safety_mem_mapping_entry info in
    if safety_mem_mapping_level info = ''PMD_BLOCK''
    then pmd_sect K e \<and> is_writable info = pmd_write K e
         \<and> phys_addr info = push_bit (PAGE_SHIFT K) (pmd_pfn K e)
    else pte_present K e \<and> is_writable info = pte_write K e
         \<and> phys_addr info = push_bit (PAGE_SHIFT K) (pte_pfn K e)"
proof (cases "is_block_mapping (safety_mem_walk_pgtable K m a)")
  case True
  from walk_block [OF this] True show ?thesis
    by (simp add: safety_mem_mapping_entry_def safety_mem_mapping_level_def Let_def)
next
  case False
  from walk_page [OF assms this] False show ?thesis
    by (simp add: safety_mem_mapping_entry_def safety_mem_mapping_level_def Let_def)
qed

section \<open>What the modules rely on\<close>

text \<open>
  Documented behaviour of the kernel and the CPU, each a separate hypothesis.
  \<^item> \<open>stores_obey_tables\<close>: a store completes exactly at a valid, writable mapping.
  \<^item> \<open>stores_keep_tables\<close>: a completed data store changes no translation.
  \<^item> \<open>stores_visible\<close>: the stored value is read back through every valid mapping of the same
    physical location.
  \<^item> \<open>loads_need_valid\<close>: a load completes exactly at a valid mapping.
  \<^item> \<open>nofault_copies\<close>: the fault-tolerant copies do the access if the CPU would complete it, and
    otherwise return \<open>-EFAULT\<close> and change nothing.
  \<^item> \<open>set_memory_effect\<close>: on success the mapping of the address has the requested permission;
    success or not, no translation, no validity and no data changes (the permission of other
    aliases may).
\<close>

definition stores_obey_tables :: "'m kernel_mm \<Rightarrow> bool" where
  "stores_obey_tables K \<longleftrightarrow> (\<forall>m a v. store32 K a v m \<noteq> None \<longleftrightarrow> mapped_rw K m a)"

definition stores_keep_tables :: "'m kernel_mm \<Rightarrow> bool" where
  "stores_keep_tables K \<longleftrightarrow>
     (\<forall>m a v m' b. store32 K a v m = Some m' \<longrightarrow>
        safety_mem_walk_pgtable K m' b = safety_mem_walk_pgtable K m b
        \<and> phys_of K m' b = phys_of K m b)"

text \<open>Two addresses that are both mapped, to the same physical location.\<close>

definition same_frame :: "'m kernel_mm \<Rightarrow> 'm \<Rightarrow> u64 \<Rightarrow> u64 \<Rightarrow> bool" where
  "same_frame K m a b \<longleftrightarrow>
     is_valid (safety_mem_walk_pgtable K m a) \<and> is_valid (safety_mem_walk_pgtable K m b)
     \<and> phys_of K m a = phys_of K m b \<and> phys_of K m a \<noteq> None"

definition stores_visible :: "'m kernel_mm \<Rightarrow> bool" where
  "stores_visible K \<longleftrightarrow>
     (\<forall>m a v m' b. store32 K a v m = Some m' \<longrightarrow> same_frame K m a b \<longrightarrow> load32 K b m' = Some v)"

definition loads_need_valid :: "'m kernel_mm \<Rightarrow> bool" where
  "loads_need_valid K \<longleftrightarrow>
     (\<forall>m a. load32 K a m \<noteq> None \<longleftrightarrow> is_valid (safety_mem_walk_pgtable K m a))"

definition nofault_copies :: "'m kernel_mm \<Rightarrow> bool" where
  "nofault_copies K \<longleftrightarrow>
     (\<forall>m a v. copy_to_kernel_nofault K a v m
        = (case store32 K a v m of Some m' \<Rightarrow> (0, m') | None \<Rightarrow> (- EFAULT, m)))
   \<and> (\<forall>m a. copy_from_kernel_nofault K a m
        = (case load32 K a m of Some v \<Rightarrow> (0, Some v) | None \<Rightarrow> (- EFAULT, None)))"

definition set_memory_effect :: "'m kernel_mm \<Rightarrow> bool" where
  "set_memory_effect K \<longleftrightarrow>
     (\<forall>f w a m. (f, w) \<in> {(set_memory_ro K, False), (set_memory_rw K, True)} \<longrightarrow>
        (fst (f a 1 m) = 0 \<longrightarrow> is_valid (safety_mem_walk_pgtable K (snd (f a 1 m)) a)
            \<and> is_writable (safety_mem_walk_pgtable K (snd (f a 1 m)) a) = w)
      \<and> (\<forall>b. is_valid (safety_mem_walk_pgtable K (snd (f a 1 m)) b)
               = is_valid (safety_mem_walk_pgtable K m b)
           \<and> phys_of K (snd (f a 1 m)) b = phys_of K m b
           \<and> load32 K b (snd (f a 1 m)) = load32 K b m))"

definition kernel_mm_ok :: "'m kernel_mm \<Rightarrow> bool" where
  "kernel_mm_ok K \<longleftrightarrow>
     stores_obey_tables K \<and> stores_keep_tables K \<and> stores_visible K \<and> loads_need_valid K
     \<and> nofault_copies K \<and> set_memory_effect K"


section \<open>Consequences the components use\<close>

lemma kernel_mm_okD:
  assumes "kernel_mm_ok K"
  shows "stores_obey_tables K" "stores_keep_tables K" "stores_visible K" "loads_need_valid K"
    "nofault_copies K" "set_memory_effect K"
  using assms by (simp_all add: kernel_mm_ok_def)

lemma store32_Some_iff:
  "kernel_mm_ok K \<Longrightarrow> (\<exists>m'. store32 K a v m = Some m') \<longleftrightarrow> mapped_rw K m a"
  using kernel_mm_okD(1) [of K] by (metis not_Some_eq stores_obey_tables_def)

lemma store32_None_iff: "kernel_mm_ok K \<Longrightarrow> store32 K a v m = None \<longleftrightarrow> \<not> mapped_rw K m a"
  using kernel_mm_okD(1) [of K] by (metis stores_obey_tables_def)

lemma store32_tables [mm_rules]:
  assumes "kernel_mm_ok K" "store32 K a v m = Some m'"
  shows "safety_mem_walk_pgtable K m' b = safety_mem_walk_pgtable K m b"
    and "phys_of K m' b = phys_of K m b"
  using kernel_mm_okD(2) [OF assms(1)] assms(2) by (auto simp: stores_keep_tables_def)

lemma store32_load:
  "kernel_mm_ok K \<Longrightarrow> store32 K a v m = Some m' \<Longrightarrow> same_frame K m a b \<Longrightarrow> load32 K b m' = Some v"
  using kernel_mm_okD(3) [of K] by (auto simp: stores_visible_def)

lemma load32_Some_iff:
  "kernel_mm_ok K \<Longrightarrow> (\<exists>v. load32 K a m = Some v) \<longleftrightarrow> is_valid (safety_mem_walk_pgtable K m a)"
  using kernel_mm_okD(4) [of K] by (metis not_Some_eq loads_need_valid_def)

lemma copy_to_nofault:
  "kernel_mm_ok K \<Longrightarrow> copy_to_kernel_nofault K a v m
     = (case store32 K a v m of Some m' \<Rightarrow> (0, m') | None \<Rightarrow> (- EFAULT, m))"
  using kernel_mm_okD(5) [of K] by (simp add: nofault_copies_def)

lemma copy_from_nofault:
  "kernel_mm_ok K \<Longrightarrow> copy_from_kernel_nofault K a m
     = (case load32 K a m of Some v \<Rightarrow> (0, Some v) | None \<Rightarrow> (- EFAULT, None))"
  using kernel_mm_okD(5) [of K] by (simp add: nofault_copies_def)

lemma set_memory_keeps [mm_rules]:
  assumes "kernel_mm_ok K"
  shows "load32 K b (snd (set_memory_ro K a 1 m)) = load32 K b m"
    "load32 K b (snd (set_memory_rw K a 1 m)) = load32 K b m"
    "phys_of K (snd (set_memory_ro K a 1 m)) b = phys_of K m b"
    "phys_of K (snd (set_memory_rw K a 1 m)) b = phys_of K m b"
    "is_valid (safety_mem_walk_pgtable K (snd (set_memory_ro K a 1 m)) b)
       = is_valid (safety_mem_walk_pgtable K m b)"
    "is_valid (safety_mem_walk_pgtable K (snd (set_memory_rw K a 1 m)) b)
       = is_valid (safety_mem_walk_pgtable K m b)"
  using kernel_mm_okD(6) [OF assms] unfolding set_memory_effect_def by blast+

lemma set_memory_success_perm:
  assumes "kernel_mm_ok K"
  shows "fst (set_memory_ro K a 1 m) = 0 \<Longrightarrow> mapped_ro K (snd (set_memory_ro K a 1 m)) a"
    and "fst (set_memory_rw K a 1 m) = 0 \<Longrightarrow> mapped_rw K (snd (set_memory_rw K a 1 m)) a"
  using kernel_mm_okD(6) [OF assms] unfolding set_memory_effect_def by blast+

lemma set_memory_ro_success:
  "kernel_mm_ok K \<Longrightarrow> set_memory_ro K a 1 m = (0, m') \<Longrightarrow> mapped_ro K m' a"
  using set_memory_success_perm(1) [of K a m] by simp

lemma set_memory_rw_success:
  "kernel_mm_ok K \<Longrightarrow> set_memory_rw K a 1 m = (0, m') \<Longrightarrow> mapped_rw K m' a"
  using set_memory_success_perm(2) [of K a m] by simp

lemma same_frame_set_memory [mm_rules]:
  assumes "kernel_mm_ok K"
  shows "same_frame K (snd (set_memory_ro K a 1 m)) b c = same_frame K m b c"
    "same_frame K (snd (set_memory_rw K a 1 m)) b c = same_frame K m b c"
  using assms by (simp_all add: same_frame_def mm_rules)

lemma same_frame_refl_iff: "same_frame K m a a \<longleftrightarrow>
    is_valid (safety_mem_walk_pgtable K m a) \<and> phys_of K m a \<noteq> None"
  by (simp add: same_frame_def)

lemma same_frame_sym: "same_frame K m a b \<Longrightarrow> same_frame K m b a"
  unfolding same_frame_def by (elim conjE) (simp del: not_None_eq)

lemma same_frame_left: "same_frame K m a b \<Longrightarrow> same_frame K m a a"
  unfolding same_frame_def by (elim conjE) (simp del: not_None_eq)

lemma same_frame_store [mm_rules]:
  assumes "kernel_mm_ok K" "store32 K c v m = Some m'"
  shows "same_frame K m' a b = same_frame K m a b"
  by (simp add: same_frame_def store32_tables [OF assms])

end
