(* ===== verification/Cxx_Text.thy ===== *)
theory Cxx_Text
  imports Prelude
begin

text \<open>
  The text operations of C and C++ the sources use: number formatting (\<open>%d\<close>, \<open>%u\<close>, \<open>%x\<close>,
  \<open>%08X\<close>), \<open>std::from_chars\<close>, \<open>strtoull\<close> with base 0, \<open>std::stoi\<close>, and the searching and
  splitting members of \<open>std::string\<close> and \<open>std::string_view\<close>. A string is a list of bytes
  (\<open>char list\<close>), as both languages have it. The lemmas relate printing to parsing and searching
  to concatenation; the components' round trips rest on them.
\<close>

section \<open>Digits\<close>

definition digit_lower :: "nat \<Rightarrow> char" where
  "digit_lower d = ''0123456789abcdef'' ! d"

definition digit_upper :: "nat \<Rightarrow> char" where
  "digit_upper d = ''0123456789ABCDEF'' ! d"

text \<open>The value of an alphanumeric character as a digit, \<open>None\<close> for every other character.\<close>

definition char_digit :: "char \<Rightarrow> nat option" where
  "char_digit c = (let n = of_char c in
     if 48 \<le> n \<and> n \<le> 57 then Some (n - 48)
     else if 65 \<le> n \<and> n \<le> 90 then Some (n - 55)
     else if 97 \<le> n \<and> n \<le> 122 then Some (n - 87)
     else None)"

definition is_digit :: "nat \<Rightarrow> char \<Rightarrow> bool" where
  "is_digit base c = (case char_digit c of None \<Rightarrow> False | Some d \<Rightarrow> d < base)"

definition digit_val :: "char \<Rightarrow> nat" where
  "digit_val c = (case char_digit c of None \<Rightarrow> 0 | Some d \<Rightarrow> d)"

text \<open>Printing a number in a base, most significant digit first.\<close>

fun num_str :: "(nat \<Rightarrow> char) \<Rightarrow> nat \<Rightarrow> nat \<Rightarrow> string" where
  "num_str dg b n =
     (if b < 2 \<or> n < b then [dg n] else num_str dg b (n div b) @ [dg (n mod b)])"

declare num_str.simps [simp del]

definition dec_nat :: "nat \<Rightarrow> string" where
  "dec_nat n = num_str digit_lower 10 n"

definition dec_int :: "int \<Rightarrow> string" where
  "dec_int i = (if i < 0 then CHR ''-'' # dec_nat (nat (- i)) else dec_nat (nat i))"

definition hex_lower :: "nat \<Rightarrow> string" where
  "hex_lower n = num_str digit_lower 16 n"

definition hex_upper :: "nat \<Rightarrow> string" where
  "hex_upper n = num_str digit_upper 16 n"

text \<open>Zero padding to a field width, as the flag \<open>0\<close> of \<open>printf\<close> does.\<close>

definition pad0 :: "nat \<Rightarrow> string \<Rightarrow> string" where
  "pad0 w s = replicate (w - length s) CHR ''0'' @ s"

text \<open>Reading digits back.\<close>

definition digits_value :: "nat \<Rightarrow> string \<Rightarrow> nat" where
  "digits_value base s = foldl (\<lambda>a c. a * base + digit_val c) 0 s"


section \<open>Searching and cutting\<close>

definition starts_with :: "string \<Rightarrow> string \<Rightarrow> bool" where
  "starts_with s p \<longleftrightarrow> take (length p) s = p"

text \<open>\<open>s.find(p)\<close>: the first position of \<open>p\<close> in \<open>s\<close>, \<open>None\<close> for \<open>npos\<close>.\<close>

fun str_find :: "string \<Rightarrow> string \<Rightarrow> nat option" where
  "str_find [] p = (if p = [] then Some 0 else None)"
| "str_find (c # s) p =
     (if starts_with (c # s) p then Some 0 else map_option Suc (str_find s p))"

definition str_contains :: "string \<Rightarrow> string \<Rightarrow> bool" where
  "str_contains s p \<longleftrightarrow> str_find s p \<noteq> None"

definition find_first_not_of :: "string \<Rightarrow> string \<Rightarrow> nat \<Rightarrow> nat option" where
  "find_first_not_of s cs pos =
     (let k = pos + length (takeWhile (\<lambda>c. c \<in> set cs) (drop pos s))
      in if k < length s then Some k else None)"

definition find_first_of :: "string \<Rightarrow> string \<Rightarrow> nat \<Rightarrow> nat option" where
  "find_first_of s cs pos =
     (let k = pos + length (takeWhile (\<lambda>c. c \<notin> set cs) (drop pos s))
      in if k < length s then Some k else None)"

definition find_last_not_of :: "string \<Rightarrow> string \<Rightarrow> nat option" where
  "find_last_not_of s cs =
     (let k = length (dropWhile (\<lambda>c. c \<in> set cs) (rev s))
      in if k = 0 then None else Some (k - 1))"

text \<open>\<open>s.substr(pos, n)\<close>, for a position inside the string.\<close>

definition substr :: "string \<Rightarrow> nat \<Rightarrow> nat \<Rightarrow> string" where
  "substr s pos n = take n (drop pos s)"

abbreviation newline :: char where "newline \<equiv> CHR 0x0A"

text \<open>
  The lines a \<open>std::getline\<close> loop delivers: one per newline, and a last one without newline only
  when it is not empty.
\<close>

fun getlines_from :: "string \<Rightarrow> string \<Rightarrow> string list" where
  "getlines_from cur [] = (if cur = [] then [] else [rev cur])"
| "getlines_from cur (c # s) =
     (if c = newline then rev cur # getlines_from [] s else getlines_from (c # cur) s)"

definition getlines :: "string \<Rightarrow> string list" where
  "getlines s = getlines_from [] s"

section \<open>Reading numbers\<close>

datatype errc = Errc_ok | Errc_invalid_argument | Errc_result_out_of_range

text \<open>
  \<open>std::from_chars\<close> for an unsigned type with \<open>limit\<close> values: the error code, the value when the
  code is \<open>Errc_ok\<close>, and what is left of the text at the returned pointer.
\<close>

definition from_chars :: "nat \<Rightarrow> nat \<Rightarrow> string \<Rightarrow> errc \<times> nat option \<times> string" where
  "from_chars base limit s =
     (let ds = takeWhile (is_digit base) s; v = digits_value base ds in
      if ds = [] then (Errc_invalid_argument, None, s)
      else if limit \<le> v then (Errc_result_out_of_range, None, drop (length ds) s)
      else (Errc_ok, Some v, drop (length ds) s))"

definition c_isspace :: "char \<Rightarrow> bool" where
  "c_isspace c \<longleftrightarrow> c \<in> {CHR '' '', CHR 0x09, CHR 0x0A, CHR 0x0B, CHR 0x0C, CHR 0x0D}"

definition strip_sign :: "string \<Rightarrow> bool \<times> string" where
  "strip_sign s = (case s of
       c # r \<Rightarrow> if c = CHR ''-'' then (True, r) else if c = CHR ''+'' then (False, r) else (False, s)
     | [] \<Rightarrow> (False, s))"

text \<open>The prefix rule of base 0: \<open>0x\<close> before a hexadecimal digit, a leading \<open>0\<close>, or decimal.\<close>

definition detect_base :: "string \<Rightarrow> nat \<times> string" where
  "detect_base s =
     (if (starts_with s ''0x'' \<or> starts_with s ''0X'') \<and> length s > 2 \<and> is_digit 16 (s ! 2)
      then (16, drop 2 s)
      else if starts_with s ''0'' then (8, s) else (10, s))"

text \<open>
  \<open>strtoull(s, &end, 0)\<close>: the value (saturated at the largest one, negated for a minus sign) and
  the text at \<open>end\<close>; \<open>None\<close> for \<open>end\<close> when nothing was converted and \<open>end\<close> is \<open>s\<close>.
\<close>

definition strtoull0 :: "string \<Rightarrow> u64 \<times> string option" where
  "strtoull0 s =
     (let (neg, s2) = strip_sign (dropWhile c_isspace s);
          (base, s3) = detect_base s2;
          ds = takeWhile (is_digit base) s3;
          v = digits_value base ds
      in if ds = [] then (0, None)
         else (if 2 ^ 64 \<le> v then - 1 else if neg then - of_nat v else of_nat v,
               Some (drop (length ds) s3)))"

datatype stoi_error = Stoi_invalid_argument | Stoi_out_of_range

definition stoi :: "string \<Rightarrow> stoi_error + int" where
  "stoi s =
     (let (neg, s2) = strip_sign (dropWhile c_isspace s);
          ds = takeWhile (is_digit 10) s2;
          v = (if neg then - int (digits_value 10 ds) else int (digits_value 10 ds))
      in if ds = [] then Inl Stoi_invalid_argument
         else if v < - (2 ^ 31) \<or> 2 ^ 31 \<le> v then Inl Stoi_out_of_range
         else Inr v)"

section \<open>Printing and reading agree\<close>

lemma less_16_cases:
  "d < 16 \<Longrightarrow> d \<in> {0, 1, 2, 3, 4, 5, 6, 7, 8, 9, 10, 11, 12, 13, 14, 15 :: nat}"
  by (simp; presburger)

lemma char_digit_lower [simp]: "d < 16 \<Longrightarrow> char_digit (digit_lower d) = Some d"
  by (drule less_16_cases) (auto simp: char_digit_def digit_lower_def)

lemma char_digit_upper [simp]: "d < 16 \<Longrightarrow> char_digit (digit_upper d) = Some d"
  by (drule less_16_cases) (auto simp: char_digit_def digit_upper_def)

text \<open>A digit alphabet for a base: every digit below the base reads back as itself.\<close>

definition good_digits :: "(nat \<Rightarrow> char) \<Rightarrow> nat \<Rightarrow> bool" where
  "good_digits dg b \<longleftrightarrow> 2 \<le> b \<and> (\<forall>d < b. char_digit (dg d) = Some d)"

lemma good_digits_std [simp]:
  "good_digits digit_lower 10" "good_digits digit_lower 16" "good_digits digit_upper 16"
  by (auto simp: good_digits_def)

lemma num_str_nonempty [simp]: "num_str dg b n \<noteq> []"
  by (subst num_str.simps) simp

lemma num_str_digits:
  assumes "good_digits dg b"
  shows "\<forall>c \<in> set (num_str dg b n). is_digit b c"
  using assms
proof (induction dg b n rule: num_str.induct)
  case (1 dg b n)
  then show ?case
    by (subst num_str.simps) (auto simp: good_digits_def is_digit_def)
qed

lemma digits_value_snoc [simp]:
  "digits_value b (s @ [c]) = digits_value b s * b + digit_val c"
  by (simp add: digits_value_def)

lemma digits_value_num_str:
  assumes "good_digits dg b"
  shows "digits_value b (num_str dg b n) = n"
  using assms
proof (induction dg b n rule: num_str.induct)
  case (1 dg b n)
  show ?case
  proof (cases "n < b")
    case True
    with "1.prems" show ?thesis
      by (subst num_str.simps) (simp add: digits_value_def good_digits_def digit_val_def)
  next
    case False
    with "1.prems" have b: "\<not> b < 2" by (simp add: good_digits_def)
    with "1.IH" "1.prems" False have "digits_value b (num_str dg b (n div b)) = n div b" by simp
    moreover have "digit_val (dg (n mod b)) = n mod b"
      using "1.prems" b by (simp add: good_digits_def digit_val_def)
    ultimately show ?thesis using False b
      by (subst num_str.simps) simp
  qed
qed

lemma digits_value_zeros: "digits_value b (replicate k CHR ''0'' @ s) = digits_value b s"
proof -
  have "foldl (\<lambda>a c. a * b + digit_val c) 0 (replicate k CHR ''0'') = 0"
    by (induction k) (simp_all add: digit_val_def char_digit_def)
  then show ?thesis by (simp add: digits_value_def)
qed

lemma digits_value_pad0 [simp]: "digits_value b (pad0 w s) = digits_value b s"
  by (simp add: pad0_def digits_value_zeros)

lemma is_digit_zero [simp]: "2 \<le> b \<Longrightarrow> is_digit b CHR ''0''"
  by (simp add: is_digit_def char_digit_def)

lemma pad0_nonempty [simp]: "s \<noteq> [] \<Longrightarrow> pad0 w s \<noteq> []"
  by (simp add: pad0_def)

lemma pad0_digits: "2 \<le> b \<Longrightarrow> \<forall>c \<in> set s. is_digit b c \<Longrightarrow> \<forall>c \<in> set (pad0 w s). is_digit b c"
  by (auto simp: pad0_def)

text \<open>Reading the digits of a printed number, whatever follows it, unless a digit follows.\<close>

lemma from_chars_digits:
  assumes "\<forall>c \<in> set ds. is_digit b c" "ds \<noteq> []" "rest = [] \<or> \<not> is_digit b (hd rest)"
    and "digits_value b ds < limit"
  shows "from_chars b limit (ds @ rest) = (Errc_ok, Some (digits_value b ds), rest)"
proof -
  have "takeWhile (is_digit b) (ds @ rest) = ds"
    using assms(1,3) by (rule takeWhile_append_stop)
  then show ?thesis using assms(2,4) by (simp add: from_chars_def)
qed

lemma from_chars_num_str:
  assumes "good_digits dg b" "n < limit" "rest = [] \<or> \<not> is_digit b (hd rest)"
  shows "from_chars b limit (pad0 w (num_str dg b n) @ rest) = (Errc_ok, Some n, rest)"
proof -
  let ?ds = "pad0 w (num_str dg b n)"
  have v: "digits_value b ?ds = n"
    using assms(1) by (simp add: digits_value_num_str)
  have b: "2 \<le> b" using assms(1) by (simp add: good_digits_def)
  have "\<forall>c \<in> set ?ds. is_digit b c"
    using num_str_digits [OF assms(1)] by (rule pad0_digits [OF b])
  moreover have "?ds \<noteq> []" by simp
  moreover have "digits_value b ?ds < limit" using assms(2) v by simp
  ultimately show ?thesis
    using from_chars_digits [of ?ds b rest limit] assms(3) v by metis
qed

lemma from_chars_dec_nat:
  assumes "n < limit" "rest = [] \<or> \<not> is_digit 10 (hd rest)"
  shows "from_chars 10 limit (dec_nat n @ rest) = (Errc_ok, Some n, rest)"
  using from_chars_num_str [OF good_digits_std(1) assms, of 0]
  by (simp add: dec_nat_def pad0_def)

lemma nul_not_space [simp]: "\<not> c_isspace CHR 0x00"
  by (simp add: c_isspace_def)

section \<open>Searching and concatenation\<close>

lemma starts_with_append [simp]: "starts_with (p @ s) p"
  by (simp add: starts_with_def)

lemma starts_with_iff: "starts_with s p \<longleftrightarrow> (\<exists>r. s = p @ r)"
  by (metis append_take_drop_id starts_with_append starts_with_def)

lemma str_contains_iff: "str_contains s p \<longleftrightarrow> (\<exists>a b. s = a @ p @ b)"
proof
  show "str_contains s p \<Longrightarrow> \<exists>a b. s = a @ p @ b"
  proof (induction s)
    case Nil
    then show ?case by (simp add: str_contains_def split: if_splits)
  next
    case (Cons c s)
    show ?case
    proof (cases "starts_with (c # s) p")
      case True
      then show ?thesis by (auto simp: starts_with_iff intro: exI [of _ "[]"])
    next
      case False
      with Cons.prems have "str_contains s p" by (auto simp: str_contains_def)
      then obtain a b where "s = a @ p @ b" using Cons.IH by blast
      then have "c # s = (c # a) @ p @ b" by simp
      then show ?thesis by blast
    qed
  qed
next
  have "str_contains (a @ p @ b) p" for a b
  proof (induction a)
    case Nil
    have "starts_with (p @ b) p" by simp
    then show ?case by (cases "p @ b") (simp_all add: str_contains_def)
  next
    case (Cons c a)
    then show ?case by (auto simp: str_contains_def)
  qed
  then show "\<exists>a b. s = a @ p @ b \<Longrightarrow> str_contains s p" by blast
qed

lemma str_contains_middle [simp, intro]: "str_contains (a @ p @ b) p"
  by (auto simp: str_contains_iff)

lemma str_contains_appendI:
  "str_contains a p \<Longrightarrow> str_contains (a @ b) p" "str_contains b p \<Longrightarrow> str_contains (a @ b) p"
proof -
  show "str_contains a p \<Longrightarrow> str_contains (a @ b) p"
    unfolding str_contains_iff by (metis append.assoc)
  show "str_contains b p \<Longrightarrow> str_contains (a @ b) p"
    unfolding str_contains_iff by (metis append.assoc)
qed

text \<open>Searching for a text whose first character does not occur earlier skips to it.\<close>

lemma str_find_skip:
  assumes "p \<noteq> []" "hd p \<notin> set a"
  shows "str_find (a @ s) p = map_option (\<lambda>k. length a + k) (str_find s p)"
  using assms
proof (induction a)
  case Nil
  then show ?case by (simp add: option.map_ident)
next
  case (Cons c a)
  then have "\<not> starts_with (c # a @ s) p"
    by (cases p) (auto simp: starts_with_def)
  with Cons show ?case by (simp add: option.map_comp comp_def)
qed

lemma str_find_char:
  assumes "c \<notin> set a"
  shows "str_find (a @ c # s) [c] = Some (length a)"
  using str_find_skip [of "[c]" a "c # s"] assms by (simp add: starts_with_def)

lemma str_find_char_None: "c \<notin> set a \<Longrightarrow> str_find a [c] = None"
  by (induction a) (auto simp: starts_with_def)

section \<open>Lines\<close>

lemma getlines_from_line:
  "newline \<notin> set l \<Longrightarrow> getlines_from cur (l @ newline # s) = (rev cur @ l) # getlines_from [] s"
  by (induction l arbitrary: cur) auto

lemma getlines_line [simp]:
  "newline \<notin> set l \<Longrightarrow> getlines (l @ newline # s) = l # getlines s"
  by (simp add: getlines_def getlines_from_line)

lemma getlines_Nil [simp]: "getlines [] = []"
  by (simp add: getlines_def)

text \<open>Text made of lines that each end in a newline comes apart into those lines.\<close>

lemma getlines_concat:
  "\<forall>l \<in> set ls. newline \<notin> set l \<Longrightarrow> getlines (concat (map (\<lambda>l. l @ [newline]) ls)) = ls"
  by (induction ls) auto

end
