(* ===== verification/Demo_Constants.thy ===== *)
theory Demo_Constants
  imports Cxx_Text
begin

text \<open>
  The constants of \<open>src/kernel/demo_constants.h\<close> (upper-case names) and of
  \<open>src/userspace/common/demo_constants.hpp\<close> (names with \<open>k\<close>). The harness recognises the
  kernel's state by text, so the two files have to agree; the theorem at the end says they do.
\<close>

section \<open>Kernel constants\<close>

text \<open>The file modes are octal in the source: 0666, 0444 and 0644.\<close>

definition DEMO_PROC_CONTROL_MODE :: nat where "DEMO_PROC_CONTROL_MODE = 6 * 8 * 8 + 6 * 8 + 6"
definition DEMO_PROC_READ_ONLY_MODE :: nat where "DEMO_PROC_READ_ONLY_MODE = 4 * 8 * 8 + 4 * 8 + 4"
definition DEMO_MODULE_PARAM_MODE :: nat where "DEMO_MODULE_PARAM_MODE = 6 * 8 * 8 + 4 * 8 + 4"
definition DEMO_COMMAND_BUFFER_SIZE :: nat where "DEMO_COMMAND_BUFFER_SIZE = 16"
definition DEMO_RESULT_BUFFER_SIZE :: nat where "DEMO_RESULT_BUFFER_SIZE = 32"
definition DEMO_DEVICE_NAME_SIZE :: nat where "DEMO_DEVICE_NAME_SIZE = 32"
definition DEMO_ACTION_NAME_SIZE :: nat where "DEMO_ACTION_NAME_SIZE = 16"
definition DEMO_LOG_CAPACITY :: nat where "DEMO_LOG_CAPACITY = 128"
definition DEMO_MUTEX_OWNER_FLAGS_MASK :: u64 where "DEMO_MUTEX_OWNER_FLAGS_MASK = 0x07"
definition DEMO_ROGUE_STATUS_PROC_NAME :: string where
  "DEMO_ROGUE_STATUS_PROC_NAME = ''rogue_thread_status''"

definition SAFETY_SENTINEL :: u32 where "SAFETY_SENTINEL = 0x5AFE1234"
definition CORRUPT_SENTINEL :: u32 where "CORRUPT_SENTINEL = 0xDEADDEAD"

definition BAD_DRIVER_VMALLOC_VALUE :: u32 where "BAD_DRIVER_VMALLOC_VALUE = 0xBAD10001"
definition BAD_DRIVER_MUTEX_BYPASS_VALUE :: u32 where "BAD_DRIVER_MUTEX_BYPASS_VALUE = 0xBAD20002"
definition BAD_DRIVER_LINEAR_ALIAS_VALUE :: u32 where "BAD_DRIVER_LINEAR_ALIAS_VALUE = 0xBAD30003"

definition MUTEX_THREAD_A_PERIOD_MS :: u32 where "MUTEX_THREAD_A_PERIOD_MS = 500"
definition MUTEX_THREAD_B_PERIOD_MS :: u32 where "MUTEX_THREAD_B_PERIOD_MS = 1000"
definition MUTEX_HOLD_DURATION_MS :: u32 where "MUTEX_HOLD_DURATION_MS = 50"
definition ROGUE_WRITE_INTERVAL_MS :: u32 where "ROGUE_WRITE_INTERVAL_MS = 300"

definition SMMU_DEMO_STREAM_ID :: u32 where "SMMU_DEMO_STREAM_ID = 0x01"

definition DEMO_PROTECT_COMMAND :: string where "DEMO_PROTECT_COMMAND = ''protect''"
definition DEMO_UNPROTECT_COMMAND :: string where "DEMO_UNPROTECT_COMMAND = ''unprotect''"
definition DEMO_ENABLE_COMMAND :: string where "DEMO_ENABLE_COMMAND = ''1''"
definition DEMO_DISABLE_COMMAND :: string where "DEMO_DISABLE_COMMAND = ''0''"

datatype bad_driver_attack_mode =
  BAD_DRIVER_ATTACK_VMALLOC | BAD_DRIVER_ATTACK_MUTEX_BYPASS | BAD_DRIVER_ATTACK_LINEAR_ALIAS

text \<open>The enumerators' values, as the enumeration fixes them.\<close>

primrec attack_mode_value :: "bad_driver_attack_mode \<Rightarrow> u32" where
  "attack_mode_value BAD_DRIVER_ATTACK_VMALLOC = 1"
| "attack_mode_value BAD_DRIVER_ATTACK_MUTEX_BYPASS = 2"
| "attack_mode_value BAD_DRIVER_ATTACK_LINEAR_ALIAS = 3"

datatype rogue_attack_mode = ROGUE_ATTACK_UNSYNCHRONIZED_WRITE | ROGUE_ATTACK_MUTEX_METADATA

primrec rogue_mode_value :: "rogue_attack_mode \<Rightarrow> u32" where
  "rogue_mode_value ROGUE_ATTACK_UNSYNCHRONIZED_WRITE = 0"
| "rogue_mode_value ROGUE_ATTACK_MUTEX_METADATA = 1"

lemmas buffer_size_defs =
  DEMO_COMMAND_BUFFER_SIZE_def DEMO_RESULT_BUFFER_SIZE_def DEMO_DEVICE_NAME_SIZE_def
  DEMO_ACTION_NAME_SIZE_def DEMO_LOG_CAPACITY_def

lemmas mode_defs =
  DEMO_PROC_CONTROL_MODE_def DEMO_PROC_READ_ONLY_MODE_def DEMO_MODULE_PARAM_MODE_def

lemmas period_defs =
  MUTEX_THREAD_A_PERIOD_MS_def MUTEX_THREAD_B_PERIOD_MS_def MUTEX_HOLD_DURATION_MS_def
  ROGUE_WRITE_INTERVAL_MS_def

lemmas command_defs =
  DEMO_PROTECT_COMMAND_def DEMO_UNPROTECT_COMMAND_def DEMO_ENABLE_COMMAND_def
  DEMO_DISABLE_COMMAND_def

lemmas sentinel_defs =
  SAFETY_SENTINEL_def CORRUPT_SENTINEL_def BAD_DRIVER_VMALLOC_VALUE_def
  BAD_DRIVER_MUTEX_BYPASS_VALUE_def BAD_DRIVER_LINEAR_ALIAS_VALUE_def

section \<open>Userspace constants\<close>

definition kSafetySentinel :: u32 where "kSafetySentinel = 0x5AFE1234"
definition kCorruptSentinel :: u32 where "kCorruptSentinel = 0xDEADDEAD"
definition kSafetySentinelStatus :: string where "kSafetySentinelStatus = ''0x5AFE1234''"
definition kCorruptSentinelStatus :: string where "kCorruptSentinelStatus = ''0xDEADDEAD''"
definition kLinearBypassStatus :: string where "kLinearBypassStatus = ''0xBAD30003''"

text \<open>Durations in milliseconds, the one latency in nanoseconds.\<close>

definition kAttackSettleTime :: nat where "kAttackSettleTime = 100"
definition kThreadAttackObservationTime :: nat where "kThreadAttackObservationTime = 300"
definition kMonitorSnapshotSettleTime :: nat where "kMonitorSnapshotSettleTime = 300"
definition kResultDisplayTime :: nat where "kResultDisplayTime = 1500"
definition kMetadataAttackObservationTime :: nat where "kMetadataAttackObservationTime = 1000"
definition kAttackStatusPollInterval :: nat where "kAttackStatusPollInterval = 10"
definition kIllustrativeTlbFlushLatencyNs :: u64 where "kIllustrativeTlbFlushLatencyNs = 1500"

definition kVmallocAttackCommand :: string where "kVmallocAttackCommand = ''1''"
definition kLinearMapAttackCommand :: string where "kLinearMapAttackCommand = ''3''"
definition kEnableProtectionCommand :: string where "kEnableProtectionCommand = ''protect''"
definition kRogueWriteModuleParams :: string where
  "kRogueWriteModuleParams = ''attack_mode=0 interval_ms=100''"
definition kRogueMetadataModuleParams :: string where
  "kRogueMetadataModuleParams = ''attack_mode=1 interval_ms=100''"
definition kRogueStatusPath :: string where "kRogueStatusPath = ''/proc/rogue_thread_status''"
definition kMetadataAttackCountField :: string where
  "kMetadataAttackCountField = ''metadata_attack_count:''"
definition kProtectionEnabledStatus :: string where "kProtectionEnabledStatus = ''ctx_protected: 1''"
definition kVmallocReadOnlyStatus :: string where
  "kVmallocReadOnlyStatus = ''mapping_writable_vmalloc: 0''"

section \<open>The printed form of a 32-bit status value\<close>

text \<open>The conversion \<open>0x%08X\<close> the kernel prints safety values with.\<close>

definition fmt_0x08X :: "u32 \<Rightarrow> string" where
  "fmt_0x08X v = ''0x'' @ pad0 8 (hex_upper (unat v))"

lemmas hex_print_eval = fmt_0x08X_def hex_upper_def pad0_def num_str.simps digit_upper_def

lemma printed_sentinels [status_simps]:
  "fmt_0x08X SAFETY_SENTINEL = kSafetySentinelStatus"
  "fmt_0x08X CORRUPT_SENTINEL = kCorruptSentinelStatus"
  "fmt_0x08X BAD_DRIVER_LINEAR_ALIAS_VALUE = kLinearBypassStatus"
  by (simp_all add: hex_print_eval sentinel_defs kSafetySentinelStatus_def
      kCorruptSentinelStatus_def kLinearBypassStatus_def)

lemma unat_u32_bound: "unat (v :: u32) < 16 ^ 8"
  using unsigned_less [of v] by simp

text \<open>Two values print alike only when they are equal: the harness can tell them apart by text.\<close>

lemma fmt_0x08X_inj: "fmt_0x08X v = fmt_0x08X w \<longleftrightarrow> v = w"
proof
  assume "fmt_0x08X v = fmt_0x08X w"
  then have "digits_value 16 (pad0 8 (hex_upper (unat v))) = digits_value 16 (pad0 8 (hex_upper (unat w)))"
    by (simp add: fmt_0x08X_def)
  then show "v = w" by (simp add: hex_upper_def digits_value_num_str word_unat_eq_iff)
qed simp

text \<open>
  Every constant the harness compares kernel text against, or sends to the kernel, is the
  printed form of the kernel's own constant or the command text and enumerator the kernel tests
  for: the sentinel and bypass values as \<open>0x%08X\<close> prints them, the protect command, the attack
  codes \<open>1\<close> and \<open>3\<close>, the rogue module's \<open>attack_mode\<close> parameters and its procfs path.
\<close>

theorem demo_constants_agree:
  "kSafetySentinel = SAFETY_SENTINEL \<and> kCorruptSentinel = CORRUPT_SENTINEL
   \<and> kSafetySentinelStatus = fmt_0x08X SAFETY_SENTINEL
   \<and> kCorruptSentinelStatus = fmt_0x08X CORRUPT_SENTINEL
   \<and> kLinearBypassStatus = fmt_0x08X BAD_DRIVER_LINEAR_ALIAS_VALUE
   \<and> kEnableProtectionCommand = DEMO_PROTECT_COMMAND
   \<and> kVmallocAttackCommand = dec_nat (unat (attack_mode_value BAD_DRIVER_ATTACK_VMALLOC))
   \<and> kLinearMapAttackCommand = dec_nat (unat (attack_mode_value BAD_DRIVER_ATTACK_LINEAR_ALIAS))
   \<and> starts_with kRogueWriteModuleParams
        (''attack_mode='' @ dec_nat (unat (rogue_mode_value ROGUE_ATTACK_UNSYNCHRONIZED_WRITE)))
   \<and> starts_with kRogueMetadataModuleParams
        (''attack_mode='' @ dec_nat (unat (rogue_mode_value ROGUE_ATTACK_MUTEX_METADATA)))
   \<and> kRogueStatusPath = ''/proc/'' @ DEMO_ROGUE_STATUS_PROC_NAME"
proof -
  have "kSafetySentinel = SAFETY_SENTINEL" "kCorruptSentinel = CORRUPT_SENTINEL"
    by (simp_all add: kSafetySentinel_def kCorruptSentinel_def sentinel_defs)
  moreover have "kEnableProtectionCommand = DEMO_PROTECT_COMMAND"
    by (simp add: kEnableProtectionCommand_def command_defs)
  moreover have "kVmallocAttackCommand = dec_nat (unat (attack_mode_value BAD_DRIVER_ATTACK_VMALLOC))"
    "kLinearMapAttackCommand = dec_nat (unat (attack_mode_value BAD_DRIVER_ATTACK_LINEAR_ALIAS))"
    by (simp_all add: kVmallocAttackCommand_def kLinearMapAttackCommand_def dec_nat_def
        num_str.simps digit_lower_def)
  moreover have "kRogueStatusPath = ''/proc/'' @ DEMO_ROGUE_STATUS_PROC_NAME"
    by (simp add: kRogueStatusPath_def DEMO_ROGUE_STATUS_PROC_NAME_def)
  moreover have
    "starts_with kRogueWriteModuleParams
       (''attack_mode='' @ dec_nat (unat (rogue_mode_value ROGUE_ATTACK_UNSYNCHRONIZED_WRITE)))"
    "starts_with kRogueMetadataModuleParams
       (''attack_mode='' @ dec_nat (unat (rogue_mode_value ROGUE_ATTACK_MUTEX_METADATA)))"
    by (simp_all add: kRogueWriteModuleParams_def kRogueMetadataModuleParams_def
        starts_with_def dec_nat_def num_str.simps digit_lower_def)
  ultimately show ?thesis by (simp only: printed_sentinels simp_thms)
qed

end
