(* ===== verification/Kernel_Lib.thy ===== *)
theory Kernel_Lib
  imports Cxx_Text Demo_Constants
begin

text \<open>
  The kernel's sleeping mutex and its text helpers, as parameters with the behaviour the modules
  rely on. The mutex is seen through its \<open>owner\<close> word, which the sources read, mask and (in the
  metadata attack) overwrite; task pointers are 64-bit and 8-byte aligned.
\<close>

section \<open>The mutex\<close>

text \<open>Each operation takes the calling task and the owner word; \<open>mutex_lock\<close> is \<open>None\<close> when it sleeps.\<close>

record mutex_api =
  mutex_trylock :: "u64 \<Rightarrow> u64 \<Rightarrow> bool \<times> u64"
  mutex_lock :: "u64 \<Rightarrow> u64 \<Rightarrow> u64 option"
  mutex_unlock :: "u64 \<Rightarrow> u64 \<Rightarrow> u64"
  mutex_is_locked :: "u64 \<Rightarrow> bool"

text \<open>The pointer part of an owner word, as the sources compute it.\<close>

definition owner_task :: "u64 \<Rightarrow> u64" where
  "owner_task ow = ow AND NOT DEMO_MUTEX_OWNER_FLAGS_MASK"

definition is_task :: "u64 \<Rightarrow> bool" where
  "is_task t \<longleftrightarrow> t \<noteq> 0 \<and> t AND DEMO_MUTEX_OWNER_FLAGS_MASK = 0"

definition mutex_ok :: "mutex_api \<Rightarrow> bool" where
  "mutex_ok M \<longleftrightarrow>
     \<not> mutex_is_locked M 0
     \<and> (\<forall>t ow. is_task t \<longrightarrow> mutex_is_locked M ow \<longrightarrow> mutex_lock M t ow = None)
     \<and> (\<forall>t ow. is_task t \<longrightarrow> \<not> mutex_is_locked M ow \<longrightarrow>
          (\<exists>ow'. mutex_lock M t ow = Some ow' \<and> mutex_is_locked M ow' \<and> owner_task ow' = t))
     \<and> (\<forall>t ow. mutex_trylock M t ow
          = (case mutex_lock M t ow of None \<Rightarrow> (False, ow) | Some ow' \<Rightarrow> (True, ow')))
     \<and> (\<forall>t ow. \<not> mutex_is_locked M (mutex_unlock M t ow))"

lemma mutex_lock_None_iff [simp]:
  "mutex_ok M \<Longrightarrow> is_task t \<Longrightarrow> mutex_lock M t ow = None \<longleftrightarrow> mutex_is_locked M ow"
  by (metis mutex_ok_def option.distinct(1))

lemma mutex_lock_Some:
  assumes "mutex_ok M" "is_task t" "mutex_lock M t ow = Some ow'"
  shows "\<not> mutex_is_locked M ow" "mutex_is_locked M ow'" "owner_task ow' = t"
  using assms by (metis mutex_ok_def option.distinct(1) option.inject)+

lemma mutex_free_lock:
  assumes "mutex_ok M" "is_task t" "\<not> mutex_is_locked M ow"
  obtains ow' where "mutex_lock M t ow = Some ow'" "mutex_is_locked M ow'" "owner_task ow' = t"
  using assms unfolding mutex_ok_def by blast

lemma mutex_trylock_eq:
  "mutex_ok M \<Longrightarrow> mutex_trylock M t ow
     = (case mutex_lock M t ow of None \<Rightarrow> (False, ow) | Some ow' \<Rightarrow> (True, ow'))"
  unfolding mutex_ok_def by blast

lemma mutex_unlock_free [simp]: "mutex_ok M \<Longrightarrow> \<not> mutex_is_locked M (mutex_unlock M t ow)"
  unfolding mutex_ok_def by blast

lemma mutex_cleared_free [simp]: "mutex_ok M \<Longrightarrow> \<not> mutex_is_locked M 0"
  unfolding mutex_ok_def by blast

text \<open>A mutex that satisfies the hypotheses: the owner word is the task, 0 when free.\<close>

definition ref_mutex :: mutex_api where
  "ref_mutex = \<lparr>mutex_trylock = (\<lambda>t ow. if ow = 0 then (True, t) else (False, ow)),
     mutex_lock = (\<lambda>t ow. if ow = 0 then Some t else None),
     mutex_unlock = (\<lambda>t ow. 0), mutex_is_locked = (\<lambda>ow. ow \<noteq> 0)\<rparr>"

lemma owner_task_id: "is_task t \<Longrightarrow> owner_task t = t"
  by (simp add: is_task_def owner_task_def bit_eq_iff bit_simps) blast

theorem ref_mutex_ok: "mutex_ok ref_mutex"
  by (simp add: mutex_ok_def ref_mutex_def owner_task_id is_task_def)

lemma ref_mutex_sel [simp]:
  "mutex_lock ref_mutex t ow = (if ow = 0 then Some t else None)"
  "mutex_trylock ref_mutex t ow = (if ow = 0 then (True, t) else (False, ow))"
  "mutex_unlock ref_mutex t ow = 0" "mutex_is_locked ref_mutex ow \<longleftrightarrow> ow \<noteq> 0"
  by (simp_all add: ref_mutex_def)

section \<open>Text helpers and task names\<close>

text \<open>
  \<open>fmt_px\<close> and \<open>fmt_pa\<close> are the kernel's pointer and physical-address conversions, \<open>strscpy\<close>
  gives the destination buffer's contents for its size and source, \<open>kstrtouint\<close> an errno or the
  number, \<open>comm_of\<close> and \<open>pid_of\<close> read a task structure.
\<close>

record kernel_lib =
  fmt_px :: "u64 \<Rightarrow> string"
  fmt_pa :: "u64 \<Rightarrow> string"
  strim :: "string \<Rightarrow> string"
  strscpy :: "nat \<Rightarrow> string \<Rightarrow> string"
  kstrtouint :: "string \<Rightarrow> nat \<Rightarrow> int + u32"
  comm_of :: "u64 \<Rightarrow> string"
  pid_of :: "u64 \<Rightarrow> int"

definition trim_with :: "(char \<Rightarrow> bool) \<Rightarrow> string \<Rightarrow> string" where
  "trim_with sp s = rev (dropWhile sp (rev (dropWhile sp s)))"

definition kernel_lib_ok :: "kernel_lib \<Rightarrow> bool" where
  "kernel_lib_ok L \<longleftrightarrow>
     (\<forall>a. fmt_px L a = pad0 16 (hex_lower (unat a)))
     \<and> (\<forall>a. fmt_pa L a = ''0x'' @ pad0 16 (hex_lower (unat a)))
     \<and> (\<forall>s. strim L s = trim_with c_isspace s)
     \<and> (\<forall>n s. 0 < n \<longrightarrow> strscpy L n s = take (n - 1) s)
     \<and> (\<forall>n < 2 ^ 32. kstrtouint L (dec_nat n) 0 = Inr (of_nat n))
     \<and> (\<forall>t. newline \<notin> set (comm_of L t) \<and> length (comm_of L t) \<le> 15)"

lemma kernel_lib_okD:
  assumes "kernel_lib_ok L"
  shows "strim L s = trim_with c_isspace s"
    and "0 < n \<Longrightarrow> strscpy L n s = take (n - 1) s"
    and "k < 2 ^ 32 \<Longrightarrow> kstrtouint L (dec_nat k) 0 = Inr (of_nat k)"
    and "fmt_px L a = pad0 16 (hex_lower (unat a))"
    and "fmt_pa L a = ''0x'' @ pad0 16 (hex_lower (unat a))"
    and "newline \<notin> set (comm_of L t)"
    and "length (comm_of L t) \<le> 15"
  using assms by (simp_all add: kernel_lib_ok_def)

text \<open>How the procfs handlers see a command word with white space around it.\<close>

lemma trim_with_pad:
  assumes "\<forall>x \<in> set w1. sp x" "\<forall>x \<in> set w2. sp x" "c \<noteq> []" "\<not> sp (hd c)" "\<not> sp (last c)"
  shows "trim_with sp (w1 @ c @ w2) = c"
proof -
  have "dropWhile sp (w1 @ c @ w2) = c @ w2"
    using assms(1,3,4) by (intro dropWhile_append_stop) simp_all
  moreover have "dropWhile sp (rev w2 @ rev c) = rev c"
    using assms(2,3,5) by (intro dropWhile_append_stop) (simp_all add: hd_rev)
  ultimately show ?thesis by (simp add: trim_with_def)
qed

lemma command_word:
  assumes "kernel_lib_ok L" "\<forall>x \<in> set w1. c_isspace x" "\<forall>x \<in> set w2. c_isspace x"
    and "c \<noteq> []" "\<forall>x \<in> set c. \<not> c_isspace x \<and> x \<noteq> CHR 0x00"
  shows "strim L (takeWhile (\<lambda>x. x \<noteq> CHR 0x00) (w1 @ c @ w2)) = c"
proof -
  have "\<forall>x \<in> set (w1 @ c @ w2). x \<noteq> CHR 0x00"
    using assms(2,3,5) nul_not_space by fastforce
  then have "takeWhile (\<lambda>x. x \<noteq> CHR 0x00) (w1 @ c @ w2) = w1 @ c @ w2"
    by (simp only: takeWhile_eq_all_conv)
  moreover have "trim_with c_isspace (w1 @ c @ w2) = c"
    using assms(2-4) by (rule trim_with_pad) (use assms(4,5) in simp_all)
  ultimately show ?thesis by (simp only: kernel_lib_okD(1) [OF assms(1)])
qed

definition ref_lib :: kernel_lib where
  "ref_lib = \<lparr>fmt_px = (\<lambda>a. pad0 16 (hex_lower (unat a))),
     fmt_pa = (\<lambda>a. ''0x'' @ pad0 16 (hex_lower (unat a))),
     strim = trim_with c_isspace,
     strscpy = (\<lambda>n s. take (n - 1) s),
     kstrtouint = (\<lambda>s b. if s \<noteq> [] \<and> list_all (is_digit 10) s \<and> digits_value 10 s < 2 ^ 32
                         then Inr (of_nat (digits_value 10 s)) else Inl (- EINVAL)),
     comm_of = (\<lambda>t. ''task''), pid_of = (\<lambda>t. 1)\<rparr>"

theorem ref_lib_ok: "kernel_lib_ok ref_lib"
proof -
  have "digits_value 10 (dec_nat n) = n" "list_all (is_digit 10) (dec_nat n)" "dec_nat n \<noteq> []" for n
    using num_str_digits [OF good_digits_std(1), of n]
    by (simp_all add: dec_nat_def digits_value_num_str list_all_iff)
  then show ?thesis by (simp add: kernel_lib_ok_def ref_lib_def)
qed

end
