(* ===== verification/Kernel_Calls.thy ===== *)
theory Kernel_Calls
  imports Prelude
begin

text \<open>
  The contract between a kernel module's \<open>init\<close> and \<open>exit\<close> functions and the kernel's resources.
  The kernel services themselves are outside the repository: whether a call succeeds is an input
  of the model, and an init or exit function is modelled by its return value and by the list of
  acquisitions and releases it makes, in order. \<open>replay\<close> runs such a list against the resources
  already held; releasing something that is not held is an error. The locale \<open>kernel_module\<close>
  states what a module owes: a failed init gives everything back, and exit gives back everything
  a successful init took.
\<close>

datatype resource =
    DieNotifier
  | ProcEntry string
  | PageFrame
  | VmapAlias
  | Kthread string
  | PlatformDevice string
  | IommuDomain
  | IommuAttachment

datatype kcall = Acquire resource | Release resource

fun replay :: "resource list \<Rightarrow> kcall list \<Rightarrow> resource list option" where
  "replay h [] = Some h"
| "replay h (Acquire r # cs) = replay (r # h) cs"
| "replay h (Release r # cs) = (if r \<in> set h then replay (remove1 r h) cs else None)"

text \<open>Insertions and removals of a module over a sequence of load attempts.\<close>

fun module_session ::
  "('env \<Rightarrow> int \<times> kcall list) \<Rightarrow> ('env \<Rightarrow> kcall list) \<Rightarrow> 'env list \<Rightarrow> kcall list" where
  "module_session init ex [] = []"
| "module_session init ex (e # es) =
     snd (init e) @ (if fst (init e) = 0 then ex e else []) @ module_session init ex es"

lemma replay_append:
  "replay h (xs @ ys) = (case replay h xs of None \<Rightarrow> None | Some h' \<Rightarrow> replay h' ys)"
  by (induction h xs rule: replay.induct) auto

lemma replay_append_Some [simp]: "replay h xs = Some h' \<Longrightarrow> replay h (xs @ ys) = replay h' ys"
  by (simp add: replay_append)

locale kernel_module =
  fixes init :: "'env \<Rightarrow> int \<times> kcall list"
    and ex :: "'env \<Rightarrow> kcall list"
    and sane :: "'env \<Rightarrow> bool"
  assumes failure_clean: "sane e \<Longrightarrow> fst (init e) \<noteq> 0 \<Longrightarrow> replay h (snd (init e)) = Some h"
    and unload_clean: "sane e \<Longrightarrow> fst (init e) = 0 \<Longrightarrow> replay h (snd (init e) @ ex e) = Some h"
begin

lemma session_clean: "list_all sane es \<Longrightarrow> replay h (module_session init ex es) = Some h"
proof (induction es)
  case (Cons e es)
  then have "replay h (snd (init e) @ (if fst (init e) = 0 then ex e else [])) = Some h"
    using failure_clean [of e] unload_clean [of e] by auto
  then have "replay h ((snd (init e) @ (if fst (init e) = 0 then ex e else []))
      @ module_session init ex es) = replay h (module_session init ex es)"
    by (rule replay_append_Some)
  with Cons show ?case by simp
qed simp

end

end
