(* ===== verification/Ring_Log.thy ===== *)
theory Ring_Log
  imports Prelude
begin

text \<open>
  Two interfaces. \<open>bounded_log\<close> is what a log promises its readers: it holds the most recent
  \<open>cap\<close> entries, oldest first. \<open>ring_buffer\<close> is how the kernel modules keep such a log: an array,
  a write index that wraps, and a fill count. Every ring buffer is a bounded log (the sublocale),
  so a component only shows that its operations do the index arithmetic of a ring buffer.
\<close>

text \<open>The array as a reader unrolls it: from the write index when full, from 0 otherwise.\<close>

definition ring_slots :: "nat \<Rightarrow> 'e list \<Rightarrow> nat \<Rightarrow> nat \<Rightarrow> 'e list" where
  "ring_slots cap ring head count =
     map (\<lambda>i. ring ! (if count = cap then (head + i) mod cap else i)) [0..<count]"

definition ring_wf :: "nat \<Rightarrow> 'e list \<Rightarrow> nat \<Rightarrow> nat \<Rightarrow> bool" where
  "ring_wf cap ring head count \<longleftrightarrow>
     length ring = cap \<and> head < cap \<and> count \<le> cap \<and> (count < cap \<longrightarrow> head = count)"

locale bounded_log =
  fixes cap :: nat
    and push :: "'e \<Rightarrow> 's \<Rightarrow> 's"
    and contents :: "'s \<Rightarrow> 'e list"
    and invar :: "'s \<Rightarrow> bool"
  assumes cap_pos: "0 < cap"
    and contents_push: "invar s \<Longrightarrow> contents (push e s) = take_last cap (contents s @ [e])"
    and invar_push: "invar s \<Longrightarrow> invar (push e s)"
    and contents_bound: "invar s \<Longrightarrow> length (contents s) \<le> cap"
begin

lemma invar_run: "invar s \<Longrightarrow> invar (fold push es s)"
  by (induction es arbitrary: s) (auto simp: invar_push)

lemma contents_run: "invar s \<Longrightarrow> contents (fold push es s) = take_last cap (contents s @ es)"
proof (induction es arbitrary: s)
  case Nil
  then show ?case by (simp add: contents_bound)
next
  case (Cons e es)
  then have "contents (fold push (e # es) s) = take_last cap (contents (push e s) @ es)"
    by (simp add: invar_push)
  also have "\<dots> = take_last cap ((contents s @ [e]) @ es)"
    using Cons.prems by (simp add: contents_push take_last_take_last_append)
  finally show ?case by simp
qed

lemma newest_last: "invar s \<Longrightarrow> contents (push e s) \<noteq> [] \<and> last (contents (push e s)) = e"
  using cap_pos by (auto simp: contents_push take_last_def last_drop)

end

lemma ring_slots_length [simp]: "length (ring_slots cap ring head count) = count"
  by (simp add: ring_slots_def)

lemma ring_slots_partial:
  assumes "count < cap"
  shows "ring_slots cap ring head count = map ((!) ring) [0..<count]"
  using assms by (simp add: ring_slots_def)

lemma ring_push_partial:
  assumes wf: "ring_wf cap ring head count" and "count + 1 < cap"
  shows "ring_slots cap (ring[head := e]) ((head + 1) mod cap) (count + 1)
         = ring_slots cap ring head count @ [e]"
proof (rule nth_equalityI)
  fix i assume "i < length (ring_slots cap (ring[head := e]) ((head + 1) mod cap) (count + 1))"
  then have i: "i < count + 1" by simp
  from wf assms(2) have "head = count" "length ring = cap" by (auto simp: ring_wf_def)
  with assms(2) i show "ring_slots cap (ring[head := e]) ((head + 1) mod cap) (count + 1) ! i
      = (ring_slots cap ring head count @ [e]) ! i"
    by (cases "i = count") (simp_all add: ring_slots_partial nth_append del: upt_Suc)
qed simp

lemma ring_push_last_slot:
  assumes wf: "ring_wf cap ring head count" and "count + 1 = cap"
  shows "ring_slots cap (ring[head := e]) ((head + 1) mod cap) cap
         = ring_slots cap ring head count @ [e]"
proof (rule nth_equalityI)
  from wf assms(2) have h: "head = count" "length ring = cap" by (auto simp: ring_wf_def)
  show "length (ring_slots cap (ring[head := e]) ((head + 1) mod cap) cap)
      = length (ring_slots cap ring head count @ [e])" using assms(2) by simp
  fix i assume "i < length (ring_slots cap (ring[head := e]) ((head + 1) mod cap) cap)"
  then have i: "i < cap" by simp
  with h assms(2) show "ring_slots cap (ring[head := e]) ((head + 1) mod cap) cap ! i
      = (ring_slots cap ring head count @ [e]) ! i"
    by (cases "i = count") (auto simp: ring_slots_def nth_append)
qed

lemma ring_push_full:
  assumes wf: "ring_wf cap ring head cap"
  shows "ring_slots cap (ring[head := e]) ((head + 1) mod cap) cap
         = tl (ring_slots cap ring head cap) @ [e]"
proof (rule nth_equalityI)
  from wf have h: "head < cap" "length ring = cap" by (auto simp: ring_wf_def)
  then show "length (ring_slots cap (ring[head := e]) ((head + 1) mod cap) cap)
      = length (tl (ring_slots cap ring head cap) @ [e])" by simp
  fix i assume "i < length (ring_slots cap (ring[head := e]) ((head + 1) mod cap) cap)"
  then have i: "i < cap" by simp
  have idx: "((head + 1) mod cap + i) mod cap = (head + Suc i) mod cap"
    by (simp add: mod_add_left_eq)
  show "ring_slots cap (ring[head := e]) ((head + 1) mod cap) cap ! i
      = (tl (ring_slots cap ring head cap) @ [e]) ! i"
  proof (cases "Suc i = cap")
    case True
    then have "(head + Suc i) mod cap = head" using h by simp
    moreover have "cap - Suc 0 = i" using True by simp
    ultimately show ?thesis using h i idx by (simp add: ring_slots_def nth_append)
  next
    case False
    with i have si: "Suc i < cap" by simp
    have "(head + Suc i) mod cap \<noteq> head"
    proof (cases "head + Suc i < cap")
      case False
      then have "(head + Suc i) mod cap = head + Suc i - cap"
        using h si by (simp add: mod_if)
      with si False show ?thesis by simp
    qed simp
    moreover have "i < cap - Suc 0" using si by simp
    ultimately show ?thesis using si h idx
      by (simp add: ring_slots_def nth_append nth_tl)
  qed
qed

locale ring_buffer =
  fixes cap :: nat
    and ring :: "'s \<Rightarrow> 'e list"
    and head :: "'s \<Rightarrow> nat"
    and count :: "'s \<Rightarrow> nat"
    and push :: "'e \<Rightarrow> 's \<Rightarrow> 's"
    and snapshot :: "'s \<Rightarrow> 'e list"
  assumes cap_positive: "0 < cap"
    and ring_push: "ring (push e s) = (ring s)[head s := e]"
    and head_push: "head (push e s) = (head s + 1) mod cap"
    and count_push: "count (push e s) = (if count s < cap then count s + 1 else count s)"
    and snapshot_slots: "snapshot s = ring_slots cap (ring s) (head s) (count s)"
begin

lemma wf_push:
  assumes "ring_wf cap (ring s) (head s) (count s)"
  shows "ring_wf cap (ring (push e s)) (head (push e s)) (count (push e s))"
proof -
  have "(head s + 1) mod cap < cap" using cap_positive by simp
  then show ?thesis
    using assms by (auto simp: ring_wf_def ring_push head_push count_push)
qed

lemma snapshot_push:
  assumes wf: "ring_wf cap (ring s) (head s) (count s)"
  shows "snapshot (push e s) = take_last cap (snapshot s @ [e])"
proof -
  consider "count s + 1 < cap" | "count s + 1 = cap" | "count s = cap"
    using wf by (force simp: ring_wf_def)
  then show ?thesis
  proof cases
    case 1
    with ring_push_partial [OF wf 1] show ?thesis
      by (simp add: snapshot_slots ring_push head_push count_push)
  next
    case 2
    with ring_push_last_slot [OF wf 2] show ?thesis
      by (simp add: snapshot_slots ring_push head_push count_push)
  next
    case 3
    with wf have "ring_wf cap (ring s) (head s) cap" by simp
    from ring_push_full [OF this] 3 show ?thesis
      by (simp add: snapshot_slots ring_push head_push count_push take_last_snoc_full
          cap_positive)
  qed
qed

end

sublocale ring_buffer \<subseteq> bounded_log cap push snapshot "\<lambda>s. ring_wf cap (ring s) (head s) (count s)"
proof unfold_locales
  show "0 < cap" by (rule cap_positive)
  show "\<And>s e. ring_wf cap (ring s) (head s) (count s) \<Longrightarrow>
    snapshot (push e s) = take_last cap (snapshot s @ [e])" by (rule snapshot_push)
  show "\<And>s e. ring_wf cap (ring s) (head s) (count s) \<Longrightarrow>
    ring_wf cap (ring (push e s)) (head (push e s)) (count (push e s))" by (rule wf_push)
  show "\<And>s. ring_wf cap (ring s) (head s) (count s) \<Longrightarrow> length (snapshot s) \<le> cap"
    by (simp add: snapshot_slots ring_wf_def)
qed

end
