(* ===== verification/Reference_Kernel.thy ===== *)
theory Reference_Kernel
  imports Page_Walk
begin

text \<open>
  A concrete machine and kernel that satisfy every hypothesis of \<open>kernel_mm_ok\<close>: the witnesses run
  on it. Addresses are mapped one by one, each to a physical location with a permission; the
  machine also says for which addresses \<open>set_memory_ro\<close> and \<open>set_memory_rw\<close> are accepted, since
  an ARM64 kernel refuses addresses outside its vmalloc areas.
\<close>

record ref_machine =
  rm_map :: "u64 \<Rightarrow> (u64 \<times> bool) option"
  rm_mem :: "u64 \<Rightarrow> u32"
  rm_accepts :: "u64 \<Rightarrow> bool"

text \<open>Pointers below 16 stand for the upper table levels; a leaf entry has a present and a write bit.\<close>

definition ref_entry :: "ref_machine \<Rightarrow> u64 \<Rightarrow> u64" where
  "ref_entry m p =
     (if p < 16 then 1
      else case rm_map m p of
          None \<Rightarrow> 0
        | Some (pa, w) \<Rightarrow> if w then 3 else 1)"

definition ref_set_memory :: "bool \<Rightarrow> u64 \<Rightarrow> int \<Rightarrow> ref_machine \<Rightarrow> int \<times> ref_machine" where
  "ref_set_memory w a n m =
     (case rm_map m a of
        None \<Rightarrow> (- EINVAL, m)
      | Some (pa, _) \<Rightarrow>
          if rm_accepts m a \<and> 16 \<le> a then (0, m\<lparr>rm_map := (rm_map m)(a := Some (pa, w))\<rparr>)
          else (- EINVAL, m))"

definition ref_phys :: "ref_machine \<Rightarrow> u64 \<Rightarrow> u64 option" where
  "ref_phys m a = (if a < 16 then None else map_option fst (rm_map m a))"

definition ref_load :: "u64 \<Rightarrow> ref_machine \<Rightarrow> u32 option" where
  "ref_load a m = map_option (rm_mem m) (ref_phys m a)"

definition ref_store :: "u64 \<Rightarrow> u32 \<Rightarrow> ref_machine \<Rightarrow> ref_machine option" where
  "ref_store a v m =
     (if a < 16 then None
      else case rm_map m a of
          Some (pa, True) \<Rightarrow> Some (m\<lparr>rm_mem := (rm_mem m)(pa := v)\<rparr>)
        | _ \<Rightarrow> None)"

definition ref_kernel :: "ref_machine kernel_mm" where
  "ref_kernel = \<lparr>PAGE_SIZE = 4096, PAGE_SHIFT = 12, entry = ref_entry,
     pgd_offset_k = (\<lambda>m a. 1), p4d_offset = (\<lambda>m p a. 2), pud_offset = (\<lambda>m p a. 3),
     pmd_offset = (\<lambda>m p a. 4), pte_offset_kernel = (\<lambda>m p a. if a < 16 then 0 else a),
     pgd_none = (\<lambda>e. e = 0), pgd_bad = (\<lambda>e. False), p4d_none = (\<lambda>e. e = 0),
     p4d_bad = (\<lambda>e. False), pud_none = (\<lambda>e. e = 0), pud_bad = (\<lambda>e. False),
     pmd_none = (\<lambda>e. e = 0), pmd_sect = (\<lambda>e. False), pmd_write = (\<lambda>e. False),
     pmd_pfn = (\<lambda>e. 0), pte_none = (\<lambda>e. e = 0), pte_present = (\<lambda>e. e \<noteq> 0),
     pte_write = (\<lambda>e. e = 3), pte_pfn = (\<lambda>e. 0),
     set_memory_ro = ref_set_memory False, set_memory_rw = ref_set_memory True,
     load32 = ref_load, store32 = ref_store,
     copy_from_kernel_nofault =
       (\<lambda>a m. case ref_load a m of Some v \<Rightarrow> (0, Some v) | None \<Rightarrow> (- EFAULT, None)),
     copy_to_kernel_nofault =
       (\<lambda>a v m. case ref_store a v m of Some m' \<Rightarrow> (0, m') | None \<Rightarrow> (- EFAULT, m)),
     phys_to_virt = (\<lambda>pa. pa), phys_of = ref_phys\<rparr>"

text \<open>What the walker reports on the reference kernel.\<close>

lemma ref_walk [simp]:
  "is_valid (safety_mem_walk_pgtable ref_kernel m a) \<longleftrightarrow> 16 \<le> a \<and> rm_map m a \<noteq> None"
  "is_writable (safety_mem_walk_pgtable ref_kernel m a)
     \<longleftrightarrow> 16 \<le> a \<and> (\<exists>pa. rm_map m a = Some (pa, True))"
  by (auto simp: safety_mem_walk_pgtable_def ref_kernel_def ref_entry_def zero_walk_info_def Let_def
      linorder_not_less split: option.splits if_splits)

lemma ref_kernel_sel [simp]:
  "load32 ref_kernel = ref_load" "store32 ref_kernel = ref_store"
  "set_memory_ro ref_kernel = ref_set_memory False"
  "set_memory_rw ref_kernel = ref_set_memory True"
  "phys_of ref_kernel = ref_phys" "PAGE_SIZE ref_kernel = 4096"
  "phys_to_virt ref_kernel = (\<lambda>pa. pa)"
  by (simp_all add: ref_kernel_def)

lemma ref_stores_keep_tables: "stores_keep_tables ref_kernel"
proof -
  have "safety_mem_walk_pgtable ref_kernel (m\<lparr>rm_mem := f\<rparr>) b = safety_mem_walk_pgtable ref_kernel m b
      \<and> ref_phys (m\<lparr>rm_mem := f\<rparr>) b = ref_phys m b" for m f b
    by (simp add: safety_mem_walk_pgtable_def ref_kernel_def ref_entry_def ref_phys_def Let_def)
  then show ?thesis
    by (auto simp: stores_keep_tables_def ref_store_def split: if_splits option.splits bool.splits)
qed

lemma ref_set_memory_effect: "set_memory_effect ref_kernel"
  by (auto simp: set_memory_effect_def ref_set_memory_def ref_load_def ref_phys_def errno_defs
      split: option.splits if_splits)

theorem ref_kernel_ok: "kernel_mm_ok ref_kernel"
proof -
  have "stores_obey_tables ref_kernel"
    by (auto simp: stores_obey_tables_def ref_store_def linorder_not_less
        split: option.splits bool.splits)
  moreover have "stores_visible ref_kernel"
    by (auto simp: stores_visible_def same_frame_def ref_store_def ref_load_def ref_phys_def
        split: option.splits bool.splits if_splits)
  moreover have "loads_need_valid ref_kernel"
    by (auto simp: loads_need_valid_def ref_load_def ref_phys_def linorder_not_less)
  moreover have "nofault_copies ref_kernel"
    by (simp add: nofault_copies_def ref_kernel_def)
  ultimately show ?thesis
    by (simp add: kernel_mm_ok_def ref_stores_keep_tables ref_set_memory_effect)
qed

text \<open>The walker's report at a mapped page of the reference kernel.\<close>

theorem walk_reports_leaf_entry_witness:
  "let m = \<lparr>rm_map = (\<lambda>a. if a = 0x2000 then Some (0x1000, False) else None), rm_mem = (\<lambda>_. 0),
            rm_accepts = (\<lambda>_. True)\<rparr>;
       info = safety_mem_walk_pgtable ref_kernel m 0x2000
   in is_valid info \<and> is_writable info = pte_write ref_kernel (safety_mem_mapping_entry info)"
proof -
  let ?m = "\<lparr>rm_map = (\<lambda>a. if a = 0x2000 then Some (0x1000, False) else None), rm_mem = (\<lambda>_. 0),
            rm_accepts = (\<lambda>_. True)\<rparr> :: ref_machine"
  have v: "is_valid (safety_mem_walk_pgtable ref_kernel ?m 0x2000)" by simp
  have "safety_mem_mapping_level (safety_mem_walk_pgtable ref_kernel ?m 0x2000) \<noteq> ''PMD_BLOCK''"
    by (simp add: safety_mem_mapping_level_def safety_mem_walk_pgtable_def ref_kernel_def
        ref_entry_def zero_walk_info_def Let_def)
  with walk_reports_leaf_entry [OF v] v show ?thesis by (simp add: Let_def del: ref_walk)
qed

end
