(* ===== verification/Safety_Mem.thy ===== *)
theory Safety_Mem
  imports Page_Walk Kernel_Lib Kernel_Calls Ctx_Monitor Reference_Kernel
begin

text \<open>
  \<open>src/kernel/safety_mem/safety_mem.c\<close>: the safety page with its two virtual aliases, the
  permission toggle, the authorized write path and the procfs interface. The state is the module's
  global data (the mutex as its owner word) together with the machine and the state of
  ctx_monitor, which the module calls. A path that takes the mutex is one atomic step of the
  calling task \<open>cur\<close>; it is \<open>Inl WouldBlock\<close> when the mutex is held and \<open>Inl KernelOops\<close> when a
  plain store faults. The memory barriers are no steps of their own: the machine is sequentially
  consistent.
\<close>

section \<open>State\<close>

record safety_mem_state =
  g_safety_page :: u64
  g_virt_addr :: u64
  g_vmalloc_addr :: u64
  g_phys_addr :: u64
  safety_buf_ptr :: u64
  safety_mutex_owner :: u64
  g_ctx_protected :: int
  g_smmu_active :: int
  g_initial_mapping :: pgtable_walk_info

definition safety_mem_initial :: safety_mem_state where
  "safety_mem_initial = \<lparr>g_safety_page = 0, g_virt_addr = 0, g_vmalloc_addr = 0, g_phys_addr = 0,
     safety_buf_ptr = 0, safety_mutex_owner = 0, g_ctx_protected = 0, g_smmu_active = 0,
     g_initial_mapping = zero_walk_info\<rparr>"

record 'm kstate =
  mach :: 'm
  sm :: safety_mem_state
  cm :: ctx_monitor_state

section \<open>Accessors and flags\<close>

definition safety_mem_set_smmu_active :: "bool \<Rightarrow> safety_mem_state \<Rightarrow> safety_mem_state" where
  "safety_mem_set_smmu_active active s = s\<lparr>g_smmu_active := (if active then 1 else 0)\<rparr>"

definition safety_mem_get_virt_addr :: "safety_mem_state \<Rightarrow> u64" where
  "safety_mem_get_virt_addr s = g_virt_addr s"

definition safety_mem_get_vmalloc_addr :: "safety_mem_state \<Rightarrow> u64" where
  "safety_mem_get_vmalloc_addr s = g_vmalloc_addr s"

definition safety_mem_get_phys_addr :: "safety_mem_state \<Rightarrow> u64" where
  "safety_mem_get_phys_addr s = g_phys_addr s"

text \<open>The pointer \<open>&safety_mutex\<close> is never null; what its users read is the owner word.\<close>

definition safety_mem_get_mutex :: "safety_mem_state \<Rightarrow> u64 option" where
  "safety_mem_get_mutex s = Some (safety_mutex_owner s)"

definition safety_mem_is_protected :: "safety_mem_state \<Rightarrow> bool" where
  "safety_mem_is_protected s \<longleftrightarrow> g_ctx_protected s \<noteq> 0"

lemmas accessor_defs =
  safety_mem_get_virt_addr_def safety_mem_get_vmalloc_addr_def safety_mem_get_phys_addr_def
  safety_mem_get_mutex_def safety_mem_is_protected_def safety_mem_set_smmu_active_def

section \<open>The permission toggle\<close>

text \<open>The two branches of \<open>safety_mem_set_protection\<close>: direct alias result, vmalloc result, state.\<close>

definition enable_protection ::
  "'m kernel_mm \<Rightarrow> 'm kstate \<Rightarrow> int \<times> int \<times> 'm kstate" where
  "enable_protection K s =
     (let virt = g_virt_addr (sm s);
          vm = g_vmalloc_addr (sm s);
          cm' = ctx_monitor_set_protected_range virt (virt + PAGE_SIZE K) (cm s);
          (ret_virt, m1) = set_memory_ro K virt 1 (mach s);
          (ret_vmalloc, m2) = (if vm \<noteq> 0 then set_memory_ro K vm 1 m1 else (0, m1));
          vmalloc_mapping = safety_mem_walk_pgtable K m2 vm;
          prot = (if ret_vmalloc = 0 \<and> is_valid vmalloc_mapping \<and> \<not> is_writable vmalloc_mapping
                  then 1 else 0)
      in (ret_virt, ret_vmalloc,
          s\<lparr>mach := m2, cm := cm', sm := (sm s)\<lparr>g_ctx_protected := prot\<rparr>\<rparr>))"

definition disable_protection ::
  "'m kernel_mm \<Rightarrow> 'm kstate \<Rightarrow> int \<times> int \<times> 'm kstate" where
  "disable_protection K s =
     (let virt = g_virt_addr (sm s);
          vm = g_vmalloc_addr (sm s);
          cm' = ctx_monitor_set_protected_range 0 0 (cm s);
          (ret_virt, m1) = set_memory_rw K virt 1 (mach s);
          (ret_vmalloc, m2) = (if vm \<noteq> 0 then set_memory_rw K vm 1 m1 else (0, m1))
      in (ret_virt, ret_vmalloc,
          s\<lparr>mach := m2, cm := cm', sm := (sm s)\<lparr>g_ctx_protected := 0\<rparr>\<rparr>))"

definition set_owner :: "u64 \<Rightarrow> 'm kstate \<Rightarrow> 'm kstate" where
  "set_owner ow s = s\<lparr>sm := (sm s)\<lparr>safety_mutex_owner := ow\<rparr>\<rparr>"

definition safety_mem_set_protection ::
  "'m kernel_mm \<Rightarrow> mutex_api \<Rightarrow> u64 \<Rightarrow> bool \<Rightarrow> 'm kstate \<Rightarrow> kstop + int \<times> 'm kstate" where
  "safety_mem_set_protection K M cur enable_ro s =
     (case mutex_lock M cur (safety_mutex_owner (sm s)) of
        None \<Rightarrow> Inl WouldBlock
      | Some ow \<Rightarrow>
          let (ret_virt, ret_vmalloc, s') =
                (if enable_ro then enable_protection K (set_owner ow s)
                 else disable_protection K (set_owner ow s))
          in Inr (if ret_vmalloc \<noteq> 0 then ret_vmalloc else ret_virt,
                  set_owner (mutex_unlock M cur ow) s'))"

section \<open>The authorized write\<close>

definition make_aliases_rw :: "'m kernel_mm \<Rightarrow> safety_mem_state \<Rightarrow> 'm \<Rightarrow> 'm" where
  "make_aliases_rw K s m =
     (let m1 = snd (set_memory_rw K (g_virt_addr s) 1 m)
      in if g_vmalloc_addr s \<noteq> 0 then snd (set_memory_rw K (g_vmalloc_addr s) 1 m1) else m1)"

definition make_aliases_ro :: "'m kernel_mm \<Rightarrow> safety_mem_state \<Rightarrow> 'm \<Rightarrow> 'm" where
  "make_aliases_ro K s m =
     (let m1 = snd (set_memory_ro K (g_virt_addr s) 1 m)
      in if g_vmalloc_addr s \<noteq> 0 then snd (set_memory_ro K (g_vmalloc_addr s) 1 m1) else m1)"

definition safety_mem_safe_write ::
  "'m kernel_mm \<Rightarrow> mutex_api \<Rightarrow> u64 \<Rightarrow> u32 \<Rightarrow> 'm kstate \<Rightarrow> kstop + int \<times> 'm kstate" where
  "safety_mem_safe_write K M cur val s =
     (case mutex_lock M cur (safety_mutex_owner (sm s)) of
        None \<Rightarrow> Inl WouldBlock
      | Some ow \<Rightarrow>
          let was_ro = safety_mem_is_protected (sm s);
              m1 = (if was_ro then make_aliases_rw K (sm s) (mach s) else mach s)
          in (case (if g_virt_addr (sm s) \<noteq> 0 then store32 K (g_virt_addr (sm s)) val m1
                    else Some m1) of
                None \<Rightarrow> Inl KernelOops
              | Some m2 \<Rightarrow>
                  let m3 = (if was_ro then make_aliases_ro K (sm s) m2 else m2)
                  in Inr (0, set_owner (mutex_unlock M cur ow) (s\<lparr>mach := m3\<rparr>))))"

section \<open>The procfs interface\<close>

text \<open>A 32-bit diagnostic read: the initial 0 stays when the copy fails or the pointer is null.\<close>

definition nofault_value :: "'m kernel_mm \<Rightarrow> u64 \<Rightarrow> 'm \<Rightarrow> u32" where
  "nofault_value K a m =
     (if a \<noteq> 0
      then (case snd (copy_from_kernel_nofault K a m) of Some v \<Rightarrow> v | None \<Rightarrow> 0)
      else 0)"

definition mutex_owner_text :: "mutex_api \<Rightarrow> kernel_lib \<Rightarrow> u64 \<Rightarrow> string" where
  "mutex_owner_text M L owner =
     (if mutex_is_locked M owner
      then (if owner_task owner \<noteq> 0 then comm_of L (owner_task owner)
            else strscpy L 16 ''unknown'')
      else ''none'')"

definition bool_text :: "bool \<Rightarrow> string" where
  "bool_text b = dec_int (if b then 1 else 0)"

text \<open>The lines \<open>safety_mem_proc_show\<close> prints, in order, without their newlines.\<close>

definition safety_mem_status_lines ::
  "'m kernel_mm \<Rightarrow> mutex_api \<Rightarrow> kernel_lib \<Rightarrow> 'm kstate \<Rightarrow> string list" where
  "safety_mem_status_lines K M L s =
     (let st = sm s; m = mach s;
          cur = safety_mem_walk_pgtable K m (g_virt_addr st);
          vmm = safety_mem_walk_pgtable K m (g_vmalloc_addr st);
          ini = g_initial_mapping st
      in [''virt_addr: 0x'' @ fmt_px L (g_virt_addr st),
          ''phys_addr: '' @ fmt_pa L (g_phys_addr st),
          ''mapping_level_before: '' @ safety_mem_mapping_level ini,
          ''mapping_entry_before: 0x'' @ pad0 16 (hex_upper (unat (safety_mem_mapping_entry ini))),
          ''mapping_writable_before: '' @ bool_text (is_writable ini),
          ''mapping_level_current: '' @ safety_mem_mapping_level cur,
          ''mapping_entry_current: 0x'' @ pad0 16 (hex_upper (unat (safety_mem_mapping_entry cur))),
          ''mapping_writable_current: '' @ bool_text (is_writable cur),
          ''mapping_valid_current: '' @ bool_text (is_valid cur),
          ''mapping_level_vmalloc: '' @ safety_mem_mapping_level vmm,
          ''mapping_entry_vmalloc: 0x'' @ pad0 16 (hex_upper (unat (safety_mem_mapping_entry vmm))),
          ''mapping_writable_vmalloc: '' @ bool_text (is_writable vmm),
          ''value_via_vmalloc: '' @ fmt_0x08X (nofault_value K (g_vmalloc_addr st) m),
          ''value_via_phys: '' @ fmt_0x08X (nofault_value K (g_virt_addr st) m),
          ''ctx_protected: '' @ dec_int (g_ctx_protected st),
          ''smmu_active: '' @ dec_int (g_smmu_active st),
          ''mutex_owner: '' @ mutex_owner_text M L (safety_mutex_owner st),
          ''status: '' @ (if g_ctx_protected st \<noteq> 0 then ''PROTECTED_RO'' else ''UNPROTECTED_RW'')])"

definition safety_mem_proc_show ::
  "'m kernel_mm \<Rightarrow> mutex_api \<Rightarrow> kernel_lib \<Rightarrow> 'm kstate \<Rightarrow> int \<times> string" where
  "safety_mem_proc_show K M L s =
     (0, concat (map (\<lambda>l. l @ [newline]) (safety_mem_status_lines K M L s)))"

text \<open>
  A write of the bytes \<open>buf\<close> (their number is the count argument); \<open>copied\<close> says whether
  \<open>copy_from_user\<close> could read them. The kernel buffer is a C string, so it ends at the first NUL.
\<close>

definition safety_mem_proc_write ::
  "'m kernel_mm \<Rightarrow> mutex_api \<Rightarrow> kernel_lib \<Rightarrow> u64 \<Rightarrow> bool \<Rightarrow> string \<Rightarrow> 'm kstate
     \<Rightarrow> kstop + int \<times> 'm kstate" where
  "safety_mem_proc_write K M L cur copied buf s =
     (if DEMO_COMMAND_BUFFER_SIZE \<le> length buf then Inr (- EINVAL, s)
      else if \<not> copied then Inr (- EFAULT, s)
      else
        let cmd = strim L (takeWhile (\<lambda>c. c \<noteq> CHR 0x00) buf) in
        if cmd = DEMO_ENABLE_COMMAND \<or> cmd = DEMO_PROTECT_COMMAND
        then (case safety_mem_set_protection K M cur True s of
                Inl e \<Rightarrow> Inl e | Inr (_, s') \<Rightarrow> Inr (int (length buf), s'))
        else if cmd = DEMO_DISABLE_COMMAND \<or> cmd = DEMO_UNPROTECT_COMMAND
        then (case safety_mem_set_protection K M cur False s of
                Inl e \<Rightarrow> Inl e | Inr (_, s') \<Rightarrow> Inr (int (length buf), s'))
        else Inr (int (length buf), s))"

section \<open>Module entry and exit\<close>

text \<open>The page allocator and the virtual mapping service; a result of 0 is a null pointer.\<close>

record 'm page_ops =
  alloc_pages :: "'m \<Rightarrow> u64 \<times> 'm"
  free_pages :: "u64 \<Rightarrow> 'm \<Rightarrow> 'm"
  page_address :: "u64 \<Rightarrow> u64"
  page_to_phys :: "u64 \<Rightarrow> u64"
  vmap :: "u64 \<Rightarrow> 'm \<Rightarrow> u64 \<times> 'm"
  vunmap :: "u64 \<Rightarrow> 'm \<Rightarrow> 'm"

definition safety_mem_init ::
  "'m kernel_mm \<Rightarrow> 'm page_ops \<Rightarrow> bool \<Rightarrow> 'm kstate \<Rightarrow> kstop + int \<times> kcall list \<times> 'm kstate" where
  "safety_mem_init K P proc_ok s =
     (let (page, m1) = alloc_pages P (mach s) in
      if page = 0
      then Inr (- ENOMEM, [], s\<lparr>mach := m1, sm := (sm s)\<lparr>g_safety_page := 0\<rparr>\<rparr>)
      else
        let virt = page_address P page;
            (vm, m2) = vmap P page m1;
            calls = Acquire PageFrame # (if vm \<noteq> 0 then [Acquire VmapAlias] else [])
        in (case store32 K virt SAFETY_SENTINEL m2 of
              None \<Rightarrow> Inl KernelOops
            | Some m3 \<Rightarrow>
                let sm' = (sm s)\<lparr>g_safety_page := page, g_virt_addr := virt,
                            g_phys_addr := page_to_phys P page, g_vmalloc_addr := vm,
                            safety_buf_ptr := virt,
                            g_initial_mapping := safety_mem_walk_pgtable K m3 virt\<rparr>;
                    cm' = ctx_monitor_set_protected_range virt (virt + PAGE_SIZE K) (cm s)
                in if \<not> proc_ok
                   then Inr (- ENOMEM,
                          calls @ (if vm \<noteq> 0 then [Release VmapAlias] else []) @ [Release PageFrame],
                          \<lparr>mach = free_pages P page (if vm \<noteq> 0 then vunmap P vm m3 else m3),
                           sm = sm', cm = cm'\<rparr>)
                   else Inr (0, calls @ [Acquire (ProcEntry ''safety_mem_status'')],
                          \<lparr>mach = m3, sm = sm', cm = cm'\<rparr>)))"

definition safety_mem_exit ::
  "'m kernel_mm \<Rightarrow> 'm page_ops \<Rightarrow> 'm kstate \<Rightarrow> kcall list \<times> 'm kstate" where
  "safety_mem_exit K P s =
     (let st = sm s;
          m1 = (if safety_mem_is_protected st then make_aliases_rw K st (mach s) else mach s);
          m2 = (if g_vmalloc_addr st \<noteq> 0 then vunmap P (g_vmalloc_addr st) m1 else m1);
          m3 = (if g_safety_page st \<noteq> 0 then free_pages P (g_safety_page st) m2 else m2)
      in (Release (ProcEntry ''safety_mem_status'')
            # (if g_vmalloc_addr st \<noteq> 0 then [Release VmapAlias] else [])
            @ (if g_safety_page st \<noteq> 0 then [Release PageFrame] else []),
          s\<lparr>mach := m3, sm := st\<lparr>safety_buf_ptr := 0\<rparr>\<rparr>))"


section \<open>Well-formed states\<close>

text \<open>Both aliases exist and map the same physical location.\<close>

definition aliases_ok :: "'m kernel_mm \<Rightarrow> 'm kstate \<Rightarrow> bool" where
  "aliases_ok K s \<longleftrightarrow>
     g_virt_addr (sm s) \<noteq> 0 \<and> g_vmalloc_addr (sm s) \<noteq> 0
     \<and> same_frame K (mach s) (g_virt_addr (sm s)) (g_vmalloc_addr (sm s))"

text \<open>The protection flag is honest: when it is set, the vmalloc alias is mapped read-only.\<close>

definition flag_honest :: "'m kernel_mm \<Rightarrow> 'm kstate \<Rightarrow> bool" where
  "flag_honest K s \<longleftrightarrow>
     (safety_mem_is_protected (sm s) \<longrightarrow> mapped_ro K (mach s) (g_vmalloc_addr (sm s)))"

definition mutex_free :: "mutex_api \<Rightarrow> 'm kstate \<Rightarrow> bool" where
  "mutex_free M s \<longleftrightarrow> \<not> mutex_is_locked M (safety_mutex_owner (sm s))"

text \<open>What a permission change keeps: the addresses, and at every address validity and data.\<close>

definition same_data :: "'m kernel_mm \<Rightarrow> 'm \<Rightarrow> 'm \<Rightarrow> bool" where
  "same_data K m m' \<longleftrightarrow>
     (\<forall>b. load32 K b m' = load32 K b m
        \<and> is_valid (safety_mem_walk_pgtable K m' b) = is_valid (safety_mem_walk_pgtable K m b)
        \<and> phys_of K m' b = phys_of K m b)"

definition same_addrs :: "safety_mem_state \<Rightarrow> safety_mem_state \<Rightarrow> bool" where
  "same_addrs t t' \<longleftrightarrow>
     g_virt_addr t' = g_virt_addr t \<and> g_vmalloc_addr t' = g_vmalloc_addr t
     \<and> g_phys_addr t' = g_phys_addr t \<and> safety_buf_ptr t' = safety_buf_ptr t"

lemma same_data_refl [simp]: "same_data K m m"
  by (simp add: same_data_def)

lemma same_data_trans: "same_data K m1 m2 \<Longrightarrow> same_data K m2 m3 \<Longrightarrow> same_data K m1 m3"
  by (simp add: same_data_def)

lemma same_data_set_memory [mm_rules]:
  assumes "kernel_mm_ok K"
  shows "same_data K m (snd (set_memory_ro K a 1 m))" "same_data K m (snd (set_memory_rw K a 1 m))"
  using assms by (simp_all add: same_data_def mm_rules)

lemma same_data_same_frame: "same_data K m m' \<Longrightarrow> same_frame K m' a b = same_frame K m a b"
  by (simp add: same_data_def same_frame_def)

lemma same_addrs_refl [simp]: "same_addrs t t"
  by (simp add: same_addrs_def)

lemma same_data_aliases [mm_rules]:
  assumes "kernel_mm_ok K"
  shows "same_data K m (make_aliases_rw K t m)" "same_data K m (make_aliases_ro K t m)"
  using assms by (simp_all add: make_aliases_rw_def make_aliases_ro_def same_data_def
      mm_rules Let_def)

lemma set_owner_sel [simp]:
  "mach (set_owner ow s) = mach s" "cm (set_owner ow s) = cm s"
  "safety_mutex_owner (sm (set_owner ow s)) = ow"
  "g_virt_addr (sm (set_owner ow s)) = g_virt_addr (sm s)"
  "g_vmalloc_addr (sm (set_owner ow s)) = g_vmalloc_addr (sm s)"
  "g_phys_addr (sm (set_owner ow s)) = g_phys_addr (sm s)"
  "safety_buf_ptr (sm (set_owner ow s)) = safety_buf_ptr (sm s)"
  "g_ctx_protected (sm (set_owner ow s)) = g_ctx_protected (sm s)"
  "safety_mem_is_protected (sm (set_owner ow s)) = safety_mem_is_protected (sm s)"
  by (simp_all add: set_owner_def safety_mem_is_protected_def)

lemma aliases_ok_frame:
  assumes "same_addrs (sm s) (sm s')" "same_data K (mach s) (mach s')"
  shows "aliases_ok K s' = aliases_ok K s"
  using assms same_data_same_frame [OF assms(2)] by (simp add: aliases_ok_def same_addrs_def)

section \<open>The toggle\<close>

lemma enable_protection_effect:
  assumes "kernel_mm_ok K" "enable_protection K s = (rv, rm, s')"
  shows "same_data K (mach s) (mach s')" "same_addrs (sm s) (sm s')"
    "safety_mutex_owner (sm s') = safety_mutex_owner (sm s)"
    "safety_mem_is_protected (sm s') \<longleftrightarrow> rm = 0 \<and> mapped_ro K (mach s') (g_vmalloc_addr (sm s'))"
    "g_vmalloc_addr (sm s) \<noteq> 0 \<Longrightarrow> rm = 0 \<Longrightarrow> mapped_ro K (mach s') (g_vmalloc_addr (sm s'))"
proof -
  let ?virt = "g_virt_addr (sm s)" and ?vm = "g_vmalloc_addr (sm s)"
  obtain m1 where m1: "set_memory_ro K ?virt 1 (mach s) = (rv, m1)"
    and m2: "(rm, mach s') = (if ?vm \<noteq> 0 then set_memory_ro K ?vm 1 m1 else (0, m1))"
    and sm': "sm s' = (sm s)\<lparr>g_ctx_protected :=
        (if rm = 0 \<and> mapped_ro K (mach s') ?vm then 1 else 0)\<rparr>"
    using assms(2) by (auto simp: enable_protection_def Let_def split: prod.splits if_splits)
  have "same_data K (mach s) m1" using same_data_set_memory(1) [OF assms(1), of "mach s" ?virt] m1
    by simp
  moreover have "same_data K m1 (mach s')"
    using same_data_set_memory(1) [OF assms(1), of m1 ?vm] m2 by (metis same_data_refl snd_conv)
  ultimately show "same_data K (mach s) (mach s')" by (rule same_data_trans)
  show "same_addrs (sm s) (sm s')" "safety_mutex_owner (sm s') = safety_mutex_owner (sm s)"
    using sm' by (simp_all add: same_addrs_def)
  show "safety_mem_is_protected (sm s') \<longleftrightarrow> rm = 0 \<and> mapped_ro K (mach s') (g_vmalloc_addr (sm s'))"
    using sm' by (simp add: safety_mem_is_protected_def)
  show "mapped_ro K (mach s') (g_vmalloc_addr (sm s'))" if "?vm \<noteq> 0" "rm = 0"
    using set_memory_ro_success [OF assms(1), of ?vm m1 "mach s'"] m2 that sm' by simp
qed

lemma disable_protection_effect:
  assumes "kernel_mm_ok K" "disable_protection K s = (rv, rm, s')"
  shows "same_data K (mach s) (mach s')" "same_addrs (sm s) (sm s')"
    "safety_mutex_owner (sm s') = safety_mutex_owner (sm s)"
    "\<not> safety_mem_is_protected (sm s')"
    "g_vmalloc_addr (sm s) \<noteq> 0 \<Longrightarrow> rm = 0 \<Longrightarrow> mapped_rw K (mach s') (g_vmalloc_addr (sm s'))"
proof -
  let ?virt = "g_virt_addr (sm s)" and ?vm = "g_vmalloc_addr (sm s)"
  obtain m1 where m1: "set_memory_rw K ?virt 1 (mach s) = (rv, m1)"
    and m2: "(rm, mach s') = (if ?vm \<noteq> 0 then set_memory_rw K ?vm 1 m1 else (0, m1))"
    and sm': "sm s' = (sm s)\<lparr>g_ctx_protected := 0\<rparr>"
    using assms(2) by (auto simp: disable_protection_def Let_def split: prod.splits if_splits)
  have "same_data K (mach s) m1" using same_data_set_memory(2) [OF assms(1), of "mach s" ?virt] m1
    by simp
  moreover have "same_data K m1 (mach s')"
    using same_data_set_memory(2) [OF assms(1), of m1 ?vm] m2 by (metis same_data_refl snd_conv)
  ultimately show "same_data K (mach s) (mach s')" by (rule same_data_trans)
  show "same_addrs (sm s) (sm s')" "safety_mutex_owner (sm s') = safety_mutex_owner (sm s)"
    using sm' by (simp_all add: same_addrs_def)
  show "\<not> safety_mem_is_protected (sm s')"
    using sm' by (simp add: safety_mem_is_protected_def)
  show "mapped_rw K (mach s') (g_vmalloc_addr (sm s'))" if "?vm \<noteq> 0" "rm = 0"
    using set_memory_rw_success [OF assms(1), of ?vm m1 "mach s'"] m2 that sm' by simp
qed

text \<open>A returned call of the toggle, seen from outside.\<close>

lemma set_protection_Inr:
  assumes "kernel_mm_ok K" "mutex_ok M" "is_task cur"
    and ret: "safety_mem_set_protection K M cur en s = Inr (ret, s')"
  shows "mutex_free M s" "mutex_free M s'" "same_data K (mach s) (mach s')"
    "same_addrs (sm s) (sm s')" "flag_honest K s'"
    "\<not> en \<Longrightarrow> \<not> safety_mem_is_protected (sm s')"
    "g_vmalloc_addr (sm s) \<noteq> 0 \<Longrightarrow> ret = 0 \<Longrightarrow> safety_mem_is_protected (sm s') = en"
    "g_vmalloc_addr (sm s) \<noteq> 0 \<Longrightarrow> ret = 0 \<Longrightarrow>
       is_writable (safety_mem_walk_pgtable K (mach s') (g_vmalloc_addr (sm s'))) = (\<not> en)"
proof -
  from ret obtain ow rv rm t where ow: "mutex_lock M cur (safety_mutex_owner (sm s)) = Some ow"
    and t: "(if en then enable_protection K (set_owner ow s)
             else disable_protection K (set_owner ow s)) = (rv, rm, t)"
    and r: "ret = (if rm \<noteq> 0 then rm else rv)" and s': "s' = set_owner (mutex_unlock M cur ow) t"
    by (auto simp: safety_mem_set_protection_def split: option.splits prod.splits)
  show "mutex_free M s" "mutex_free M s'"
    using mutex_lock_Some(1) [OF assms(2,3) ow] s' assms(2) by (simp_all add: mutex_free_def)
  note en = enable_protection_effect [OF assms(1), of "set_owner ow s" rv rm t]
    and dis = disable_protection_effect [OF assms(1), of "set_owner ow s" rv rm t]
  show "same_data K (mach s) (mach s')" "same_addrs (sm s) (sm s')"
    using en(1,2) dis(1,2) t s' by (auto simp: same_addrs_def split: if_splits)
  show "flag_honest K s'" using en(4) dis(4) t s' by (auto simp: flag_honest_def split: if_splits)
  show "\<not> en \<Longrightarrow> \<not> safety_mem_is_protected (sm s')" using dis(4) t s' by simp
  assume vm: "g_vmalloc_addr (sm s) \<noteq> 0" "ret = 0"
  then have "rm = 0" using r by (simp split: if_splits)
  with vm show "safety_mem_is_protected (sm s') = en"
    using en(4,5) dis(4) t s' by (auto split: if_splits)
  from \<open>rm = 0\<close> vm show "is_writable (safety_mem_walk_pgtable K (mach s') (g_vmalloc_addr (sm s'))) = (\<not> en)"
    using en(5) dis(5) t s' by (auto split: if_splits)
qed

lemma set_protection_returns:
  assumes "mutex_ok M" "is_task cur"
  shows "(\<exists>r. safety_mem_set_protection K M cur en s = Inr r) \<longleftrightarrow> mutex_free M s"
    and "safety_mem_set_protection K M cur en s = Inl e \<longleftrightarrow> \<not> mutex_free M s \<and> e = WouldBlock"
  using assms
  by (cases "mutex_lock M cur (safety_mutex_owner (sm s))";
      fastforce simp: safety_mem_set_protection_def mutex_free_def Let_def
        dest: mutex_lock_Some(1) split: prod.splits)+


section \<open>A concrete state\<close>

text \<open>
  The safety page of the reference kernel: direct alias 0x1000, vmalloc alias 0x2000, physical
  address 0x1000; \<open>acc\<close> says which alias \<open>set_memory_ro\<close>/\<open>rw\<close> accept.
\<close>

definition ref_machine_of :: "(u64 \<Rightarrow> bool) \<Rightarrow> bool \<Rightarrow> bool \<Rightarrow> u32 \<Rightarrow> ref_machine" where
  "ref_machine_of acc direct_rw vmalloc_rw v =
     \<lparr>rm_map = (\<lambda>a. if a = 0x1000 then Some (0x1000, direct_rw)
                   else if a = 0x2000 then Some (0x1000, vmalloc_rw) else None),
      rm_mem = (\<lambda>_. v), rm_accepts = acc\<rparr>"

definition ref_state :: "(u64 \<Rightarrow> bool) \<Rightarrow> bool \<Rightarrow> bool \<Rightarrow> int \<Rightarrow> ref_machine kstate" where
  "ref_state acc direct_rw vmalloc_rw flag =
     \<lparr>mach = ref_machine_of acc direct_rw vmalloc_rw SAFETY_SENTINEL,
      sm = safety_mem_initial\<lparr>g_safety_page := 1, g_virt_addr := 0x1000, g_vmalloc_addr := 0x2000,
             g_phys_addr := 0x1000, safety_buf_ptr := 0x1000, g_ctx_protected := flag\<rparr>,
      cm = ctx_monitor_initial\<rparr>"

lemma ref_state_sel [simp]:
  "mach (ref_state acc d v f) = ref_machine_of acc d v SAFETY_SENTINEL"
  "g_virt_addr (sm (ref_state acc d v f)) = 0x1000"
  "g_vmalloc_addr (sm (ref_state acc d v f)) = 0x2000"
  "g_phys_addr (sm (ref_state acc d v f)) = 0x1000"
  "safety_buf_ptr (sm (ref_state acc d v f)) = 0x1000"
  "g_ctx_protected (sm (ref_state acc d v f)) = f"
  "safety_mutex_owner (sm (ref_state acc d v f)) = 0"
  "cm (ref_state acc d v f) = ctx_monitor_initial"
  "mutex_free ref_mutex (ref_state acc d v f)"
  by (simp_all add: ref_state_def safety_mem_initial_def mutex_free_def)

lemma ref_machine_sel [simp]:
  "rm_map (ref_machine_of acc d v x) 0x1000 = Some (0x1000, d)"
  "rm_map (ref_machine_of acc d v x) 0x2000 = Some (0x1000, v)"
  "rm_mem (ref_machine_of acc d v x) a = x" "rm_accepts (ref_machine_of acc d v x) = acc"
  by (simp_all add: ref_machine_of_def)

lemma ref_state_ok [simp]:
  "aliases_ok ref_kernel (ref_state acc d v f)"
  "flag_honest ref_kernel (ref_state acc d v f) \<longleftrightarrow> f = 0 \<or> \<not> v"
  by (auto simp: aliases_ok_def flag_honest_def same_frame_def ref_phys_def
      safety_mem_is_protected_def)

lemma is_task_8 [simp]: "is_task 8"
  by (simp add: is_task_def DEMO_MUTEX_OWNER_FLAGS_MASK_def)

section \<open>Properties of the toggle\<close>

text \<open>
  C1: called with the mutex free, the toggle returns; it leaves the mutex free again, changes no
  address and no data, and leaves the protection flag honest (set only over a verified read-only
  vmalloc mapping). A return value of 0 means the vmalloc alias has exactly the requested
  permission and the flag says so; disabling always clears the flag.
\<close>

theorem set_protection_contract:
  assumes "kernel_mm_ok K" "mutex_ok M" "is_task cur" "mutex_free M s"
  shows "\<exists>ret s'. safety_mem_set_protection K M cur en s = Inr (ret, s')
    \<and> mutex_free M s' \<and> same_addrs (sm s) (sm s') \<and> same_data K (mach s) (mach s')
    \<and> flag_honest K s' \<and> (\<not> en \<longrightarrow> \<not> safety_mem_is_protected (sm s'))
    \<and> (ret = 0 \<and> g_vmalloc_addr (sm s) \<noteq> 0 \<longrightarrow>
         safety_mem_is_protected (sm s') = en
         \<and> is_writable (safety_mem_walk_pgtable K (mach s') (g_vmalloc_addr (sm s'))) = (\<not> en))"
proof -
  obtain ret s' where r: "safety_mem_set_protection K M cur en s = Inr (ret, s')"
    using set_protection_returns(1) [OF assms(2,3)] assms(4) by fastforce
  from set_protection_Inr [OF assms(1-3) r] r show ?thesis by blast
qed

theorem set_protection_contract_witness:
  "\<exists>ret s'. safety_mem_set_protection ref_kernel ref_mutex 8 True
       (ref_state (\<lambda>a. a = 0x2000) True True 0) = Inr (ret, s')
     \<and> mutex_free ref_mutex s' \<and> flag_honest ref_kernel s'"
  using set_protection_contract [where en = True and s = "ref_state (\<lambda>a. a = 0x2000) True True 0",
      OF ref_kernel_ok ref_mutex_ok is_task_8 ref_state_sel(9)]
  by blast

text \<open>
  A refused direct alias does not weaken the flag. When the kernel refuses to change the
  direct-map alias but accepts the vmalloc alias, enabling protection reports the refusal to its
  caller and still sets the flag, with the vmalloc alias read-only and the direct alias as
  writable as before.
\<close>

theorem enable_with_refused_direct_alias:
  assumes "kernel_mm_ok K" "mutex_ok M" "is_task cur" "mutex_free M s"
    and "g_vmalloc_addr (sm s) \<noteq> 0"
    and direct: "set_memory_ro K (g_virt_addr (sm s)) 1 (mach s) = (e, mach s)" "e \<noteq> 0"
    and vmalloc: "fst (set_memory_ro K (g_vmalloc_addr (sm s)) 1 (mach s)) = 0"
  shows "\<exists>s'. safety_mem_set_protection K M cur True s = Inr (e, s')
    \<and> safety_mem_is_protected (sm s') \<and> mapped_ro K (mach s') (g_vmalloc_addr (sm s'))
    \<and> mach s' = snd (set_memory_ro K (g_vmalloc_addr (sm s)) 1 (mach s))"
proof -
  obtain ret s' where r: "safety_mem_set_protection K M cur True s = Inr (ret, s')"
    using set_protection_returns(1) [OF assms(2,3)] assms(4) by fastforce
  have ok: "mapped_ro K (snd (set_memory_ro K (g_vmalloc_addr (sm s)) 1 (mach s))) (g_vmalloc_addr (sm s))"
    using set_memory_success_perm(1) [OF assms(1) vmalloc] .
  have "ret = e \<and> safety_mem_is_protected (sm s') \<and> g_vmalloc_addr (sm s') = g_vmalloc_addr (sm s)
      \<and> mach s' = snd (set_memory_ro K (g_vmalloc_addr (sm s)) 1 (mach s))"
    using r assms(5) direct vmalloc ok
    by (auto simp: safety_mem_set_protection_def enable_protection_def Let_def
        safety_mem_is_protected_def split: option.splits prod.splits if_splits)
  with r ok show ?thesis by auto
qed

theorem enable_with_refused_direct_alias_witness:
  "\<exists>s'. safety_mem_set_protection ref_kernel ref_mutex 8 True
       (ref_state (\<lambda>a. a = 0x2000) True True 0) = Inr (- EINVAL, s')
     \<and> safety_mem_is_protected (sm s')"
  using enable_with_refused_direct_alias [where e = "- EINVAL"
        and s = "ref_state (\<lambda>a. a = 0x2000) True True 0",
      OF ref_kernel_ok ref_mutex_ok is_task_8 ref_state_sel(9)]
  by (auto simp: ref_set_memory_def errno_defs)


section \<open>Properties of the authorized write\<close>

text \<open>The machine the plain store of the authorized write runs on.\<close>

definition safe_write_machine :: "'m kernel_mm \<Rightarrow> 'm kstate \<Rightarrow> 'm" where
  "safe_write_machine K s =
     (if safety_mem_is_protected (sm s) then make_aliases_rw K (sm s) (mach s) else mach s)"

lemma safe_write_machine_data [mm_rules]:
  "kernel_mm_ok K \<Longrightarrow> same_data K (mach s) (safe_write_machine K s)"
  by (simp add: safe_write_machine_def mm_rules)

lemma safe_write_cases:
  assumes "kernel_mm_ok K" "mutex_ok M" "is_task cur" "g_virt_addr (sm s) \<noteq> 0"
  shows "safety_mem_safe_write K M cur val s = Inl WouldBlock \<longleftrightarrow> \<not> mutex_free M s"
    and "safety_mem_safe_write K M cur val s = Inl KernelOops \<longleftrightarrow>
           mutex_free M s \<and> \<not> mapped_rw K (safe_write_machine K s) (g_virt_addr (sm s))"
    and "(\<exists>s'. safety_mem_safe_write K M cur val s = Inr (0, s')) \<longleftrightarrow>
           mutex_free M s \<and> mapped_rw K (safe_write_machine K s) (g_virt_addr (sm s))"
proof -
  let ?st = "store32 K (g_virt_addr (sm s)) val (safe_write_machine K s)"
  have free: "mutex_lock M cur (safety_mutex_owner (sm s)) = None \<longleftrightarrow> \<not> mutex_free M s"
    using assms(2,3) by (simp add: mutex_free_def)
  have store: "?st = None \<longleftrightarrow> \<not> mapped_rw K (safe_write_machine K s) (g_virt_addr (sm s))"
    using assms(1) by (rule store32_None_iff)
  have eq: "safety_mem_safe_write K M cur val s =
      (if \<not> mutex_free M s then Inl WouldBlock else case ?st of None \<Rightarrow> Inl KernelOops
       | Some m2 \<Rightarrow> Inr (0, set_owner
           (mutex_unlock M cur (the (mutex_lock M cur (safety_mutex_owner (sm s)))))
           (s\<lparr>mach := if safety_mem_is_protected (sm s) then make_aliases_ro K (sm s) m2 else m2\<rparr>)))"
    using free assms(4)
    by (auto simp: safety_mem_safe_write_def safe_write_machine_def Let_def split: option.splits)
  show "safety_mem_safe_write K M cur val s = Inl WouldBlock \<longleftrightarrow> \<not> mutex_free M s"
    unfolding eq by (simp split: option.splits)
  show "safety_mem_safe_write K M cur val s = Inl KernelOops \<longleftrightarrow>
      mutex_free M s \<and> \<not> mapped_rw K (safe_write_machine K s) (g_virt_addr (sm s))"
    unfolding eq store [symmetric] by (simp split: option.splits)
  show "(\<exists>s'. safety_mem_safe_write K M cur val s = Inr (0, s')) \<longleftrightarrow>
      mutex_free M s \<and> mapped_rw K (safe_write_machine K s) (g_virt_addr (sm s))"
    using store unfolding eq by (auto split: option.splits)
qed



text \<open>The state a returned authorized write leaves.\<close>

lemma safe_write_Inr:
  assumes "kernel_mm_ok K" "mutex_ok M" "is_task cur" "g_virt_addr (sm s) \<noteq> 0"
    and "safety_mem_safe_write K M cur val s = Inr (ret, s')"
  obtains m2 where "ret = 0" "mutex_free M s" "mutex_free M s'"
    "store32 K (g_virt_addr (sm s)) val (safe_write_machine K s) = Some m2"
    "mach s' = (if safety_mem_is_protected (sm s) then make_aliases_ro K (sm s) m2 else m2)"
    "same_addrs (sm s) (sm s')" "g_ctx_protected (sm s') = g_ctx_protected (sm s)" "cm s' = cm s"
  using assms mutex_lock_Some(1) [OF assms(2,3)]
  by (fastforce simp: safety_mem_safe_write_def safe_write_machine_def mutex_free_def
      same_addrs_def Let_def split: option.splits)

lemma safe_write_data:
  assumes "kernel_mm_ok K" "mutex_ok M" "is_task cur" "aliases_ok K s"
    and "safety_mem_safe_write K M cur val s = Inr (ret, s')"
  shows "load32 K (g_virt_addr (sm s')) (mach s') = Some val"
    and "load32 K (g_vmalloc_addr (sm s')) (mach s') = Some val"
    and "aliases_ok K s'"
proof -
  let ?w = "safe_write_machine K s"
  have nz: "g_virt_addr (sm s) \<noteq> 0" using assms(4) by (simp add: aliases_ok_def)
  obtain m2 where st: "store32 K (g_virt_addr (sm s)) val ?w = Some m2"
    and m: "mach s' = (if safety_mem_is_protected (sm s) then make_aliases_ro K (sm s) m2 else m2)"
    and ad: "same_addrs (sm s) (sm s')"
    using safe_write_Inr [OF assms(1-3) nz assms(5)] by blast
  have fr: "same_frame K ?w (g_virt_addr (sm s)) (g_vmalloc_addr (sm s))"
    using assms(4) same_data_same_frame [OF safe_write_machine_data [OF assms(1), of s]]
    by (simp add: aliases_ok_def)
  then have fr0: "same_frame K ?w (g_virt_addr (sm s)) (g_virt_addr (sm s))"
    by (rule same_frame_left)
  have d: "same_data K m2 (mach s')" using m by (simp add: mm_rules assms(1))
  show "load32 K (g_virt_addr (sm s')) (mach s') = Some val"
    "load32 K (g_vmalloc_addr (sm s')) (mach s') = Some val"
    using store32_load [OF assms(1) st fr0] store32_load [OF assms(1) st fr] d ad
    by (simp_all add: same_data_def same_addrs_def)
  have "same_frame K m2 (g_virt_addr (sm s)) (g_vmalloc_addr (sm s))"
    using fr by (simp add: same_frame_store [OF assms(1) st])
  then show "aliases_ok K s'"
    using assms(4) ad same_data_same_frame [OF d] by (simp add: aliases_ok_def same_addrs_def)
qed

lemma safe_write_honest:
  assumes "kernel_mm_ok K" "mutex_ok M" "is_task cur" "aliases_ok K s"
    and "safety_mem_safe_write K M cur val s = Inr (ret, s')"
    and "\<And>m. safety_mem_is_protected (sm s) \<Longrightarrow>
      store32 K (g_virt_addr (sm s)) val (safe_write_machine K s) = Some m \<Longrightarrow>
      fst (set_memory_ro K (g_vmalloc_addr (sm s)) 1 (snd (set_memory_ro K (g_virt_addr (sm s)) 1 m))) = 0"
  shows "flag_honest K s'"
proof -
  have nz: "g_virt_addr (sm s) \<noteq> 0" "g_vmalloc_addr (sm s) \<noteq> 0"
    using assms(4) by (simp_all add: aliases_ok_def)
  obtain m2 where st: "store32 K (g_virt_addr (sm s)) val (safe_write_machine K s) = Some m2"
    and m: "mach s' = (if safety_mem_is_protected (sm s) then make_aliases_ro K (sm s) m2 else m2)"
    and ad: "same_addrs (sm s) (sm s')" and fl: "g_ctx_protected (sm s') = g_ctx_protected (sm s)"
    using safe_write_Inr [OF assms(1-3) nz(1) assms(5)] by metis
  show ?thesis
  proof (cases "safety_mem_is_protected (sm s)")
    case True
    from set_memory_success_perm(1) [OF assms(1) assms(6) [OF True st]] m nz ad True
    show ?thesis by (simp add: flag_honest_def make_aliases_ro_def Let_def same_addrs_def)
  qed (use fl in \<open>simp add: flag_honest_def safety_mem_is_protected_def\<close>)
qed

text \<open>
  C10: a returned authorized write has stored its value: both aliases read it back, the mutex is
  free again, addresses and the protection flag are as before, and the flag is still honest
  provided the final call that closes the vmalloc alias succeeded.
\<close>

theorem safe_write_contract:
  assumes "kernel_mm_ok K" "mutex_ok M" "is_task cur" "aliases_ok K s" "flag_honest K s"
    and "safety_mem_safe_write K M cur val s = Inr (ret, s')"
    and "\<And>m. safety_mem_is_protected (sm s) \<Longrightarrow>
      store32 K (g_virt_addr (sm s)) val (safe_write_machine K s) = Some m \<Longrightarrow>
      fst (set_memory_ro K (g_vmalloc_addr (sm s)) 1 (snd (set_memory_ro K (g_virt_addr (sm s)) 1 m))) = 0"
  shows "ret = 0 \<and> load32 K (g_virt_addr (sm s')) (mach s') = Some val
    \<and> load32 K (g_vmalloc_addr (sm s')) (mach s') = Some val
    \<and> aliases_ok K s' \<and> mutex_free M s' \<and> same_addrs (sm s) (sm s')
    \<and> safety_mem_is_protected (sm s') = safety_mem_is_protected (sm s) \<and> flag_honest K s'"
proof -
  have nz: "g_virt_addr (sm s) \<noteq> 0" using assms(4) by (simp add: aliases_ok_def)
  have "ret = 0" "mutex_free M s'" "same_addrs (sm s) (sm s')" "g_ctx_protected (sm s') = g_ctx_protected (sm s)"
    using safe_write_Inr [OF assms(1-3) nz assms(6)] by metis+
  with safe_write_data [OF assms(1-4,6)] safe_write_honest [OF assms(1-4,6,7)] show ?thesis
    by (simp add: safety_mem_is_protected_def)
qed

theorem safe_write_contract_witness:
  "\<exists>s'. safety_mem_safe_write ref_kernel ref_mutex 8 7 (ref_state (\<lambda>a. a = 0x2000) True False 1)
       = Inr (0, s')
     \<and> ref_load 0x2000 (mach s') = Some 7 \<and> flag_honest ref_kernel s'"
proof -
  let ?s = "ref_state (\<lambda>a. a = 0x2000) True False 1"
  have rw: "safe_write_machine ref_kernel ?s
      = snd (ref_set_memory True 0x2000 1 (ref_machine_of (\<lambda>a. a = 0x2000) True False SAFETY_SENTINEL))"
    by (simp add: safe_write_machine_def make_aliases_rw_def ref_set_memory_def
        safety_mem_is_protected_def Let_def)
  then obtain s' where r: "safety_mem_safe_write ref_kernel ref_mutex 8 7 ?s = Inr (0, s')"
    using safe_write_cases(3) [where s = ?s and val = 7, OF ref_kernel_ok ref_mutex_ok is_task_8]
    by (auto simp: ref_set_memory_def)
  have re: "fst (set_memory_ro ref_kernel 0x2000 1 (snd (set_memory_ro ref_kernel 0x1000 1 m))) = 0"
    if "store32 ref_kernel 0x1000 7 (safe_write_machine ref_kernel ?s) = Some m" for m
    using that by (auto simp: rw ref_set_memory_def ref_store_def)
  have "0 = (0::int) \<and> load32 ref_kernel (g_virt_addr (sm s')) (mach s') = Some 7
      \<and> load32 ref_kernel (g_vmalloc_addr (sm s')) (mach s') = Some 7
      \<and> aliases_ok ref_kernel s' \<and> mutex_free ref_mutex s' \<and> same_addrs (sm ?s) (sm s')
      \<and> safety_mem_is_protected (sm s') = safety_mem_is_protected (sm ?s) \<and> flag_honest ref_kernel s'"
    by (rule safe_write_contract [OF ref_kernel_ok ref_mutex_ok is_task_8 _ _ r]) (use re in simp_all)
  with r show ?thesis by (auto simp: same_addrs_def)
qed

text \<open>
  The return values of the closing calls are ignored. If the authorized write runs under
  protection and the kernel refuses to close the vmalloc alias again, the call still returns 0
  and the flag still reports protection over a writable mapping.
\<close>

theorem safe_write_failed_reprotect:
  assumes "mutex_lock M cur (safety_mutex_owner (sm s)) = Some ow"
    and "safety_mem_is_protected (sm s)" "g_virt_addr (sm s) \<noteq> 0" "g_vmalloc_addr (sm s) \<noteq> 0"
    and "store32 K (g_virt_addr (sm s)) val (safe_write_machine K s) = Some m'"
    and "set_memory_ro K (g_vmalloc_addr (sm s)) 1 (snd (set_memory_ro K (g_virt_addr (sm s)) 1 m'))
           = (e, m'')"
    and "is_writable (safety_mem_walk_pgtable K m'' (g_vmalloc_addr (sm s)))"
  shows "\<exists>s'. safety_mem_safe_write K M cur val s = Inr (0, s')
    \<and> safety_mem_is_protected (sm s') \<and> \<not> flag_honest K s'"
  using assms
  by (simp add: safety_mem_safe_write_def safe_write_machine_def make_aliases_ro_def Let_def
      flag_honest_def)

theorem safe_write_failed_reprotect_witness:
  "\<exists>s'. safety_mem_safe_write (ref_kernel\<lparr>set_memory_ro := \<lambda>a n m. (- EINVAL, m)\<rparr>) ref_mutex 8 7
        (ref_state (\<lambda>a. True) True False 1) = Inr (0, s')
     \<and> safety_mem_is_protected (sm s')
     \<and> \<not> flag_honest (ref_kernel\<lparr>set_memory_ro := \<lambda>a n m. (- EINVAL, m)\<rparr>) s'"
proof -
  let ?K = "ref_kernel\<lparr>set_memory_ro := \<lambda>a n m. (- EINVAL, m)\<rparr>"
    and ?s = "ref_state (\<lambda>a. True) True False 1"
  have walk: "safety_mem_walk_pgtable ?K = safety_mem_walk_pgtable ref_kernel"
    by (intro ext) (simp add: safety_mem_walk_pgtable_def Let_def)
  have w: "safe_write_machine ?K ?s = ref_machine_of (\<lambda>a. True) True True SAFETY_SENTINEL"
    by (simp add: safe_write_machine_def make_aliases_rw_def ref_set_memory_def
        safety_mem_is_protected_def ref_machine_of_def fun_eq_iff Let_def)
  show ?thesis
    by (rule safe_write_failed_reprotect [where M = ref_mutex and cur = 8 and s = ?s and ow = 8
          and m' = "the (ref_store 0x1000 7 (ref_machine_of (\<lambda>a. True) True True SAFETY_SENTINEL))"
          and m'' = "the (ref_store 0x1000 7 (ref_machine_of (\<lambda>a. True) True True SAFETY_SENTINEL))"
          and e = "- EINVAL"])
      (simp_all add: w walk ref_store_def safety_mem_is_protected_def)
qed

end
