(* ===== verification/Safety_Proc.thy ===== *)
theory Safety_Proc
  imports Safety_Mem
begin

text \<open>
  The command side of \<open>/proc/safety_mem_status\<close> and the life of the safety_mem module: what a
  write to the procfs file does, what a successful load establishes, and that load and unload
  balance their resources.
\<close>

section \<open>Commands\<close>

text \<open>What a command word asks for: \<open>Some True\<close> to protect, \<open>Some False\<close> to unprotect.\<close>

definition requested_mode :: "string \<Rightarrow> bool option" where
  "requested_mode c =
     (if c \<in> {''1'', ''protect''} then Some True
      else if c \<in> {''0'', ''unprotect''} then Some False else None)"

lemma proc_write_word:
  assumes "strim L (takeWhile (\<lambda>x. x \<noteq> CHR 0x00) buf) = c"
    and "length buf < DEMO_COMMAND_BUFFER_SIZE"
  shows "safety_mem_proc_write K M L cur True buf s =
    (case requested_mode c of
       None \<Rightarrow> Inr (int (length buf), s)
     | Some en \<Rightarrow>
         (case safety_mem_set_protection K M cur en s of
            Inl e \<Rightarrow> Inl e | Inr (ret, s') \<Rightarrow> Inr (int (length buf), s')))"
  using assms by (simp add: safety_mem_proc_write_def requested_mode_def command_defs Let_def)



text \<open>A returning write leaves the state alone or is one returning call of the toggle.\<close>

lemma proc_write_cases:
  assumes "safety_mem_proc_write K M L cur copied buf s = Inr (ret, s')"
  obtains "s' = s" | en r where "safety_mem_set_protection K M cur en s = Inr (r, s')"
  using assms by (auto simp: safety_mem_proc_write_def Let_def split: if_splits sum.splits)

text \<open>
  Every write that returns either fails with \<open>-EINVAL\<close> (16 bytes or more) or \<open>-EFAULT\<close>
  (unreadable buffer) and changes nothing, or reports the full count; in every case the aliases,
  the data and an honest flag are kept, whichever task writes and whatever it writes.
\<close>

theorem proc_write_preserves:
  assumes "kernel_mm_ok K" "mutex_ok M" "is_task cur" "aliases_ok K s" "flag_honest K s"
    and "safety_mem_proc_write K M L cur copied buf s = Inr (ret, s')"
  shows "(ret = (if DEMO_COMMAND_BUFFER_SIZE \<le> length buf then - EINVAL
                 else if copied then int (length buf) else - EFAULT))
    \<and> (ret < 0 \<longrightarrow> s' = s)
    \<and> aliases_ok K s' \<and> flag_honest K s' \<and> same_data K (mach s) (mach s')"
proof -
  from assms(6) have "aliases_ok K s' \<and> flag_honest K s' \<and> same_data K (mach s) (mach s')"
  proof (cases rule: proc_write_cases)
    case 2
    from set_protection_Inr [OF assms(1-3) 2] assms(4) show ?thesis
      by (simp add: aliases_ok_frame)
  qed (use assms(4,5) in simp)
  then show ?thesis
    using assms(6)
    by (auto simp: safety_mem_proc_write_def Let_def errno_defs split: if_splits sum.splits)
qed

theorem proc_write_preserves_witness:
  "flag_honest ref_kernel
     (snd (projr (safety_mem_proc_write ref_kernel ref_mutex ref_lib 8 False ''1''
        (ref_state (\<lambda>a. True) True True 0))))"
proof -
  have "safety_mem_proc_write ref_kernel ref_mutex ref_lib 8 False ''1'' (ref_state (\<lambda>a. True) True True 0)
      = Inr (- EFAULT, ref_state (\<lambda>a. True) True True 0)"
    by (simp add: safety_mem_proc_write_def DEMO_COMMAND_BUFFER_SIZE_def)
  from proc_write_preserves [OF ref_kernel_ok ref_mutex_ok is_task_8 _ _ this] this
  show ?thesis by simp
qed

section \<open>Loading and unloading\<close>

text \<open>
  What loading relies on: an allocated frame has a writable direct-map address, and a virtual
  alias made for it maps the same location.
\<close>

definition page_ops_ok :: "'m kernel_mm \<Rightarrow> 'm page_ops \<Rightarrow> bool" where
  "page_ops_ok K P \<longleftrightarrow>
     (\<forall>m page m1 vm m2. alloc_pages P m = (page, m1) \<longrightarrow> page \<noteq> 0 \<longrightarrow> vmap P page m1 = (vm, m2) \<longrightarrow>
        page_address P page \<noteq> 0 \<and> mapped_rw K m2 (page_address P page)
        \<and> phys_of K m2 (page_address P page) \<noteq> None
        \<and> (vm \<noteq> 0 \<longrightarrow> same_frame K m2 (page_address P page) vm))"

text \<open>
  C35: loading never faults on its own page, fails only with \<open>-ENOMEM\<close>, and a successful load
  leaves the sentinel readable through the direct alias and through the vmalloc alias when there
  is one, the page announced to ctx_monitor, the baseline mapping recorded, and the protection
  flag as it was.
\<close>

theorem safety_mem_init_establishes:
  assumes "kernel_mm_ok K" "page_ops_ok K P"
  shows "\<exists>ret calls s'. safety_mem_init K P proc_ok s = Inr (ret, calls, s')
    \<and> ret \<in> {0, - ENOMEM}
    \<and> (ret = 0 \<longrightarrow>
         load32 K (g_virt_addr (sm s')) (mach s') = Some SAFETY_SENTINEL
         \<and> safety_buf_ptr (sm s') = g_virt_addr (sm s') \<and> g_virt_addr (sm s') \<noteq> 0
         \<and> (g_vmalloc_addr (sm s') \<noteq> 0 \<longrightarrow>
              aliases_ok K s' \<and> load32 K (g_vmalloc_addr (sm s')) (mach s') = Some SAFETY_SENTINEL)
         \<and> protected_range_start (cm s') = g_virt_addr (sm s')
         \<and> protected_range_end (cm s') = g_virt_addr (sm s') + PAGE_SIZE K
         \<and> g_initial_mapping (sm s') = safety_mem_walk_pgtable K (mach s') (g_virt_addr (sm s'))
         \<and> g_ctx_protected (sm s') = g_ctx_protected (sm s))"
proof -
  obtain page m1 where al: "alloc_pages P (mach s) = (page, m1)" by fastforce
  show ?thesis
  proof (cases "page = 0")
    case True
    then show ?thesis by (simp add: safety_mem_init_def al errno_defs)
  next
    case False
    obtain vm m2 where vm: "vmap P page m1 = (vm, m2)" by fastforce
    let ?virt = "page_address P page"
    have p: "?virt \<noteq> 0" "mapped_rw K m2 ?virt" "phys_of K m2 ?virt \<noteq> None"
      "vm \<noteq> 0 \<Longrightarrow> same_frame K m2 ?virt vm"
      using assms(2) al False vm unfolding page_ops_ok_def by blast+
    obtain m3 where st: "store32 K ?virt SAFETY_SENTINEL m2 = Some m3"
      using store32_Some_iff [OF assms(1)] p(2) by blast
    have fr: "same_frame K m2 ?virt ?virt" using p(2,3) by (simp add: same_frame_refl_iff)
    have ld: "load32 K ?virt m3 = Some SAFETY_SENTINEL"
      "vm \<noteq> 0 \<Longrightarrow> load32 K vm m3 = Some SAFETY_SENTINEL"
      using store32_load [OF assms(1) st] fr p(4) by auto
    show ?thesis
      using False p(1,4) ld
      by (simp add: safety_mem_init_def al vm st aliases_ok_def ctx_monitor_set_protected_range_def
          same_frame_store [OF assms(1) st] errno_defs Let_def)
  qed
qed

definition ref_page_ops :: "ref_machine page_ops" where
  "ref_page_ops = \<lparr>alloc_pages = (\<lambda>m. (1, m\<lparr>rm_map := (rm_map m)(0x1000 := Some (0x1000, True))\<rparr>)),
     free_pages = (\<lambda>p m. m\<lparr>rm_map := (rm_map m)(0x1000 := None)\<rparr>),
     page_address = (\<lambda>p. 0x1000), page_to_phys = (\<lambda>p. 0x1000),
     vmap = (\<lambda>p m. (0x2000, m\<lparr>rm_map := (rm_map m)(0x1000 := Some (0x1000, True),
        0x2000 := Some (0x1000, True))\<rparr>)),
     vunmap = (\<lambda>a m. m\<lparr>rm_map := (rm_map m)(a := None)\<rparr>)\<rparr>"

lemma ref_page_ops_ok: "page_ops_ok ref_kernel ref_page_ops"
  by (auto simp: page_ops_ok_def ref_page_ops_def same_frame_def ref_phys_def)

theorem safety_mem_init_establishes_witness:
  "\<exists>ret calls s'. safety_mem_init ref_kernel ref_page_ops True (ref_state (\<lambda>a. True) True True 0)
      = Inr (ret, calls, s') \<and> ret \<in> {0, - ENOMEM}"
  using safety_mem_init_establishes [OF ref_kernel_ok ref_page_ops_ok,
      of True "ref_state (\<lambda>a. True) True True 0"]
  by blast

text \<open>The module's resource behaviour: init, and exit in the state that init left.\<close>

type_synonym 'm safety_mem_env = "'m kernel_mm \<times> 'm page_ops \<times> bool \<times> 'm kstate"

fun safety_mem_load :: "'m safety_mem_env \<Rightarrow> int \<times> kcall list" where
  "safety_mem_load (K, P, proc_ok, s) =
     (case safety_mem_init K P proc_ok s of Inl _ \<Rightarrow> (- 1, []) | Inr (r, calls, _) \<Rightarrow> (r, calls))"

fun safety_mem_unload :: "'m safety_mem_env \<Rightarrow> kcall list" where
  "safety_mem_unload (K, P, proc_ok, s) =
     (case safety_mem_init K P proc_ok s of
        Inl _ \<Rightarrow> [] | Inr (_, _, s') \<Rightarrow> fst (safety_mem_exit K P s'))"

fun safety_mem_no_oops :: "'m safety_mem_env \<Rightarrow> bool" where
  "safety_mem_no_oops (K, P, proc_ok, s) \<longleftrightarrow> safety_mem_init K P proc_ok s \<noteq> Inl KernelOops"

text \<open>The calls of a load, by outcome.\<close>

lemma safety_mem_init_calls:
  assumes "safety_mem_init K P proc_ok s = Inr (r, calls, s')"
  defines "alias \<equiv> (\<lambda>f. if g_vmalloc_addr (sm s') \<noteq> 0 then [f VmapAlias] else [])"
  shows "r = 0 \<Longrightarrow> g_safety_page (sm s') \<noteq> 0
      \<and> calls = Acquire PageFrame # alias Acquire @ [Acquire (ProcEntry ''safety_mem_status'')]"
    and "r \<noteq> 0 \<Longrightarrow> calls = []
      \<or> calls = Acquire PageFrame # alias Acquire @ alias Release @ [Release PageFrame]"
proof -
  obtain page m1 where al: "alloc_pages P (mach s) = (page, m1)" by fastforce
  obtain vm m2 where vm: "vmap P page m1 = (vm, m2)" by fastforce
  have "(r = 0 \<longrightarrow> g_safety_page (sm s') \<noteq> 0
      \<and> calls = Acquire PageFrame # alias Acquire @ [Acquire (ProcEntry ''safety_mem_status'')])
    \<and> (r \<noteq> 0 \<longrightarrow> calls = []
      \<or> calls = Acquire PageFrame # alias Acquire @ alias Release @ [Release PageFrame])"
  proof (cases "page = 0")
    case True
    with assms(1) show ?thesis by (simp add: safety_mem_init_def al errno_defs)
  next
    case False
    with assms(1) obtain m3 where st: "store32 K (page_address P page) SAFETY_SENTINEL m2 = Some m3"
      by (cases "store32 K (page_address P page) SAFETY_SENTINEL m2")
        (simp_all add: safety_mem_init_def al vm Let_def)
    with assms(1) False show ?thesis
      unfolding alias_def by (cases proc_ok; auto simp: safety_mem_init_def al vm Let_def errno_defs)
  qed
  then show "r = 0 \<Longrightarrow> g_safety_page (sm s') \<noteq> 0
      \<and> calls = Acquire PageFrame # alias Acquire @ [Acquire (ProcEntry ''safety_mem_status'')]"
    and "r \<noteq> 0 \<Longrightarrow> calls = []
      \<or> calls = Acquire PageFrame # alias Acquire @ alias Release @ [Release PageFrame]"
    by blast+
qed

lemma safety_mem_exit_calls:
  "fst (safety_mem_exit K P s) = Release (ProcEntry ''safety_mem_status'')
     # (if g_vmalloc_addr (sm s) \<noteq> 0 then [Release VmapAlias] else [])
     @ (if g_safety_page (sm s) \<noteq> 0 then [Release PageFrame] else [])"
  by (simp add: safety_mem_exit_def Let_def)

interpretation safety_module: kernel_module safety_mem_load safety_mem_unload safety_mem_no_oops
proof unfold_locales
  fix e :: "'m safety_mem_env" and h
  obtain K P ok s where e: "e = (K, P, ok, s)" by (cases e)
  assume "safety_mem_no_oops e"
  show "replay h (snd (safety_mem_load e)) = Some h" if "fst (safety_mem_load e) \<noteq> 0"
    using that safety_mem_init_calls(2) [of K P ok s]
    by (cases "safety_mem_init K P ok s") (auto simp: e)
  show "replay h (snd (safety_mem_load e) @ safety_mem_unload e) = Some h"
    if "fst (safety_mem_load e) = 0"
    using that safety_mem_init_calls(1) [of K P ok s]
    by (cases "safety_mem_init K P ok s") (auto simp: e safety_mem_exit_calls)
qed

end
