(* ===== verification/Status_Text.thy ===== *)
theory Status_Text
  imports Safety_Proc
begin

text \<open>
  The text interface between kernel and userspace. The harness decides by searching the text of
  \<open>/proc/safety_mem_status\<close> for a few patterns; here the text is taken apart into its fields, and
  each of those searches is shown to be exact: it succeeds if and only if the kernel state has the
  property the pattern stands for, whatever the other fields hold.
\<close>

section \<open>Searching in lines and fields\<close>

lemma contains_line_split:
  assumes "newline \<notin> set p" "p \<noteq> []"
  shows "str_contains (l @ newline # rest) p \<longleftrightarrow> str_contains l p \<or> str_contains rest p"
proof
  assume "str_contains (l @ newline # rest) p"
  then obtain a b where "l @ newline # rest = a @ p @ b" by (auto simp: str_contains_iff)
  then consider u where "l = a @ u" "u @ newline # rest = p @ b" | u where "l @ u = a" "newline # rest = u @ p @ b"
    by (auto simp: append_eq_append_conv2)
  then show "str_contains l p \<or> str_contains rest p"
  proof cases
    case 1
    from 1(2) consider v where "u = p @ v" | v where "u @ v = p" "newline # rest = v @ b"
      by (auto simp: append_eq_append_conv2)
    then show ?thesis
    proof cases
      case 1
      then show ?thesis using \<open>l = a @ u\<close> by auto
    next
      case 2
      then have "v = []" using assms(1) by (cases v) auto
      then show ?thesis using 2 \<open>l = a @ u\<close> str_contains_middle [of a p "[]"] by simp
    qed
  next
    case 2
    from 2(2) assms have "u \<noteq> []" by (cases p) auto
    then obtain c u' where "u = c # u'" by (cases u) auto
    with 2(2) have "rest = u' @ p @ b" by simp
    then show ?thesis by auto
  qed
next
  assume "str_contains l p \<or> str_contains rest p"
  then show "str_contains (l @ newline # rest) p"
    using str_contains_appendI(1) [of l p] str_contains_appendI(2) [of rest p "l @ [newline]"] by auto
qed

lemma contains_lines:
  assumes "newline \<notin> set p" "p \<noteq> []"
  shows "str_contains (concat (map (\<lambda>l. l @ [newline]) ls)) p \<longleftrightarrow> (\<exists>l \<in> set ls. str_contains l p)"
proof (induction ls)
  case Nil
  then show ?case using assms(2) by (simp add: str_contains_iff)
next
  case (Cons l ls)
  then show ?case using contains_line_split [OF assms, of l] by simp
qed

text \<open>A field line, and text that can stand in one without confusing a search.\<close>

definition field :: "string \<times> string \<Rightarrow> string" where
  "field kv = fst kv @ '': '' @ snd kv"

definition plain :: "string \<Rightarrow> bool" where
  "plain s \<longleftrightarrow> CHR '':'' \<notin> set s \<and> newline \<notin> set s"

lemma append_unique_sep:
  assumes "a @ c # x = b @ c # y" "c \<notin> set b" "c \<notin> set y"
  shows "a = b \<and> x = y"
proof -
  have "count_list (a @ c # x) c = count_list (b @ c # y) c" using assms(1) by simp
  moreover have "count_list b c = 0" "count_list y c = 0"
    using assms(2,3) by (simp_all add: count_list_0_iff)
  ultimately have "count_list a c = 0" by simp
  then have "c \<notin> set a" by (simp add: count_list_0_iff)
  then have "takeWhile (\<lambda>x. x \<noteq> c) (a @ c # x) = a" "takeWhile (\<lambda>x. x \<noteq> c) (b @ c # y) = b"
    using assms(2) by (auto intro!: takeWhile_tail simp: takeWhile_append)
  then show ?thesis using assms(1) by (metis append_same_eq same_append_eq list.inject)
qed

lemma field_contains:
  assumes "plain k" "plain v"
  shows "str_contains (field (k, v)) (field (pk, pv)) \<longleftrightarrow> (\<exists>x. k = x @ pk) \<and> starts_with v pv"
proof
  assume "str_contains (field (k, v)) (field (pk, pv))"
  then obtain a b where "k @ '': '' @ v = a @ (pk @ '': '' @ pv) @ b"
    by (auto simp: str_contains_iff field_def)
  then have "(a @ pk) @ CHR '':'' # ('' '' @ pv @ b) = k @ CHR '':'' # ('' '' @ v)" by simp
  moreover have "CHR '':'' \<notin> set k" "CHR '':'' \<notin> set ('' '' @ v)"
    using assms by (simp_all add: plain_def)
  ultimately have "a @ pk = k \<and> '' '' @ pv @ b = '' '' @ v" by (rule append_unique_sep)
  then show "(\<exists>x. k = x @ pk) \<and> starts_with v pv" by (auto simp: starts_with_iff)
next
  assume "(\<exists>x. k = x @ pk) \<and> starts_with v pv"
  then obtain x r where "k = x @ pk" "v = pv @ r" by (auto simp: starts_with_iff)
  then show "str_contains (field (k, v)) (field (pk, pv))"
    using str_contains_middle [of x "pk @ '': '' @ pv" r] by (simp add: field_def)
qed

lemma str_contains_Cons:
  "str_contains (c # s) p \<longleftrightarrow> starts_with (c # s) p \<or> str_contains s p"
  by (simp add: str_contains_def)

lemma str_contains_length: "str_contains s p \<Longrightarrow> length p \<le> length s"
  by (auto simp: str_contains_iff)

section \<open>Printed numbers as field text\<close>

lemma digit_plain: "is_digit b c \<Longrightarrow> c \<noteq> CHR '':'' \<and> c \<noteq> newline"
  by (auto simp: is_digit_def char_digit_def split: if_splits)

lemma plain_num_str [simp]: "good_digits dg b \<Longrightarrow> plain (num_str dg b n)"
  using num_str_digits [of dg b n] digit_plain unfolding plain_def by blast

lemma plain_append [simp]: "plain (s @ t) \<longleftrightarrow> plain s \<and> plain t"
  by (auto simp: plain_def)

lemma plain_pad0 [simp]: "plain s \<Longrightarrow> plain (pad0 w s)"
  by (simp add: pad0_def) (simp add: plain_def)

lemma plain_dec_int [simp]: "plain (dec_int i)"
proof -
  have "plain (CHR ''-'' # s) \<longleftrightarrow> plain s" for s by (simp add: plain_def)
  then show ?thesis by (simp add: dec_int_def dec_nat_def)
qed

lemma plain_Cons [simp]: "plain (c # s) \<longleftrightarrow> c \<noteq> CHR '':'' \<and> c \<noteq> newline \<and> plain s"
  by (auto simp: plain_def)

lemma plain_Nil [simp]: "plain []"
  by (simp add: plain_def)

lemma length_num_str:
  assumes "n < b ^ k" "0 < k"
  shows "length (num_str dg b n) \<le> k"
  using assms
proof (induction k arbitrary: n)
  case (Suc k)
  show ?case
  proof (cases "b < 2 \<or> n < b")
    case True
    then show ?thesis by (subst num_str.simps) simp
  next
    case False
    with Suc.prems(1) have "n div b < b ^ k" by (simp add: less_mult_imp_div_less mult.commute)
    moreover have "0 < k" using False Suc.prems(1) by (cases k) auto
    ultimately have "length (num_str dg b (n div b)) \<le> k" by (rule Suc.IH)
    then show ?thesis using False by (subst num_str.simps) simp
  qed
qed simp

lemma length_fmt_0x08X [simp]: "length (fmt_0x08X v) = 10"
proof -
  have "length (hex_upper (unat v)) \<le> 8"
    unfolding hex_upper_def by (rule length_num_str [OF unat_u32_bound]) simp
  then show ?thesis by (simp add: fmt_0x08X_def pad0_def)
qed

lemma starts_with_fmt [simp]: "starts_with (fmt_0x08X v) (fmt_0x08X w) \<longleftrightarrow> v = w"
  by (simp add: starts_with_def fmt_0x08X_inj)

lemma plain_fmt [simp]: "plain (fmt_0x08X v)"
  by (simp add: fmt_0x08X_def hex_upper_def)

section \<open>The status file\<close>

text \<open>The fields before the mutex owner, and the one after it.\<close>

definition status_fields :: "'m kernel_mm \<Rightarrow> kernel_lib \<Rightarrow> 'm kstate \<Rightarrow> (string \<times> string) list" where
  "status_fields K L s =
     (let st = sm s; m = mach s;
          cur = safety_mem_walk_pgtable K m (g_virt_addr st);
          vmm = safety_mem_walk_pgtable K m (g_vmalloc_addr st);
          ini = g_initial_mapping st
      in [(''virt_addr'', ''0x'' @ fmt_px L (g_virt_addr st)),
          (''phys_addr'', fmt_pa L (g_phys_addr st)),
          (''mapping_level_before'', safety_mem_mapping_level ini),
          (''mapping_entry_before'', ''0x'' @ pad0 16 (hex_upper (unat (safety_mem_mapping_entry ini)))),
          (''mapping_writable_before'', bool_text (is_writable ini)),
          (''mapping_level_current'', safety_mem_mapping_level cur),
          (''mapping_entry_current'', ''0x'' @ pad0 16 (hex_upper (unat (safety_mem_mapping_entry cur)))),
          (''mapping_writable_current'', bool_text (is_writable cur)),
          (''mapping_valid_current'', bool_text (is_valid cur)),
          (''mapping_level_vmalloc'', safety_mem_mapping_level vmm),
          (''mapping_entry_vmalloc'', ''0x'' @ pad0 16 (hex_upper (unat (safety_mem_mapping_entry vmm)))),
          (''mapping_writable_vmalloc'', bool_text (is_writable vmm)),
          (''value_via_vmalloc'', fmt_0x08X (nofault_value K (g_vmalloc_addr st) m)),
          (''value_via_phys'', fmt_0x08X (nofault_value K (g_virt_addr st) m)),
          (''ctx_protected'', dec_int (g_ctx_protected st)),
          (''smmu_active'', dec_int (g_smmu_active st)),
          (''status'', if g_ctx_protected st \<noteq> 0 then ''PROTECTED_RO'' else ''UNPROTECTED_RW'')])"

lemma status_lines_fields:
  "set (safety_mem_status_lines K M L s)
     = set (map field (status_fields K L s))
       \<union> {''mutex_owner: '' @ mutex_owner_text M L (safety_mutex_owner (sm s))}"
  by (simp add: safety_mem_status_lines_def status_fields_def field_def Let_def insert_commute)

lemma plain_level [simp]: "plain (safety_mem_mapping_level i)"
  by (simp add: safety_mem_mapping_level_def)

lemma plain_bool [simp]: "plain (bool_text b)"
  by (simp add: bool_text_def)

lemma status_fields_plain:
  assumes "kernel_lib_ok L"
  shows "\<forall>(k, v) \<in> set (status_fields K L s). plain k \<and> plain v"
  by (simp add: status_fields_def Let_def kernel_lib_okD(4,5) [OF assms] hex_lower_def hex_upper_def)

lemma owner_text_short: "kernel_lib_ok L \<Longrightarrow> length (mutex_owner_text M L ow) \<le> 15"
  using kernel_lib_okD(7) [of L] kernel_lib_okD(2) [of L 16 "''unknown''"]
  by (simp add: mutex_owner_text_def)

text \<open>A search for a field pattern longer than a task name is decided by the fields alone.\<close>

lemma status_contains:
  assumes "kernel_lib_ok L" "15 < length (field (pk, pv))" "newline \<notin> set (field (pk, pv))"
    and "\<And>c. str_contains (''mutex_owner: '' @ c) (field (pk, pv)) \<Longrightarrow> str_contains c (field (pk, pv))"
  shows "str_contains (snd (safety_mem_proc_show K M L s)) (field (pk, pv))
    \<longleftrightarrow> (\<exists>(k, v) \<in> set (status_fields K L s). (\<exists>x. k = x @ pk) \<and> starts_with v pv)"
proof -
  have "\<not> str_contains (''mutex_owner: '' @ mutex_owner_text M L ow) (field (pk, pv))" for ow
    using assms(2) assms(4) [of "mutex_owner_text M L ow"] owner_text_short [OF assms(1), of M ow]
      str_contains_length by fastforce
  moreover have "field (pk, pv) \<noteq> []" using assms(2) by auto
  ultimately have "str_contains (snd (safety_mem_proc_show K M L s)) (field (pk, pv))
      \<longleftrightarrow> (\<exists>kv \<in> set (status_fields K L s). str_contains (field kv) (field (pk, pv)))"
    by (simp add: safety_mem_proc_show_def contains_lines [OF assms(3)] status_lines_fields bex_Un del: set_map)
      auto
  then show ?thesis
    using status_fields_plain [OF assms(1), of K s] field_contains by fastforce
qed

lemma suffix_snoc: "(\<exists>x. k = x @ p) \<longleftrightarrow> (length p \<le> length k \<and> drop (length k - length p) k = p)"
  by (metis append_eq_conv_conj append_take_drop_id diff_diff_cancel diff_le_self le_add2 length_append
      length_drop add_diff_cancel_right')

lemmas contains_eval = str_contains_Cons starts_with_def field_def suffix_snoc

lemma status_tests:
  assumes "kernel_lib_ok L"
  shows "str_contains (snd (safety_mem_proc_show K M L s)) kProtectionEnabledStatus
      \<longleftrightarrow> starts_with (dec_int (g_ctx_protected (sm s))) ''1''"
    and "str_contains (snd (safety_mem_proc_show K M L s)) kVmallocReadOnlyStatus
      \<longleftrightarrow> \<not> is_writable (safety_mem_walk_pgtable K (mach s) (g_vmalloc_addr (sm s)))"
    and "str_contains (snd (safety_mem_proc_show K M L s)) (''value_via_vmalloc: '' @ fmt_0x08X v)
      \<longleftrightarrow> nofault_value K (g_vmalloc_addr (sm s)) (mach s) = v"
    and "str_contains (snd (safety_mem_proc_show K M L s)) (''value_via_phys: '' @ fmt_0x08X v)
      \<longleftrightarrow> nofault_value K (g_virt_addr (sm s)) (mach s) = v"
proof -
  let ?text = "snd (safety_mem_proc_show K M L s)"
  have f: "kProtectionEnabledStatus = field (''ctx_protected'', ''1'')"
    "kVmallocReadOnlyStatus = field (''mapping_writable_vmalloc'', ''0'')"
    "''value_via_vmalloc: '' @ w = field (''value_via_vmalloc'', w)"
    "''value_via_phys: '' @ w = field (''value_via_phys'', w)" for w
    by (simp_all add: field_def kProtectionEnabledStatus_def kVmallocReadOnlyStatus_def)
  have nl: "newline \<notin> set (fmt_0x08X v)" using plain_fmt [of v] by (simp add: plain_def)
  have "str_contains ?text (field (''ctx_protected'', ''1'')) \<longleftrightarrow> starts_with (dec_int (g_ctx_protected (sm s))) ''1''"
    by (subst status_contains [OF assms(1)])
      (simp_all add: contains_eval status_fields_def Let_def)
  moreover have "str_contains ?text (field (''mapping_writable_vmalloc'', ''0''))
      \<longleftrightarrow> \<not> is_writable (safety_mem_walk_pgtable K (mach s) (g_vmalloc_addr (sm s)))"
    by (subst status_contains [OF assms(1)])
      (simp_all add: contains_eval status_fields_def bool_text_def dec_int_def dec_nat_def num_str.simps
        digit_lower_def Let_def)
  moreover have "str_contains ?text (field (''value_via_vmalloc'', fmt_0x08X v))
      \<longleftrightarrow> nofault_value K (g_vmalloc_addr (sm s)) (mach s) = v"
    by (subst status_contains [OF assms(1)])
      (simp_all add: contains_eval status_fields_def fmt_0x08X_inj nl Let_def)
  moreover have "str_contains ?text (field (''value_via_phys'', fmt_0x08X v))
      \<longleftrightarrow> nofault_value K (g_virt_addr (sm s)) (mach s) = v"
    by (subst status_contains [OF assms(1)])
      (simp_all add: contains_eval status_fields_def fmt_0x08X_inj nl Let_def)
  ultimately show "str_contains ?text kProtectionEnabledStatus
      \<longleftrightarrow> starts_with (dec_int (g_ctx_protected (sm s))) ''1''"
    "str_contains ?text kVmallocReadOnlyStatus
      \<longleftrightarrow> \<not> is_writable (safety_mem_walk_pgtable K (mach s) (g_vmalloc_addr (sm s)))"
    "str_contains ?text (''value_via_vmalloc: '' @ fmt_0x08X v)
      \<longleftrightarrow> nofault_value K (g_vmalloc_addr (sm s)) (mach s) = v"
    "str_contains ?text (''value_via_phys: '' @ fmt_0x08X v)
      \<longleftrightarrow> nofault_value K (g_virt_addr (sm s)) (mach s) = v"
    unfolding f by blast+
qed



section \<open>Searching for a bare value\<close>

text \<open>
  Scenario B looks for a value without its field name, so other lines could hold it too.
\<close>

lemma contains_skip: "hd p \<notin> set a \<Longrightarrow> p \<noteq> [] \<Longrightarrow> str_contains (a @ s) p \<longleftrightarrow> str_contains s p"
  by (induction a) (auto simp: str_contains_Cons starts_with_iff Cons_eq_append_conv neq_Nil_conv)

lemma contains_set: "str_contains s p \<Longrightarrow> set p \<subseteq> set s"
  by (auto simp: str_contains_iff)

lemma digit_not_x: "is_digit b c \<Longrightarrow> b \<le> 16 \<Longrightarrow> c \<noteq> CHR ''x'' \<and> c \<noteq> CHR ''O''"
  by (auto simp: is_digit_def char_digit_def split: if_splits)

lemma hex_no_x:
  assumes "good_digits dg b" "b \<le> 16"
  shows "CHR ''x'' \<notin> set (pad0 k (num_str dg b n))" "CHR ''O'' \<notin> set (pad0 k (num_str dg b n))"
proof -
  have "\<forall>c \<in> set (num_str dg b n). is_digit b c" using num_str_digits [OF assms(1)] by blast
  then have "CHR ''x'' \<notin> set (num_str dg b n)" "CHR ''O'' \<notin> set (num_str dg b n)"
    using digit_not_x assms(2) by blast+
  then show "CHR ''x'' \<notin> set (pad0 k (num_str dg b n))" "CHR ''O'' \<notin> set (pad0 k (num_str dg b n))"
    by (auto simp: pad0_def)
qed

lemma contains_0x:
  assumes "CHR ''x'' \<notin> set y"
  shows "str_contains (''0x'' @ y) (''0x'' @ q) \<longleftrightarrow> starts_with y q"
proof -
  have "\<not> str_contains y (''0x'' @ q)" using contains_set [of y "''0x'' @ q"] assms by auto
  then show ?thesis by (simp add: str_contains_Cons starts_with_def)
qed

lemma digits_value_append: "digits_value b (s @ t) = digits_value b s * b ^ length t + digits_value b t"
proof (induction t rule: rev_induct)
  case (snoc c t)
  have "digits_value b (s @ t @ [c]) = digits_value b (s @ t) * b + digit_val c"
    using digits_value_snoc [of b "s @ t" c] by simp
  then show ?case by (simp add: snoc algebra_simps)
qed (simp add: digits_value_def)

lemma digits_value_bound: "\<forall>c \<in> set s. is_digit b c \<Longrightarrow> 0 < b \<Longrightarrow> digits_value b s < b ^ length s"
proof (induction s rule: rev_induct)
  case (snoc c s)
  then have "digits_value b s + 1 \<le> b ^ length s" "digit_val c < b"
    by (auto simp: is_digit_def digit_val_def split: option.splits)
  then have "digits_value b s * b + digit_val c < (digits_value b s + 1) * b" by simp
  also have "\<dots> \<le> b ^ length s * b" using \<open>digits_value b s + 1 \<le> b ^ length s\<close> by (rule mult_right_mono) simp
  finally show ?case by (simp add: mult.commute)
qed (simp add: digits_value_def)


lemma entry_starts:
  assumes "n < 2 ^ 64" "starts_with (pad0 16 (hex_upper n)) ''DEADDEAD''"
  shows "n div 2 ^ 32 = 0xDEADDEAD"
proof -
  obtain r where r: "pad0 16 (hex_upper n) = ''DEADDEAD'' @ r" using assms(2) by (auto simp: starts_with_iff)
  have "length (hex_upper n) \<le> 16" unfolding hex_upper_def by (rule length_num_str) (use assms(1) in simp_all)
  then have "length (pad0 16 (hex_upper n)) = 16" by (simp add: pad0_def)
  then have len: "length r = 8" by (simp add: r)
  have "\<forall>c \<in> set (pad0 16 (hex_upper n)). is_digit 16 c"
    unfolding hex_upper_def by (rule pad0_digits [OF _ num_str_digits [OF good_digits_std(3)]]) simp
  then have lo: "digits_value 16 r < 2 ^ 32" using digits_value_bound [of r 16] len by (simp add: r)
  have "n = digits_value 16 (pad0 16 (hex_upper n))"
    by (simp add: hex_upper_def digits_value_num_str [OF good_digits_std(3)])
  also have "\<dots> = 0xDEADDEAD * 2 ^ 32 + digits_value 16 r"
    unfolding r digits_value_append len by (simp add: digits_value_def digit_val_def char_digit_def)
  finally show ?thesis using lo by simp
qed

lemma lower_no_D: "CHR ''D'' \<notin> set (pad0 k (hex_lower n))"
proof -
  have "CHR ''D'' \<notin> set (num_str digit_lower 16 n)"
  proof (induction n rule: less_induct)
    case (less n)
    have d: "digit_lower m \<noteq> CHR ''D''" if "m < 16" for m
      using that by (auto simp: digit_lower_def less_Suc_eq numeral_eq_Suc)
    show ?case
    proof (cases "n < 16")
      case True
      then show ?thesis using d [OF True, symmetric] by (subst num_str.simps) auto
    next
      case False
      then show ?thesis using d [of "n mod 16", symmetric] less.IH [of "n div 16"] by (subst num_str.simps) auto
    qed
  qed
  then show ?thesis by (auto simp: hex_lower_def pad0_def)
qed

lemma field_bare:
  assumes "hd p \<notin> set k" "hd p \<noteq> CHR '':''" "hd p \<noteq> CHR '' ''" "p \<noteq> []"
  shows "str_contains (field (k, v)) p \<longleftrightarrow> str_contains v p"
  using contains_skip [of p "k @ '': ''" v] assms by (simp add: field_def)

text \<open>A page-table entry that prints like the sentinel of the rogue write.\<close>

definition entry_marked :: "pgtable_walk_info \<Rightarrow> bool" where
  "entry_marked i \<longleftrightarrow> unat (safety_mem_mapping_entry i) div 2 ^ 32 = 0xDEADDEAD"

lemma entry_search:
  assumes "\<not> entry_marked i"
  shows "\<not> str_contains (''0x'' @ pad0 16 (hex_upper (unat (safety_mem_mapping_entry i)))) kCorruptSentinelStatus"
proof -
  have "unat (safety_mem_mapping_entry i) < 2 ^ 64"
    using unsigned_less [of "safety_mem_mapping_entry i", where ?'a = nat] by simp
  then have "\<not> starts_with (pad0 16 (hex_upper (unat (safety_mem_mapping_entry i)))) ''DEADDEAD''"
    using entry_starts assms unfolding entry_marked_def by blast
  moreover have "kCorruptSentinelStatus = ''0x'' @ ''DEADDEAD''" by (simp add: kCorruptSentinelStatus_def)
  moreover have "CHR ''x'' \<notin> set (pad0 16 (hex_upper (unat (safety_mem_mapping_entry i))))"
    unfolding hex_upper_def by (rule hex_no_x) (simp_all add: good_digits_std)
  ultimately show ?thesis using contains_0x by metis
qed

lemma value_search: "str_contains (fmt_0x08X v) kCorruptSentinelStatus \<longleftrightarrow> v = CORRUPT_SENTINEL"
proof -
  have "str_contains s p \<longleftrightarrow> s = p" if "length s = length p" for s p
    using that str_contains_middle [of "[]" p "[]"] by (auto simp: str_contains_iff)
  then have "str_contains (fmt_0x08X v) (fmt_0x08X CORRUPT_SENTINEL) \<longleftrightarrow> fmt_0x08X v = fmt_0x08X CORRUPT_SENTINEL"
    by simp
  then show ?thesis by (simp only: fmt_0x08X_inj printed_sentinels(2) [symmetric])
qed

lemma lower_search: "\<not> str_contains (''0x'' @ pad0 k (hex_lower n)) kCorruptSentinelStatus"
  using contains_set [of "''0x'' @ pad0 k (hex_lower n)" kCorruptSentinelStatus] lower_no_D [of k n]
  by (auto simp: kCorruptSentinelStatus_def)

lemma int_search: "\<not> str_contains (dec_int i) kCorruptSentinelStatus"
  using contains_set [of "dec_int i" kCorruptSentinelStatus] hex_no_x(1) [OF good_digits_std(1), of 0]
  by (auto simp: dec_int_def dec_nat_def pad0_def kCorruptSentinelStatus_def)

lemma status_bare:
  assumes "kernel_lib_ok L" "newline \<notin> set p" "p \<noteq> []" "hd p \<notin> set ''abcdefghijklmnopqrstuvwxyz_: ''"
  shows "str_contains (snd (safety_mem_proc_show K M L s)) p
    \<longleftrightarrow> (\<exists>v \<in> snd ` set (status_fields K L s). str_contains v p)
        \<or> str_contains (mutex_owner_text M L (safety_mutex_owner (sm s))) p"
proof -
  have ks: "\<forall>kv \<in> set (status_fields K L s). hd p \<notin> set (fst kv)"
    using assms(4) by (simp add: status_fields_def Let_def)
  have "(\<exists>l \<in> set (map field (status_fields K L s)). str_contains l p)
      \<longleftrightarrow> (\<exists>v \<in> snd ` set (status_fields K L s). str_contains v p)"
    using ks field_bare [of p] assms(3,4) by (force simp: split_paired_all)
  moreover have "str_contains (''mutex_owner: '' @ o') p \<longleftrightarrow> str_contains o' p" for o'
    using contains_skip [of p "''mutex_owner: ''" o'] assms(3,4) by simp
  ultimately show ?thesis
    by (simp add: safety_mem_proc_show_def contains_lines [OF assms(2,3)] status_lines_fields bex_Un del: set_map)
      blast
qed

text \<open>
  The words scenario B looks for. Besides the two values, only a page-table entry whose upper half
  is the sentinel and the name of the task that owns the mutex could make the search succeed.
\<close>

lemma corrupt_search:
  assumes "kernel_lib_ok L"
    and "\<not> str_contains (mutex_owner_text M L (safety_mutex_owner (sm s))) kCorruptSentinelStatus"
    and "\<not> entry_marked (g_initial_mapping (sm s))"
      "\<not> entry_marked (safety_mem_walk_pgtable K (mach s) (g_virt_addr (sm s)))"
      "\<not> entry_marked (safety_mem_walk_pgtable K (mach s) (g_vmalloc_addr (sm s)))"
  shows "str_contains (snd (safety_mem_proc_show K M L s)) kCorruptSentinelStatus
    \<longleftrightarrow> nofault_value K (g_vmalloc_addr (sm s)) (mach s) = CORRUPT_SENTINEL
      \<or> nofault_value K (g_virt_addr (sm s)) (mach s) = CORRUPT_SENTINEL"
proof -
  have lv: "\<not> str_contains (safety_mem_mapping_level i) kCorruptSentinelStatus" for i
    by (simp add: safety_mem_mapping_level_def kCorruptSentinelStatus_def contains_eval str_contains_def)
  have st: "\<not> str_contains ''PROTECTED_RO'' kCorruptSentinelStatus" "\<not> str_contains ''UNPROTECTED_RW'' kCorruptSentinelStatus"
    by (simp_all add: kCorruptSentinelStatus_def str_contains_def starts_with_def)
  have h: "newline \<notin> set kCorruptSentinelStatus" "kCorruptSentinelStatus \<noteq> []"
    "hd kCorruptSentinelStatus \<notin> set ''abcdefghijklmnopqrstuvwxyz_: ''"
    by (simp_all add: kCorruptSentinelStatus_def)
  show ?thesis
    unfolding status_bare [OF assms(1) h]
    using assms(2) entry_search [OF assms(3)] entry_search [OF assms(4)] entry_search [OF assms(5)]
      lower_search lv st int_search
    by (simp add: status_fields_def Let_def bool_text_def value_search
        kernel_lib_okD(4,5) [OF assms(1)] del: append.simps)
qed

lemma corrupted_search:
  assumes "kernel_lib_ok L" "\<not> str_contains (mutex_owner_text M L (safety_mutex_owner (sm s))) ''CORRUPTED''"
  shows "\<not> str_contains (snd (safety_mem_proc_show K M L s)) ''CORRUPTED''"
proof -
  have no: "CHR ''O'' \<notin> set v \<Longrightarrow> \<not> str_contains v ''CORRUPTED''" for v
    using contains_set [of v "''CORRUPTED''"] by auto
  have x: "CHR ''O'' \<notin> set (pad0 k (hex_lower n))" "CHR ''O'' \<notin> set (pad0 k (hex_upper n))"
    "CHR ''O'' \<notin> set (dec_nat n)" for k n
    using hex_no_x(2) [OF good_digits_std(2), of k n] hex_no_x(2) [OF good_digits_std(3), of k n]
      hex_no_x(2) [OF good_digits_std(1), of 0 n]
    by (simp_all add: hex_lower_def hex_upper_def dec_nat_def pad0_def)
  have lv: "\<not> str_contains (safety_mem_mapping_level i) ''CORRUPTED''" for i
    by (simp add: safety_mem_mapping_level_def str_contains_def starts_with_def)
  have st: "\<not> str_contains ''PROTECTED_RO'' ''CORRUPTED''" "\<not> str_contains ''UNPROTECTED_RW'' ''CORRUPTED''"
    by (simp_all add: str_contains_def starts_with_def)
  have i: "CHR ''O'' \<notin> set (dec_int i)" "CHR ''O'' \<notin> set (fmt_0x08X v)" for i v
    using x by (auto simp: dec_int_def fmt_0x08X_def)
  show ?thesis
    using assms(2) no x i lv st status_bare [OF assms(1), of "''CORRUPTED''" K M s]
    by (simp add: status_fields_def Let_def bool_text_def kernel_lib_okD(4,5) [OF assms(1)])
qed

text \<open>A status text in which only the two value lines can show the sentinel.\<close>

definition status_unambiguous :: "'m kernel_mm \<Rightarrow> mutex_api \<Rightarrow> kernel_lib \<Rightarrow> 'm kstate \<Rightarrow> bool" where
  "status_unambiguous K M L s \<longleftrightarrow>
     \<not> str_contains (mutex_owner_text M L (safety_mutex_owner (sm s))) kCorruptSentinelStatus
     \<and> \<not> str_contains (mutex_owner_text M L (safety_mutex_owner (sm s))) ''CORRUPTED''
     \<and> \<not> entry_marked (g_initial_mapping (sm s))
     \<and> \<not> entry_marked (safety_mem_walk_pgtable K (mach s) (g_virt_addr (sm s)))
     \<and> \<not> entry_marked (safety_mem_walk_pgtable K (mach s) (g_vmalloc_addr (sm s)))"

lemma unowned_unambiguous:
  assumes "\<not> mutex_is_locked M (safety_mutex_owner (sm s))"
  shows "status_unambiguous K M L s \<longleftrightarrow> \<not> entry_marked (g_initial_mapping (sm s))
    \<and> \<not> entry_marked (safety_mem_walk_pgtable K (mach s) (g_virt_addr (sm s)))
    \<and> \<not> entry_marked (safety_mem_walk_pgtable K (mach s) (g_vmalloc_addr (sm s)))"
  using assms
  by (simp add: status_unambiguous_def mutex_owner_text_def kCorruptSentinelStatus_def str_contains_def starts_with_def)

end
