(* ===== verification/Bad_Driver.thy ===== *)
theory Bad_Driver
  imports Safety_Proc
begin

text \<open>
  \<open>src/kernel/bad_driver/bad_driver.c\<close>: the attack simulator. Its three attacks differ in the
  address they aim at and the value they write; the locale \<open>attack_path\<close> states what they share,
  and each attack is an instance. The abstract \<open>vault\<close> says what an attack may do to the safety
  word, and the driver refines it.
\<close>

section \<open>State and attacks\<close>

record bad_driver_state =
  g_last_attack_ts_ns :: u64
  g_last_attack_mode :: u32
  g_last_target_addr :: u64
  g_last_result :: string
  g_attack_count :: u32

definition bad_driver_initial :: bad_driver_state where
  "bad_driver_initial = \<lparr>g_last_attack_ts_ns = 0, g_last_attack_mode = 0, g_last_target_addr = 0,
     g_last_result = ''NONE'', g_attack_count = 0\<rparr>"

text \<open>\<open>snprintf\<close> of a text into a buffer of the given size.\<close>

definition snprintf_buf :: "nat \<Rightarrow> string \<Rightarrow> string" where
  "snprintf_buf n text = take (n - 1) text"

definition execute_attack_mode_1 ::
  "'m kernel_mm \<Rightarrow> u64 \<Rightarrow> 'm kstate \<Rightarrow> bad_driver_state \<Rightarrow> int \<times> 'm kstate \<times> bad_driver_state" where
  "execute_attack_mode_1 K now s b =
     (let vaddr0 = safety_mem_get_vmalloc_addr (sm s);
          vaddr = (if vaddr0 = 0 then safety_mem_get_virt_addr (sm s) else vaddr0);
          b1 = b\<lparr>g_last_target_addr := vaddr,
                 g_last_attack_mode := attack_mode_value BAD_DRIVER_ATTACK_VMALLOC,
                 g_last_attack_ts_ns := now, g_attack_count := g_attack_count b + 1\<rparr>;
          (ret, m') = copy_to_kernel_nofault K vaddr BAD_DRIVER_VMALLOC_VALUE (mach s);
          result = (if ret \<noteq> 0 then ''BLOCKED_EFAULT'' else ''SUCCESS_UNPROTECTED'')
      in (ret, s\<lparr>mach := m'\<rparr>,
          b1\<lparr>g_last_result := snprintf_buf DEMO_RESULT_BUFFER_SIZE result\<rparr>))"

definition execute_attack_mode_2 ::
  "'m kernel_mm \<Rightarrow> mutex_api \<Rightarrow> u64 \<Rightarrow> 'm kstate \<Rightarrow> bad_driver_state
     \<Rightarrow> int \<times> 'm kstate \<times> bad_driver_state" where
  "execute_attack_mode_2 K M now s b =
     (let vaddr = safety_mem_get_virt_addr (sm s);
          b1 = b\<lparr>g_last_target_addr := vaddr,
                 g_last_attack_mode := attack_mode_value BAD_DRIVER_ATTACK_MUTEX_BYPASS,
                 g_last_attack_ts_ns := now, g_attack_count := g_attack_count b + 1\<rparr>;
          was_locked = (case safety_mem_get_mutex (sm s) of
                          None \<Rightarrow> False | Some owner \<Rightarrow> mutex_is_locked M owner);
          (ret, m') = copy_to_kernel_nofault K vaddr BAD_DRIVER_MUTEX_BYPASS_VALUE (mach s);
          result = (if ret \<noteq> 0 then ''BLOCKED_EFAULT''
                    else if was_locked then ''MUTEX_BYPASS_RACE'' else ''SUCCESS_UNPROTECTED'')
      in (ret, s\<lparr>mach := m'\<rparr>,
          b1\<lparr>g_last_result := snprintf_buf DEMO_RESULT_BUFFER_SIZE result\<rparr>))"

definition execute_attack_mode_3 ::
  "'m kernel_mm \<Rightarrow> u64 \<Rightarrow> 'm kstate \<Rightarrow> bad_driver_state \<Rightarrow> int \<times> 'm kstate \<times> bad_driver_state" where
  "execute_attack_mode_3 K now s b =
     (let va_alias = phys_to_virt K (safety_mem_get_phys_addr (sm s));
          b1 = b\<lparr>g_last_target_addr := va_alias,
                 g_last_attack_mode := attack_mode_value BAD_DRIVER_ATTACK_LINEAR_ALIAS,
                 g_last_attack_ts_ns := now, g_attack_count := g_attack_count b + 1\<rparr>;
          (ret, m') = copy_to_kernel_nofault K va_alias BAD_DRIVER_LINEAR_ALIAS_VALUE (mach s);
          result = (if ret \<noteq> 0 then ''BLOCKED_EFAULT'' else ''SUCCESS_BYPASS'')
      in (ret, s\<lparr>mach := m'\<rparr>,
          b1\<lparr>g_last_result := snprintf_buf DEMO_RESULT_BUFFER_SIZE result\<rparr>))"

text \<open>The \<open>switch\<close> of the procfs handler over a mode that has a case.\<close>

primrec execute_attack ::
  "'m kernel_mm \<Rightarrow> mutex_api \<Rightarrow> u64 \<Rightarrow> bad_driver_attack_mode \<Rightarrow> 'm kstate \<Rightarrow> bad_driver_state
     \<Rightarrow> int \<times> 'm kstate \<times> bad_driver_state" where
  "execute_attack K M now BAD_DRIVER_ATTACK_VMALLOC = execute_attack_mode_1 K now"
| "execute_attack K M now BAD_DRIVER_ATTACK_MUTEX_BYPASS = execute_attack_mode_2 K M now"
| "execute_attack K M now BAD_DRIVER_ATTACK_LINEAR_ALIAS = execute_attack_mode_3 K now"

definition bad_driver_proc_show :: "bad_driver_state \<Rightarrow> int \<times> string" where
  "bad_driver_proc_show b =
     (0, concat (map (\<lambda>l. l @ [newline])
       [''last_attack_timestamp_ns: '' @ dec_nat (unat (g_last_attack_ts_ns b)),
        ''last_attack_mode: '' @ dec_int (sint (g_last_attack_mode b)),
        ''target_addr: 0x'' @ hex_lower (unat (g_last_target_addr b)),
        ''result: '' @ g_last_result b,
        ''attack_count: '' @ dec_nat (unat (g_attack_count b))]))"

definition bad_driver_proc_write ::
  "'m kernel_mm \<Rightarrow> mutex_api \<Rightarrow> kernel_lib \<Rightarrow> u64 \<Rightarrow> bool \<Rightarrow> string \<Rightarrow> 'm kstate \<Rightarrow> bad_driver_state
     \<Rightarrow> int \<times> 'm kstate \<times> bad_driver_state" where
  "bad_driver_proc_write K M L now copied buf s b =
     (if DEMO_COMMAND_BUFFER_SIZE \<le> length buf then (- EINVAL, s, b)
      else if \<not> copied then (- EFAULT, s, b)
      else
        (case kstrtouint L (strim L (takeWhile (\<lambda>c. c \<noteq> CHR 0x00) buf)) 0 of
           Inl _ \<Rightarrow> (- EINVAL, s, b)
         | Inr mode \<Rightarrow>
             if mode = attack_mode_value BAD_DRIVER_ATTACK_VMALLOC
             then (int (length buf), snd (execute_attack K M now BAD_DRIVER_ATTACK_VMALLOC s b))
             else if mode = attack_mode_value BAD_DRIVER_ATTACK_MUTEX_BYPASS
             then (int (length buf), snd (execute_attack K M now BAD_DRIVER_ATTACK_MUTEX_BYPASS s b))
             else if mode = attack_mode_value BAD_DRIVER_ATTACK_LINEAR_ALIAS
             then (int (length buf), snd (execute_attack K M now BAD_DRIVER_ATTACK_LINEAR_ALIAS s b))
             else (- EINVAL, s, b)))"

definition bad_driver_init :: "bool \<Rightarrow> int \<times> kcall list" where
  "bad_driver_init proc_ok =
     (if \<not> proc_ok then (- ENOMEM, []) else (0, [Acquire (ProcEntry ''bad_driver_ts'')]))"

definition bad_driver_exit :: "kcall list" where
  "bad_driver_exit = [Release (ProcEntry ''bad_driver_ts'')]"

interpretation bad_driver_module: kernel_module bad_driver_init "\<lambda>_. bad_driver_exit" "\<lambda>_. True"
  by unfold_locales (auto simp: bad_driver_init_def bad_driver_exit_def errno_defs split: if_splits)

section \<open>What the attacks share\<close>

text \<open>The address and the value of each attack.\<close>

primrec attack_target ::
  "'m kernel_mm \<Rightarrow> bad_driver_attack_mode \<Rightarrow> safety_mem_state \<Rightarrow> u64" where
  "attack_target K BAD_DRIVER_ATTACK_VMALLOC t =
     (if g_vmalloc_addr t = 0 then g_virt_addr t else g_vmalloc_addr t)"
| "attack_target K BAD_DRIVER_ATTACK_MUTEX_BYPASS t = g_virt_addr t"
| "attack_target K BAD_DRIVER_ATTACK_LINEAR_ALIAS t = phys_to_virt K (g_phys_addr t)"

primrec attack_value :: "bad_driver_attack_mode \<Rightarrow> u32" where
  "attack_value BAD_DRIVER_ATTACK_VMALLOC = BAD_DRIVER_VMALLOC_VALUE"
| "attack_value BAD_DRIVER_ATTACK_MUTEX_BYPASS = BAD_DRIVER_MUTEX_BYPASS_VALUE"
| "attack_value BAD_DRIVER_ATTACK_LINEAR_ALIAS = BAD_DRIVER_LINEAR_ALIAS_VALUE"

locale attack_path =
  fixes K :: "'m kernel_mm"
    and attack :: "'m kstate \<Rightarrow> bad_driver_state \<Rightarrow> int \<times> 'm kstate \<times> bad_driver_state"
    and target :: "safety_mem_state \<Rightarrow> u64"
    and val :: u32
  assumes is_copy: "attack s b = (ret, s', b') \<Longrightarrow>
      (ret, mach s') = copy_to_kernel_nofault K (target (sm s)) val (mach s)
      \<and> sm s' = sm s \<and> cm s' = cm s"
    and counts: "attack s b = (ret, s', b') \<Longrightarrow>
      g_attack_count b' = g_attack_count b + 1 \<and> g_last_target_addr b' = target (sm s)"
    and reports: "attack s b = (ret, s', b') \<Longrightarrow>
      (g_last_result b' = ''BLOCKED_EFAULT'') = (ret \<noteq> 0)"
begin

lemma blocked:
  assumes "kernel_mm_ok K" "attack s b = (ret, s', b')" "\<not> mapped_rw K (mach s) (target (sm s))"
  shows "ret = - EFAULT \<and> s' = s \<and> g_last_result b' = ''BLOCKED_EFAULT''"
proof -
  have "store32 K (target (sm s)) val (mach s) = None"
    using store32_None_iff [OF assms(1)] assms(3) by blast
  then have "ret = - EFAULT" "mach s' = mach s"
    using is_copy [OF assms(2)] by (simp_all add: copy_to_nofault [OF assms(1)])
  then show ?thesis
    using is_copy [OF assms(2)] reports [OF assms(2)] by (simp add: errno_defs)
qed

lemma succeeds:
  assumes "kernel_mm_ok K" "attack s b = (ret, s', b')" "mapped_rw K (mach s) (target (sm s))"
  shows "ret = 0 \<and> store32 K (target (sm s)) val (mach s) = Some (mach s')
    \<and> g_last_result b' \<noteq> ''BLOCKED_EFAULT''"
proof -
  obtain m' where "store32 K (target (sm s)) val (mach s) = Some m'"
    using store32_Some_iff [OF assms(1)] assms(3) by blast
  then show ?thesis
    using is_copy [OF assms(2)] reports [OF assms(2)] by (simp add: copy_to_nofault [OF assms(1)])
qed

lemma permissions_kept:
  assumes "kernel_mm_ok K" "attack s b = (ret, s', b')"
  shows "safety_mem_walk_pgtable K (mach s') a = safety_mem_walk_pgtable K (mach s) a
    \<and> phys_of K (mach s') a = phys_of K (mach s) a"
proof (cases "mapped_rw K (mach s) (target (sm s))")
  case True
  then have st: "store32 K (target (sm s)) val (mach s) = Some (mach s')"
    using succeeds [OF assms] by blast
  show ?thesis using store32_tables [OF assms(1) st] by simp
next
  case False
  then show ?thesis using blocked [OF assms] by blast
qed

lemma honest_kept:
  assumes "kernel_mm_ok K" "attack s b = (ret, s', b')"
  shows "flag_honest K s' = flag_honest K s" "aliases_ok K s' = aliases_ok K s"
  using permissions_kept [OF assms] is_copy [OF assms(2)]
  by (simp_all add: flag_honest_def aliases_ok_def same_frame_def)

end

lemma snprintf_result [simp]:
  "snprintf_buf DEMO_RESULT_BUFFER_SIZE ''BLOCKED_EFAULT'' = ''BLOCKED_EFAULT''"
  "snprintf_buf DEMO_RESULT_BUFFER_SIZE ''SUCCESS_UNPROTECTED'' = ''SUCCESS_UNPROTECTED''"
  "snprintf_buf DEMO_RESULT_BUFFER_SIZE ''MUTEX_BYPASS_RACE'' = ''MUTEX_BYPASS_RACE''"
  "snprintf_buf DEMO_RESULT_BUFFER_SIZE ''SUCCESS_BYPASS'' = ''SUCCESS_BYPASS''"
  by (simp_all add: snprintf_buf_def buffer_size_defs)

interpretation driver: attack_path K "execute_attack K M now mode" "attack_target K mode"
    "attack_value mode" for K M now mode
proof unfold_locales
  fix s b ret s' b' assume a: "execute_attack K M now mode s b = (ret, s', b')"
  show "(ret, mach s') = copy_to_kernel_nofault K (attack_target K mode (sm s)) (attack_value mode) (mach s)
      \<and> sm s' = sm s \<and> cm s' = cm s"
    "g_attack_count b' = g_attack_count b + 1 \<and> g_last_target_addr b' = attack_target K mode (sm s)"
    "(g_last_result b' = ''BLOCKED_EFAULT'') = (ret \<noteq> 0)"
    using a
    by (cases mode; auto simp: execute_attack_mode_1_def execute_attack_mode_2_def
        execute_attack_mode_3_def Let_def accessor_defs split: prod.splits if_splits)+
qed

section \<open>The vault: what an attack may do to the safety word\<close>

text \<open>
  The abstract state: the safety word, whether each alias lets the CPU write, the protection flag
  and whether the mutex is held. An attack either replaces the word or leaves everything alone, and
  which of the two depends only on the alias it aims at.
\<close>

record vault =
  v_value :: u32
  v_vmalloc_rw :: bool
  v_direct_rw :: bool
  v_protected :: bool
  v_locked :: bool

primrec vault_attack :: "bad_driver_attack_mode \<Rightarrow> vault \<Rightarrow> string \<times> vault" where
  "vault_attack BAD_DRIVER_ATTACK_VMALLOC v =
     (if v_vmalloc_rw v then (''SUCCESS_UNPROTECTED'', v\<lparr>v_value := BAD_DRIVER_VMALLOC_VALUE\<rparr>)
      else (''BLOCKED_EFAULT'', v))"
| "vault_attack BAD_DRIVER_ATTACK_MUTEX_BYPASS v =
     (if v_direct_rw v
      then (if v_locked v then ''MUTEX_BYPASS_RACE'' else ''SUCCESS_UNPROTECTED'',
            v\<lparr>v_value := BAD_DRIVER_MUTEX_BYPASS_VALUE\<rparr>)
      else (''BLOCKED_EFAULT'', v))"
| "vault_attack BAD_DRIVER_ATTACK_LINEAR_ALIAS v =
     (if v_direct_rw v then (''SUCCESS_BYPASS'', v\<lparr>v_value := BAD_DRIVER_LINEAR_ALIAS_VALUE\<rparr>)
      else (''BLOCKED_EFAULT'', v))"

definition vault_of :: "'m kernel_mm \<Rightarrow> mutex_api \<Rightarrow> 'm kstate \<Rightarrow> vault" where
  "vault_of K M s =
     \<lparr>v_value = nofault_value K (g_vmalloc_addr (sm s)) (mach s),
      v_vmalloc_rw = is_writable (safety_mem_walk_pgtable K (mach s) (g_vmalloc_addr (sm s))),
      v_direct_rw = is_writable (safety_mem_walk_pgtable K (mach s) (g_virt_addr (sm s))),
      v_protected = safety_mem_is_protected (sm s),
      v_locked = mutex_is_locked M (safety_mutex_owner (sm s))\<rparr>"

text \<open>The direct-map address of the page is the linear-map address of its frame.\<close>

definition direct_map_ok :: "'m kernel_mm \<Rightarrow> 'm kstate \<Rightarrow> bool" where
  "direct_map_ok K s \<longleftrightarrow> phys_to_virt K (g_phys_addr (sm s)) = g_virt_addr (sm s)"

text \<open>Every attack aims at one of the two aliases, and its report is the vault's.\<close>

lemma attack_target_frame:
  assumes "aliases_ok K s" "direct_map_ok K s"
  shows "same_frame K (mach s) (attack_target K mode (sm s)) (g_vmalloc_addr (sm s))"
    and "same_frame K (mach s) (attack_target K mode (sm s)) (g_virt_addr (sm s))"
  using assms same_frame_sym [of K "mach s" "g_virt_addr (sm s)" "g_vmalloc_addr (sm s)"]
    same_frame_left [of K "mach s"]
  by (cases mode; auto simp: aliases_ok_def direct_map_ok_def)+

lemma attack_target_valid:
  assumes "aliases_ok K s" "direct_map_ok K s"
  shows "is_valid (safety_mem_walk_pgtable K (mach s) (attack_target K mode (sm s)))"
  using attack_target_frame(1) [OF assms, of mode] unfolding same_frame_def by blast

lemma vault_attack_blocked:
  assumes "aliases_ok K s" "direct_map_ok K s"
  shows "is_writable (safety_mem_walk_pgtable K (mach s) (attack_target K mode (sm s)))
      = (fst (vault_attack mode (vault_of K M s)) \<noteq> ''BLOCKED_EFAULT'')"
    and "snd (vault_attack mode (vault_of K M s))
      = (if is_writable (safety_mem_walk_pgtable K (mach s) (attack_target K mode (sm s)))
         then (vault_of K M s)\<lparr>v_value := attack_value mode\<rparr> else vault_of K M s)"
  using assms by (cases mode; simp add: vault_of_def aliases_ok_def direct_map_ok_def)+

lemma execute_attack_report:
  assumes "kernel_mm_ok K" "aliases_ok K s" "direct_map_ok K s"
    and "execute_attack K M now mode s b = (ret, s', b')"
  shows "g_last_result b' = fst (vault_attack mode (vault_of K M s))"
proof -
  have "ret \<noteq> 0 \<longleftrightarrow> \<not> is_writable (safety_mem_walk_pgtable K (mach s) (attack_target K mode (sm s)))"
    using driver.blocked [OF assms(1,4)] driver.succeeds [OF assms(1,4)]
      attack_target_valid [OF assms(2,3), of mode] by (force simp: errno_defs)
  with assms(2-4) show ?thesis
    by (cases mode; auto simp: vault_of_def aliases_ok_def direct_map_ok_def execute_attack_mode_1_def
        execute_attack_mode_2_def execute_attack_mode_3_def Let_def accessor_defs
        split: prod.splits if_splits)
qed

lemma attack_stored:
  assumes "kernel_mm_ok K" "aliases_ok K s" "direct_map_ok K s"
    and "execute_attack K M now mode s b = (ret, s', b')"
    and "is_writable (safety_mem_walk_pgtable K (mach s) (attack_target K mode (sm s)))"
  shows "load32 K (g_vmalloc_addr (sm s)) (mach s') = Some (attack_value mode)"
    and "load32 K (g_virt_addr (sm s)) (mach s') = Some (attack_value mode)"
proof -
  have st: "store32 K (attack_target K mode (sm s)) (attack_value mode) (mach s) = Some (mach s')"
    using driver.succeeds [OF assms(1,4)] attack_target_valid [OF assms(2,3), of mode] assms(5) by blast
  show "load32 K (g_vmalloc_addr (sm s)) (mach s') = Some (attack_value mode)"
    "load32 K (g_virt_addr (sm s)) (mach s') = Some (attack_value mode)"
    using store32_load [OF assms(1) st] attack_target_frame [OF assms(2,3), of mode] by blast+
qed

text \<open>
  C2: the attack simulator refines the vault. For every attack mode, with both aliases mapped to
  one frame, the report the driver records and the safety word, permissions, flag and lock state it
  leaves are exactly those of the abstract attack: which alias is writable decides everything, and
  neither the flag nor the mutex stops a write.
\<close>

theorem attack_refines_vault:
  assumes "kernel_mm_ok K" "aliases_ok K s" "direct_map_ok K s"
    and "execute_attack K M now mode s b = (ret, s', b')"
  shows "(g_last_result b', vault_of K M s') = vault_attack mode (vault_of K M s)
    \<and> (ret = 0 \<longleftrightarrow> g_last_result b' \<noteq> ''BLOCKED_EFAULT'')
    \<and> g_attack_count b' = g_attack_count b + 1
    \<and> aliases_ok K s' \<and> direct_map_ok K s'"
proof -
  let ?w = "is_writable (safety_mem_walk_pgtable K (mach s) (attack_target K mode (sm s)))"
  have kept: "sm s' = sm s" using driver.is_copy [OF assms(4)] by blast
  have "vault_of K M s' = snd (vault_attack mode (vault_of K M s))"
  proof (cases ?w)
    case True
    have "g_vmalloc_addr (sm s) \<noteq> 0" using assms(2) by (simp add: aliases_ok_def)
    then show ?thesis
      using True vault_attack_blocked(2) [OF assms(2,3), of mode M] kept
        attack_stored(1) [OF assms True] driver.permissions_kept [OF assms(1,4)]
      by (simp add: vault_of_def nofault_value_def copy_from_nofault [OF assms(1)])
  next
    case False
    then have "s' = s" using driver.blocked [OF assms(1,4)] by blast
    with False show ?thesis using vault_attack_blocked(2) [OF assms(2,3), of mode M] by simp
  qed
  then show ?thesis
    using execute_attack_report [OF assms] driver.honest_kept(2) [OF assms(1,4)] assms(2,3) kept
      driver.reports [OF assms(4)] driver.counts [OF assms(4)]
    by (simp add: prod_eq_iff direct_map_ok_def)
qed

lemma ref_state_direct_map [simp]: "direct_map_ok ref_kernel (ref_state acc d v f)"
  by (simp add: direct_map_ok_def)

theorem attack_refines_vault_witness:
  "let r = execute_attack ref_kernel ref_mutex 5 BAD_DRIVER_ATTACK_LINEAR_ALIAS
             (ref_state (\<lambda>a. True) True False 1) bad_driver_initial
   in g_last_result (snd (snd r)) = ''SUCCESS_BYPASS''
      \<and> v_value (vault_of ref_kernel ref_mutex (fst (snd r))) = 0xBAD30003"
proof -
  obtain ret s' b' where r: "execute_attack ref_kernel ref_mutex 5 BAD_DRIVER_ATTACK_LINEAR_ALIAS
      (ref_state (\<lambda>a. True) True False 1) bad_driver_initial = (ret, s', b')"
    by (metis prod_cases3)
  from attack_refines_vault [OF ref_kernel_ok _ _ this] show ?thesis
    unfolding r by (simp add: Let_def vault_of_def sentinel_defs)
qed

section \<open>What stops an attack\<close>

text \<open>
  An honest protection flag stops the attack through the vmalloc alias: the write is refused
  with \<open>-EFAULT\<close>, recorded as blocked, and the machine, the module and the monitor are untouched.
\<close>

theorem protection_blocks_vmalloc_attack:
  assumes "kernel_mm_ok K" "flag_honest K s" "safety_mem_is_protected (sm s)"
    and "g_vmalloc_addr (sm s) \<noteq> 0"
    and "execute_attack_mode_1 K now s b = (ret, s', b')"
  shows "ret = - EFAULT \<and> s' = s \<and> g_last_result b' = ''BLOCKED_EFAULT''
    \<and> g_last_target_addr b' = g_vmalloc_addr (sm s)
    \<and> g_attack_count b' = g_attack_count b + 1"
proof -
  have a: "execute_attack K M now BAD_DRIVER_ATTACK_VMALLOC s b = (ret, s', b')" for M
    using assms(5) by simp
  have "\<not> mapped_rw K (mach s) (attack_target K BAD_DRIVER_ATTACK_VMALLOC (sm s))"
    using assms(2-4) by (simp add: flag_honest_def)
  from driver.blocked [OF assms(1) a this] driver.counts [OF a] assms(4) show ?thesis by simp
qed

theorem protection_blocks_vmalloc_attack_witness:
  "fst (execute_attack_mode_1 ref_kernel 5 (ref_state (\<lambda>a. True) True False 1) bad_driver_initial)
     = - EFAULT"
proof -
  obtain ret s' b' where r: "execute_attack_mode_1 ref_kernel 5 (ref_state (\<lambda>a. True) True False 1)
      bad_driver_initial = (ret, s', b')"
    by (metis prod_cases3)
  from protection_blocks_vmalloc_attack [OF ref_kernel_ok _ _ _ r] r show ?thesis
    by (simp add: safety_mem_is_protected_def)
qed



text \<open>A campaign of attacks, one after the other, each at its own time.\<close>

fun campaign ::
  "'m kernel_mm \<Rightarrow> mutex_api \<Rightarrow> (u64 \<times> bad_driver_attack_mode) list \<Rightarrow> 'm kstate \<Rightarrow> bad_driver_state
     \<Rightarrow> 'm kstate \<times> bad_driver_state" where
  "campaign K M [] s b = (s, b)"
| "campaign K M ((now, mode) # as) s b =
     (case execute_attack K M now mode s b of (ret, s', b') \<Rightarrow> campaign K M as s' b')"

text \<open>
  C20: with both aliases closed to writes no attack gets through, however many are tried and in
  whatever order: the whole kernel state is exactly what it was, and the driver has counted every
  attempt (modulo the width of its counter) and recorded the last as blocked.
\<close>

theorem closed_aliases_withstand_campaign:
  assumes "kernel_mm_ok K" "aliases_ok K s" "direct_map_ok K s"
    and "mapped_ro K (mach s) (g_virt_addr (sm s))" "mapped_ro K (mach s) (g_vmalloc_addr (sm s))"
  shows "\<exists>b'. campaign K M as s b = (s, b')
    \<and> g_attack_count b' = g_attack_count b + of_nat (length as)
    \<and> (as \<noteq> [] \<longrightarrow> g_last_result b' = ''BLOCKED_EFAULT'')"
proof (induction as arbitrary: b)
  case (Cons a as)
  obtain now mode where a: "a = (now, mode)" by fastforce
  obtain ret s' b1 where r: "execute_attack K M now mode s b = (ret, s', b1)"
    by (metis prod_cases3)
  have "\<not> mapped_rw K (mach s) (attack_target K mode (sm s))"
    using assms(2-5) by (cases mode; simp add: aliases_ok_def direct_map_ok_def)
  from driver.blocked [OF assms(1) r this] have b: "s' = s" "g_last_result b1 = ''BLOCKED_EFAULT''"
    by blast+
  obtain b' where c: "campaign K M as s b1 = (s, b')"
    "g_attack_count b' = g_attack_count b1 + of_nat (length as)"
    "as \<noteq> [] \<longrightarrow> g_last_result b' = ''BLOCKED_EFAULT''"
    using Cons.IH by blast
  have "g_last_result b' = ''BLOCKED_EFAULT''" using c b by (cases "as = []") simp_all
  with a r b c driver.counts [OF r] show ?case by simp
qed simp

theorem closed_aliases_withstand_campaign_witness:
  "fst (campaign ref_kernel ref_mutex [(1, BAD_DRIVER_ATTACK_LINEAR_ALIAS), (2, BAD_DRIVER_ATTACK_VMALLOC)]
     (ref_state (\<lambda>a. True) False False 1) bad_driver_initial) = ref_state (\<lambda>a. True) False False 1"
proof -
  have "\<exists>b'. campaign ref_kernel ref_mutex
        [(1, BAD_DRIVER_ATTACK_LINEAR_ALIAS), (2, BAD_DRIVER_ATTACK_VMALLOC)]
        (ref_state (\<lambda>a. True) False False 1) bad_driver_initial = (ref_state (\<lambda>a. True) False False 1, b')
      \<and> g_attack_count b' = g_attack_count bad_driver_initial + of_nat
          (length [(1::u64, BAD_DRIVER_ATTACK_LINEAR_ALIAS), (2, BAD_DRIVER_ATTACK_VMALLOC)])
      \<and> ([(1::u64, BAD_DRIVER_ATTACK_LINEAR_ALIAS), (2, BAD_DRIVER_ATTACK_VMALLOC)] \<noteq> []
          \<longrightarrow> g_last_result b' = ''BLOCKED_EFAULT'')"
    by (rule closed_aliases_withstand_campaign [OF ref_kernel_ok]) simp_all
  then show ?thesis by (metis fst_conv)
qed

section \<open>Commands\<close>

lemma dec_nat_word: "dec_nat n \<noteq> []" "\<forall>x \<in> set (dec_nat n). \<not> c_isspace x \<and> x \<noteq> CHR 0x00"
proof -
  show "dec_nat n \<noteq> []" by (simp add: dec_nat_def)
  have "is_digit 10 x \<Longrightarrow> \<not> c_isspace x \<and> x \<noteq> CHR 0x00" for x
    by (auto simp: is_digit_def char_digit_def c_isspace_def split: if_splits)
  then show "\<forall>x \<in> set (dec_nat n). \<not> c_isspace x \<and> x \<noteq> CHR 0x00"
    using num_str_digits [OF good_digits_std(1), of n] by (auto simp: dec_nat_def)
qed

text \<open>The attack a command number selects.\<close>

definition attack_of_number :: "nat \<Rightarrow> bad_driver_attack_mode option" where
  "attack_of_number n =
     (if n = 1 then Some BAD_DRIVER_ATTACK_VMALLOC else if n = 2 then Some BAD_DRIVER_ATTACK_MUTEX_BYPASS
      else if n = 3 then Some BAD_DRIVER_ATTACK_LINEAR_ALIAS else None)"

lemma proc_write_number:
  assumes "kernel_lib_ok L" "\<forall>x \<in> set pre. c_isspace x" "\<forall>x \<in> set post. c_isspace x"
    and "n < 2 ^ 32" "length (pre @ dec_nat n @ post) < DEMO_COMMAND_BUFFER_SIZE"
  shows "bad_driver_proc_write K M L now True (pre @ dec_nat n @ post) s b =
    (case attack_of_number n of
       None \<Rightarrow> (- EINVAL, s, b)
     | Some mode \<Rightarrow>
         (int (length (pre @ dec_nat n @ post)), snd (execute_attack K M now mode s b)))"
proof -
  have w: "strim L (takeWhile (\<lambda>x. x \<noteq> CHR 0x00) (pre @ dec_nat n @ post)) = dec_nat n"
    using assms(1-3) dec_nat_word by (rule command_word)
  have num: "(of_nat n :: u32) = of_nat k \<longleftrightarrow> n = k" if "k < 2 ^ 32" for k
  proof -
    have "unat (of_nat n :: u32) = n" "unat (of_nat k :: u32) = k"
      using assms(4) that by (simp_all add: unat_of_nat take_bit_nat_eq_self)
    then show ?thesis by metis
  qed
  show ?thesis
    using assms(5) num [of 1] num [of 2] num [of 3]
    by (simp add: bad_driver_proc_write_def w kernel_lib_okD(3) [OF assms(1,4)] attack_of_number_def)
qed

text \<open>
  C34: a decimal number written to \<open>/proc/bad_driver_ts\<close>, with white space around it that fits the
  buffer, runs exactly the attack of that number (1 vmalloc, 2 mutex bypass, 3 linear map) and
  reports the whole write as consumed even when the attack was blocked; any other 32-bit number is
  \<open>-EINVAL\<close> and attacks nothing.
\<close>

theorem bad_driver_command_dispatch:
  assumes "kernel_lib_ok L" "\<forall>x \<in> set pre. c_isspace x" "\<forall>x \<in> set post. c_isspace x"
    and "n < 2 ^ 32" "length (pre @ dec_nat n @ post) < DEMO_COMMAND_BUFFER_SIZE"
  shows "bad_driver_proc_write K M L now True (pre @ dec_nat n @ post) s b =
    (case attack_of_number n of
       None \<Rightarrow> (- EINVAL, s, b)
     | Some mode \<Rightarrow>
         (int (length (pre @ dec_nat n @ post)), snd (execute_attack K M now mode s b)))"
  using assms by (rule proc_write_number)

theorem bad_driver_command_dispatch_witness:
  "fst (bad_driver_proc_write ref_kernel ref_mutex ref_lib 5 True (dec_nat 3 @ [newline])
      (ref_state (\<lambda>a. True) True False 1) bad_driver_initial) = 2"
  using bad_driver_command_dispatch [where n = 3 and pre = "[]" and post = "[newline]" and K = ref_kernel
      and M = ref_mutex and L = ref_lib and now = 5 and s = "ref_state (\<lambda>a. True) True False 1"
      and b = bad_driver_initial, OF ref_lib_ok]
  by (simp add: c_isspace_def DEMO_COMMAND_BUFFER_SIZE_def attack_of_number_def dec_nat_def num_str.simps)

end
