(* ===== verification/Smmu_Guard.thy ===== *)
theory Smmu_Guard
  imports Safety_Proc
begin

text \<open>
  \<open>src/kernel/smmu_guard/smmu_guard.c\<close>: the DMA fault logger. Its ring is a second instance of
  \<open>ring_buffer\<close>. Whether the platform device, the translation domain, the attachment and the procfs
  file can be had is the environment of init; init and exit also drive the SMMU flag of safety_mem.
\<close>

section \<open>State and logging\<close>

record smmu_fault_entry =
  smmu_timestamp_ns :: u64
  smmu_phys_addr :: u64
  smmu_size :: u64
  smmu_stream_id :: u32
  smmu_dev_name :: string
  smmu_action :: string

text \<open>The static data; the two handles only by whether they are null.\<close>

record smmu_guard_state =
  smmu_log_ring :: "smmu_fault_entry list"
  smmu_log_head :: nat
  smmu_log_count :: nat
  guard_domain :: bool
  dummy_pdev :: bool

definition zero_smmu_entry :: smmu_fault_entry where
  "zero_smmu_entry = \<lparr>smmu_timestamp_ns = 0, smmu_phys_addr = 0, smmu_size = 0, smmu_stream_id = 0,
     smmu_dev_name = [], smmu_action = []\<rparr>"

definition smmu_guard_initial :: smmu_guard_state where
  "smmu_guard_initial = \<lparr>smmu_log_ring = replicate DEMO_LOG_CAPACITY zero_smmu_entry,
     smmu_log_head = 0, smmu_log_count = 0, guard_domain = False, dummy_pdev = False\<rparr>"

text \<open>The entry the logger fills in, and its store into the ring.\<close>

definition blocked_dma_entry ::
  "kernel_lib \<Rightarrow> u64 \<Rightarrow> u64 \<Rightarrow> u64 \<Rightarrow> u32 \<Rightarrow> string option \<Rightarrow> smmu_fault_entry" where
  "blocked_dma_entry L now phys sz stream name =
     \<lparr>smmu_timestamp_ns = now, smmu_phys_addr = phys, smmu_size = sz, smmu_stream_id = stream,
      smmu_dev_name = strscpy L DEMO_DEVICE_NAME_SIZE
        (case name of Some d \<Rightarrow> d | None \<Rightarrow> ''dummy_dma_dev''),
      smmu_action = strscpy L DEMO_ACTION_NAME_SIZE ''BLOCKED''\<rparr>"

definition smmu_ring_store :: "smmu_fault_entry \<Rightarrow> smmu_guard_state \<Rightarrow> smmu_guard_state" where
  "smmu_ring_store e s =
     s\<lparr>smmu_log_ring := (smmu_log_ring s)[smmu_log_head s := e],
       smmu_log_head := (smmu_log_head s + 1) mod DEMO_LOG_CAPACITY,
       smmu_log_count := (if smmu_log_count s < DEMO_LOG_CAPACITY then smmu_log_count s + 1
                          else smmu_log_count s)\<rparr>"

definition smmu_guard_log_blocked_dma ::
  "kernel_lib \<Rightarrow> u64 \<Rightarrow> u64 \<Rightarrow> u64 \<Rightarrow> u32 \<Rightarrow> string option \<Rightarrow> smmu_guard_state \<Rightarrow> smmu_guard_state" where
  "smmu_guard_log_blocked_dma L now phys sz stream name s =
     smmu_ring_store (blocked_dma_entry L now phys sz stream name) s"

text \<open>The IOMMU's callback: time, device name and the faulting bus address come from the kernel.\<close>

definition smmu_iommu_fault_handler ::
  "'m kernel_mm \<Rightarrow> kernel_lib \<Rightarrow> u64 \<Rightarrow> string \<Rightarrow> u64 \<Rightarrow> smmu_guard_state \<Rightarrow> int \<times> smmu_guard_state" where
  "smmu_iommu_fault_handler K L now dev iova s =
     (0, smmu_guard_log_blocked_dma L now iova (PAGE_SIZE K) SMMU_DEMO_STREAM_ID (Some dev) s)"

definition smmu_log_snapshot :: "smmu_guard_state \<Rightarrow> smmu_fault_entry list" where
  "smmu_log_snapshot s =
     map (\<lambda>i. smmu_log_ring s ! (if smmu_log_count s = DEMO_LOG_CAPACITY
                                 then (smmu_log_head s + i) mod DEMO_LOG_CAPACITY else i))
       [0..<smmu_log_count s]"

definition smmu_entry_line :: "kernel_lib \<Rightarrow> smmu_fault_entry \<Rightarrow> string" where
  "smmu_entry_line L e =
     ''['' @ dec_nat (unat (smmu_timestamp_ns e)) @ ''.000] SMMU_FAULT dev='' @ smmu_dev_name e
     @ '' stream_id=0x'' @ hex_lower (unat (smmu_stream_id e)) @ '' phys=0x'' @ fmt_pa L (smmu_phys_addr e)
     @ '' size='' @ dec_nat (unat (smmu_size e)) @ '' action='' @ smmu_action e @ [newline]"

definition smmu_guard_proc_show :: "kernel_lib \<Rightarrow> bool \<Rightarrow> smmu_guard_state \<Rightarrow> int \<times> string" where
  "smmu_guard_proc_show L kmalloc_ok s =
     (if \<not> kmalloc_ok then (- ENOMEM, [])
      else (0, concat (map (smmu_entry_line L) (smmu_log_snapshot s))))"

section \<open>Module entry and exit\<close>

record smmu_env =
  pdev_ok :: bool
  domain_ok :: bool
  attach_ret :: int
  smmu_proc_ok :: bool

text \<open>The release sequence that a failed init and exit share.\<close>

definition smmu_release_calls :: "smmu_guard_state \<Rightarrow> kcall list" where
  "smmu_release_calls g =
     (if guard_domain g
      then (if dummy_pdev g then [Release IommuAttachment] else []) @ [Release IommuDomain] else [])
     @ (if dummy_pdev g then [Release (PlatformDevice ''smmu_dummy_dev'')] else [])"

definition smmu_guard_init ::
  "smmu_env \<Rightarrow> smmu_guard_state \<Rightarrow> safety_mem_state
     \<Rightarrow> int \<times> kcall list \<times> smmu_guard_state \<times> safety_mem_state" where
  "smmu_guard_init env g t =
     (let g1 = g\<lparr>dummy_pdev := pdev_ok env, guard_domain := domain_ok env\<rparr>;
          acquired = (if pdev_ok env then [Acquire (PlatformDevice ''smmu_dummy_dev'')] else [])
            @ (if domain_ok env then [Acquire IommuDomain] else [])
            @ (if domain_ok env \<and> pdev_ok env \<and> attach_ret env = 0 then [Acquire IommuAttachment]
               else [])
      in if \<not> smmu_proc_ok env then (- ENOMEM, acquired @ smmu_release_calls g1, g1, t)
         else (0, acquired @ [Acquire (ProcEntry ''smmu_guard_log'')], g1,
               safety_mem_set_smmu_active True t))"

definition smmu_guard_exit ::
  "smmu_guard_state \<Rightarrow> safety_mem_state \<Rightarrow> kcall list \<times> safety_mem_state" where
  "smmu_guard_exit g t =
     (Release (ProcEntry ''smmu_guard_log'') # smmu_release_calls g, safety_mem_set_smmu_active False t)"

section \<open>The log\<close>

definition smmu_log_wf :: "smmu_guard_state \<Rightarrow> bool" where
  "smmu_log_wf s \<longleftrightarrow> ring_wf DEMO_LOG_CAPACITY (smmu_log_ring s) (smmu_log_head s) (smmu_log_count s)"

interpretation smmu_log: ring_buffer DEMO_LOG_CAPACITY smmu_log_ring smmu_log_head smmu_log_count
    smmu_ring_store smmu_log_snapshot
  by unfold_locales
    (simp_all add: smmu_ring_store_def smmu_log_snapshot_def ring_slots_def DEMO_LOG_CAPACITY_def)

lemma smmu_log_wf_store: "smmu_log_wf s \<Longrightarrow> smmu_log_wf (smmu_ring_store e s)"
  unfolding smmu_log_wf_def by (rule smmu_log.wf_push)

lemma smmu_log_wf_initial [simp]: "smmu_log_wf smmu_guard_initial"
  by (simp add: smmu_log_wf_def ring_wf_def smmu_guard_initial_def DEMO_LOG_CAPACITY_def)

lemma smmu_log_empty_initial [simp]: "smmu_log_snapshot smmu_guard_initial = []"
  by (simp add: smmu_log_snapshot_def smmu_guard_initial_def)

text \<open>A run of IOMMU faults, each with its time, device and bus address.\<close>

definition run_dma_faults ::
  "'m kernel_mm \<Rightarrow> kernel_lib \<Rightarrow> (u64 \<times> string \<times> u64) list \<Rightarrow> smmu_guard_state \<Rightarrow> smmu_guard_state" where
  "run_dma_faults K L fs s =
     fold (\<lambda>(now, dev, iova) g. snd (smmu_iommu_fault_handler K L now dev iova g)) fs s"

lemma run_dma_faults_fold:
  "run_dma_faults K L fs s = fold smmu_ring_store
     (map (\<lambda>(now, dev, iova). blocked_dma_entry L now iova (PAGE_SIZE K) SMMU_DEMO_STREAM_ID (Some dev)) fs) s"
  by (induction fs arbitrary: s)
    (auto simp: run_dma_faults_def smmu_iommu_fault_handler_def smmu_guard_log_blocked_dma_def)

text \<open>
  After any run of IOMMU faults the log read through procfs is exactly the last 128 of them,
  oldest first, each with its bus address, one page of size, the demo's stream id, the device name
  cut to 31 characters and the action BLOCKED; the two device handles are untouched.
\<close>

theorem smmu_log_keeps_last_faults:
  assumes "kernel_lib_ok L" "smmu_log_wf s"
  shows "smmu_log_wf (run_dma_faults K L fs s)
    \<and> smmu_log_snapshot (run_dma_faults K L fs s) = take_last DEMO_LOG_CAPACITY
        (smmu_log_snapshot s @ map (\<lambda>(now, dev, iova).
           \<lparr>smmu_timestamp_ns = now, smmu_phys_addr = iova, smmu_size = PAGE_SIZE K, smmu_stream_id = 1,
            smmu_dev_name = take 31 dev, smmu_action = ''BLOCKED''\<rparr>) fs)"
proof -
  have e: "blocked_dma_entry L now iova (PAGE_SIZE K) SMMU_DEMO_STREAM_ID (Some dev)
      = \<lparr>smmu_timestamp_ns = now, smmu_phys_addr = iova, smmu_size = PAGE_SIZE K, smmu_stream_id = 1,
         smmu_dev_name = take 31 dev, smmu_action = ''BLOCKED''\<rparr>" for now dev iova
    by (simp add: blocked_dma_entry_def kernel_lib_okD(2) [OF assms(1)] buffer_size_defs
        SMMU_DEMO_STREAM_ID_def)
  show ?thesis
    using assms(2) smmu_log.invar_run smmu_log.contents_run
    unfolding smmu_log_wf_def run_dma_faults_fold e by blast
qed

theorem smmu_log_keeps_last_faults_witness:
  "smmu_log_snapshot (run_dma_faults ref_kernel ref_lib [(7, ''dev0'', 0x1000)] smmu_guard_initial)
     = [\<lparr>smmu_timestamp_ns = 7, smmu_phys_addr = 0x1000, smmu_size = 4096, smmu_stream_id = 1,
         smmu_dev_name = ''dev0'', smmu_action = ''BLOCKED''\<rparr>]"
  using smmu_log_keeps_last_faults [OF ref_lib_ok smmu_log_wf_initial, of ref_kernel "[(7, ''dev0'', 0x1000)]"]
  by (simp add: DEMO_LOG_CAPACITY_def)

section \<open>Loading and unloading\<close>

lemmas smmu_lifecycle_defs = smmu_guard_init_def smmu_guard_exit_def smmu_release_calls_def Let_def

text \<open>
  C37: loading fails only when the procfs file cannot be made, with \<open>-ENOMEM\<close> and the SMMU flag as
  it was; every other load succeeds and sets the flag, whether or not a translation domain exists,
  and unloading clears it. When an attempted attachment succeeds, a failed load and a load followed
  by an unload both return every resource.
\<close>

theorem smmu_guard_lifecycle:
  assumes "smmu_guard_init env g t = (ret, calls, g', t')"
  shows "(ret = (if smmu_proc_ok env then 0 else - ENOMEM))
    \<and> g_smmu_active t' = (if smmu_proc_ok env then 1 else g_smmu_active t)
    \<and> g_smmu_active (snd (smmu_guard_exit g' t')) = 0
    \<and> ((domain_ok env \<and> pdev_ok env \<longrightarrow> attach_ret env = 0) \<longrightarrow>
        replay h (calls @ (if ret = 0 then fst (smmu_guard_exit g' t') else [])) = Some h)"
  using assms
  by (auto simp: smmu_lifecycle_defs safety_mem_set_smmu_active_def errno_defs split: if_splits)

theorem smmu_guard_lifecycle_witness:
  "let r = smmu_guard_init \<lparr>pdev_ok = True, domain_ok = False, attach_ret = 0, smmu_proc_ok = True\<rparr>
             smmu_guard_initial safety_mem_initial
   in replay [] (fst (snd r) @ fst (smmu_guard_exit (fst (snd (snd r))) (snd (snd (snd r))))) = Some []"
proof -
  obtain ret calls g' t' where r: "smmu_guard_init
      \<lparr>pdev_ok = True, domain_ok = False, attach_ret = 0, smmu_proc_ok = True\<rparr>
      smmu_guard_initial safety_mem_initial = (ret, calls, g', t')"
    by (metis prod_cases4)
  from smmu_guard_lifecycle [OF r, of "[]"] show ?thesis unfolding r by (simp split: if_splits)
qed

text \<open>
  A refused attachment is not remembered. When the device and the domain exist but attaching
  failed, the release path, of a failed load and of an unload alike, detaches a device that was
  never attached.
\<close>

theorem smmu_detaches_unattached:
  assumes "pdev_ok env" "domain_ok env" "attach_ret env \<noteq> 0" "IommuAttachment \<notin> set h"
    and "smmu_guard_init env g t = (ret, calls, g', t')"
  shows "replay h (calls @ (if ret = 0 then fst (smmu_guard_exit g' t') else [])) = None"
  using assms by (auto simp: smmu_lifecycle_defs errno_defs split: if_splits)

theorem smmu_detaches_unattached_witness:
  "replay [] (fst (snd (smmu_guard_init
     \<lparr>pdev_ok = True, domain_ok = True, attach_ret = - 19, smmu_proc_ok = False\<rparr>
     smmu_guard_initial safety_mem_initial))) = None"
proof -
  let ?env = "\<lparr>pdev_ok = True, domain_ok = True, attach_ret = - 19, smmu_proc_ok = False\<rparr>"
  obtain ret calls g' t' where r: "smmu_guard_init ?env smmu_guard_initial safety_mem_initial
      = (ret, calls, g', t')"
    by (metis prod_cases4)
  then have "ret \<noteq> 0" by (auto simp: smmu_guard_init_def errno_defs Let_def)
  with smmu_detaches_unattached [OF _ _ _ _ r, of "[]"] r show ?thesis by simp
qed

text \<open>The module as an instance of the resource contract, for environments whose attachment works.\<close>

definition smmu_load :: "smmu_env \<Rightarrow> int \<times> kcall list" where
  "smmu_load env =
     (case smmu_guard_init env smmu_guard_initial safety_mem_initial of (r, calls, _, _) \<Rightarrow> (r, calls))"

definition smmu_unload :: "smmu_env \<Rightarrow> kcall list" where
  "smmu_unload env =
     (case smmu_guard_init env smmu_guard_initial safety_mem_initial of
        (_, _, g, t) \<Rightarrow> fst (smmu_guard_exit g t))"

interpretation smmu_module: kernel_module smmu_load smmu_unload
    "\<lambda>env. domain_ok env \<and> pdev_ok env \<longrightarrow> attach_ret env = 0"
  by unfold_locales
    (auto simp: smmu_load_def smmu_unload_def smmu_lifecycle_defs errno_defs split: if_splits)

end
