(* ===== verification/Transition.thy ===== *)
theory Transition
  imports Prelude
begin

text \<open>
  Step relations, shared by the threads of the kernel modules and the threads of the monitor. The
  locale \<open>state_machine\<close> is an invariant that every step keeps, so that it holds in every reachable
  state; \<open>finite_work\<close> adds a measure that every step lowers, so that every run from there ends;
  \<open>simulation\<close> relates a step relation to a more abstract one that may stand still.
  A thread on its own is a partial step function, and \<open>run_steps\<close> runs it.
\<close>

locale state_machine =
  fixes step :: "'s \<Rightarrow> 's \<Rightarrow> bool"
    and invar :: "'s \<Rightarrow> bool"
  assumes kept: "invar s \<Longrightarrow> step s s' \<Longrightarrow> invar s'"
begin

lemma reachable: "step\<^sup>*\<^sup>* s s' \<Longrightarrow> invar s \<Longrightarrow> invar s'"
  by (induction rule: rtranclp_induct) (auto intro: kept)

end

locale finite_work = state_machine +
  fixes left :: "'s \<Rightarrow> nat"
  assumes shrinks: "invar s \<Longrightarrow> step s s' \<Longrightarrow> left s' < left s"
begin

lemma run_bounded: "(step ^^ n) s s' \<Longrightarrow> invar s \<Longrightarrow> invar s' \<and> left s' + n \<le> left s"
proof (induction n arbitrary: s')
  case (Suc n)
  then obtain u where u: "(step ^^ n) s u" "step u s'" by auto
  from Suc.IH [OF u(1) Suc.prems(2)] kept [OF _ u(2)] shrinks [OF _ u(2)] show ?case by force
qed simp

lemma bounded_steps:
  assumes "step\<^sup>*\<^sup>* s s'" "invar s"
  obtains n where "n \<le> left s" "(step ^^ n) s s'"
  using assms run_bounded by (metis add_leD2 rtranclp_power)

text \<open>A run can always be continued to a state where nothing is left to do.\<close>

lemma runs_to_end: "invar s \<Longrightarrow> \<exists>s'. step\<^sup>*\<^sup>* s s' \<and> invar s' \<and> (\<nexists>u. step s' u)"
proof (induction "left s" arbitrary: s rule: less_induct)
  case less
  show ?case
  proof (cases "\<exists>u. step s u")
    case True
    then obtain u where u: "step s u" by blast
    from less.hyps [OF shrinks [OF less.prems u] kept [OF less.prems u]] u show ?thesis
      by (meson converse_rtranclp_into_rtranclp)
  qed (use less.prems in blast)
qed

end

locale simulation = state_machine +
  fixes abstract_step :: "'a \<Rightarrow> 'a \<Rightarrow> bool"
    and view :: "'s \<Rightarrow> 'a"
  assumes simulates: "invar s \<Longrightarrow> step s s' \<Longrightarrow> view s' = view s \<or> abstract_step (view s) (view s')"
begin

lemma refines: "step\<^sup>*\<^sup>* s s' \<Longrightarrow> invar s \<Longrightarrow> abstract_step\<^sup>*\<^sup>* (view s) (view s')"
proof (induction rule: rtranclp_induct)
  case (step u v)
  have "invar u" using reachable step.hyps(1) step.prems by blast
  from simulates [OF this step.hyps(2)] step.IH [OF step.prems] show ?case
    by (metis rtranclp.rtrancl_into_rtrancl)
qed simp

end

text \<open>Running a step function on its own: for a number of steps, or until it stops.\<close>

fun run_steps :: "nat \<Rightarrow> ('c \<Rightarrow> 'c option) \<Rightarrow> 'c \<Rightarrow> 'c option" where
  "run_steps 0 f c = Some c"
| "run_steps (Suc n) f c = (case f c of None \<Rightarrow> None | Some c' \<Rightarrow> run_steps n f c')"

lemma run_steps_add:
  "run_steps (m + n) f c = (case run_steps m f c of None \<Rightarrow> None | Some c' \<Rightarrow> run_steps n f c')"
  by (induction m arbitrary: c) (auto split: option.splits)

lemma run_steps_relpow: "((\<lambda>c c'. f c = Some c') ^^ n) c c' \<longleftrightarrow> run_steps n f c = Some c'"
proof (induction n arbitrary: c)
  case (Suc n)
  have "((\<lambda>c c'. f c = Some c') ^^ Suc n) c c' \<longleftrightarrow> (\<exists>u. f c = Some u \<and> ((\<lambda>c c'. f c = Some c') ^^ n) u c')"
    by (meson relpowp_Suc_E2 relpowp_Suc_I2)
  with Suc show ?case by (simp split: option.splits)
qed auto

fun run_until_stop :: "nat \<Rightarrow> ('c \<Rightarrow> 'c option) \<Rightarrow> 'c \<Rightarrow> 'c" where
  "run_until_stop 0 f c = c"
| "run_until_stop (Suc n) f c = (case f c of None \<Rightarrow> c | Some c' \<Rightarrow> run_until_stop n f c')"

lemma run_until_stop_stuck: "f c = None \<Longrightarrow> run_until_stop n f c = c"
  by (cases n) simp_all

end
