(* ===== verification/Lock_Discipline.thy ===== *)
theory Lock_Discipline
  imports Safety_Proc Transition
begin

text \<open>
  What every cooperative user of the safety mutex does, stated once. The abstract lock
  \<open>lock_spec_step\<close> has one task inside at most, and only the task inside changes the shared word.
  The locale \<open>lock_client\<close> is the discipline of a step function that refines it: the two threads of
  mutex_threads.c and the two locked paths of safety_mem.c are its instances.
\<close>

abbreviation owner_of :: "'m kstate \<Rightarrow> u64" where
  "owner_of k \<equiv> safety_mutex_owner (sm k)"

text \<open>A read of the shared word: 0 for a null pointer, \<open>None\<close> when the load faults.\<close>

definition read_buf :: "'m kernel_mm \<Rightarrow> 'm kstate \<Rightarrow> u32 option" where
  "read_buf K k =
     (if safety_buf_ptr (sm k) \<noteq> 0 then load32 K (safety_buf_ptr (sm k)) (mach k) else Some 0)"

definition owned_by :: "mutex_api \<Rightarrow> u64 \<Rightarrow> 'm kstate \<Rightarrow> bool" where
  "owned_by M task k \<longleftrightarrow> mutex_is_locked M (owner_of k) \<and> owner_task (owner_of k) = task"

lemma owned_unique: "owned_by M x k \<Longrightarrow> owned_by M y k \<Longrightarrow> x = y"
  by (simp add: owned_by_def)

section \<open>The abstract lock\<close>

text \<open>Who is inside, and the word the lock guards.\<close>

type_synonym lock_view = "u64 option \<times> u32 option"

inductive lock_spec_step :: "lock_view \<Rightarrow> lock_view \<Rightarrow> bool" where
  enter: "is_task x \<Longrightarrow> lock_spec_step (None, v) (Some x, v)"
| write_inside: "lock_spec_step (Some x, v) (Some x, v')"
| leave: "lock_spec_step (Some x, v) (None, v)"

inductive_simps lock_spec_free: "lock_spec_step (None, v) p"
inductive_simps lock_spec_held: "lock_spec_step (Some x, v) p"

definition lock_view_of :: "'m kernel_mm \<Rightarrow> mutex_api \<Rightarrow> 'm kstate \<Rightarrow> lock_view" where
  "lock_view_of K M k =
     (if mutex_is_locked M (owner_of k) then Some (owner_task (owner_of k)) else None, read_buf K k)"

lemma lock_view_owned: "owned_by M x k \<Longrightarrow> lock_view_of K M k = (Some x, read_buf K k)"
  by (simp add: lock_view_of_def owned_by_def)

lemma lock_view_free: "\<not> mutex_is_locked M (owner_of k) \<Longrightarrow> lock_view_of K M k = (None, read_buf K k)"
  by (simp add: lock_view_of_def)

section \<open>The discipline\<close>

text \<open>
  A step function that takes the lock only when it is free, leaves the owner word alone otherwise,
  gives the lock back when it leaves its critical section, and changes memory only inside it.
\<close>

locale lock_client =
  fixes M :: mutex_api
    and step :: "bool \<Rightarrow> 'm kstate \<times> 't \<Rightarrow> ('m kstate \<times> 't) option"
    and tid :: "'t \<Rightarrow> u64"
    and holds :: "'t \<Rightarrow> bool"
  assumes tid_kept: "step stop (k, t) = Some (k', t') \<Longrightarrow> tid t' = tid t"
    and outside: "mutex_ok M \<Longrightarrow> is_task (tid t) \<Longrightarrow> step stop (k, t) = Some (k', t') \<Longrightarrow> \<not> holds t \<Longrightarrow>
      (if holds t' then \<not> mutex_is_locked M (owner_of k) \<and> owned_by M (tid t) k'
       else owner_of k' = owner_of k)"
    and inside: "mutex_ok M \<Longrightarrow> step stop (k, t) = Some (k', t') \<Longrightarrow> holds t \<Longrightarrow>
      (if holds t' then owner_of k' = owner_of k else \<not> mutex_is_locked M (owner_of k'))"
    and memory_inside: "step stop (k, t) = Some (k', t') \<Longrightarrow> \<not> (holds t \<and> holds t') \<Longrightarrow> mach k' = mach k"
    and pointer_kept: "step stop (k, t) = Some (k', t') \<Longrightarrow> safety_buf_ptr (sm k') = safety_buf_ptr (sm k)"
begin

lemma ownership_kept:
  assumes "mutex_ok M" "is_task (tid t)" "step stop (k, t) = Some (k', t')"
    and "holds t \<longrightarrow> owned_by M (tid t) k"
  shows "holds t' \<longrightarrow> owned_by M (tid t') k'"
  using outside [OF assms(1-3)] inside [OF assms(1,3)] assms(4) tid_kept [OF assms(3)]
  by (cases "holds t") (auto simp: owned_by_def)

lemma word_kept:
  assumes "step stop (k, t) = Some (k', t')" "\<not> (holds t \<and> holds t')"
  shows "read_buf K k' = read_buf K k"
  using memory_inside [OF assms] pointer_kept [OF assms(1)] by (simp add: read_buf_def)

lemma others_undisturbed:
  assumes "mutex_ok M" "is_task (tid t)" "step stop (k, t) = Some (k', t')"
    and "holds t \<longrightarrow> owned_by M (tid t) k" and "owned_by M x k" "x \<noteq> tid t"
  shows "owned_by M x k' \<and> mach k' = mach k \<and> read_buf K k' = read_buf K k"
proof -
  have n: "\<not> holds t" using assms(4-6) owned_unique by blast
  then show ?thesis
    using outside [OF assms(1-3)] memory_inside [OF assms(3)] word_kept [OF assms(3)] assms(5)
    by (auto simp: owned_by_def split: if_splits)
qed

lemma someone_inside:
  assumes "mutex_ok M" "is_task (tid t)" "step stop (k, t) = Some (k', t')"
    and "mutex_is_locked M (owner_of k')" "\<not> holds t'"
  shows "mutex_is_locked M (owner_of k) \<and> \<not> holds t"
  using outside [OF assms(1-3)] inside [OF assms(1,3)] assms(4,5) by (cases "holds t") auto

lemma refines_lock:
  assumes "mutex_ok M" "is_task (tid t)" "step stop (k, t) = Some (k', t')"
    and "holds t \<longrightarrow> owned_by M (tid t) k"
  shows "lock_view_of K M k' = lock_view_of K M k
    \<or> lock_spec_step (lock_view_of K M k) (lock_view_of K M k')"
proof (cases "holds t")
  case True
  then have v: "lock_view_of K M k = (Some (tid t), read_buf K k)"
    using assms(4) by (simp add: lock_view_owned)
  show ?thesis
    using inside [OF assms(1,3) True] ownership_kept [OF assms] tid_kept [OF assms(3)]
      word_kept [OF assms(3)]
    by (cases "holds t'") (auto simp: v lock_spec_held lock_view_free dest: lock_view_owned)
next
  case False
  note out = outside [OF assms(1-3) False] and w = word_kept [OF assms(3), of K]
  show ?thesis
  proof (cases "holds t'")
    case True
    with out have "lock_view_of K M k = (None, read_buf K k)"
      "lock_view_of K M k' = (Some (tid t), read_buf K k')"
      by (simp_all add: lock_view_free lock_view_owned)
    with w False show ?thesis by (simp add: lock_spec_free assms(2))
  qed (use out w False in \<open>simp add: lock_view_of_def\<close>)
qed

end

end
