(* ===== verification/Mutex_Threads.thy ===== *)
theory Mutex_Threads
  imports Lock_Discipline
begin

text \<open>
  \<open>src/kernel/mutex_threads/mutex_threads.c\<close>: the safety thread A and the cooperative thread B.
  Each thread function is a step function over a program counter, one step per access to shared
  state, so that other code can run between any two of them. A step is \<open>None\<close> when the thread
  sleeps in \<open>mutex_lock\<close> or has ended; a faulting access ends the thread with its lock held. The
  locale \<open>lock_client\<close> is the lock discipline both threads follow; the cooperative system, where
  A, B and the paths of safety_mem interleave freely, is an inductive step relation.
\<close>

section \<open>State\<close>

datatype a_point = A_Start | A_Top | A_TryLock | A_Lock | A_ReadInitial | A_Hold | A_ReadCurrent
  | A_Check | A_Unlock | A_Sleep | A_Done | A_Oops

datatype b_point = B_Start | B_Top | B_Lock | B_Write | B_Unlock | B_Sleep | B_Done | B_Oops

text \<open>
  The module's static data, the two threads' locals and program counters, and the lines the module
  sent to the trace ring.
\<close>

record mutex_threads_state =
  task_a :: u64
  task_b :: u64
  violation_counter :: u32
  contention_counter :: u32
  a_pc :: a_point
  initial_val :: u32
  current_val :: u32
  b_pc :: b_point
  mt_trace :: "string list"

text \<open>The module just after \<open>kthread_run\<close> has created both tasks.\<close>

definition mutex_threads_started :: "u64 \<Rightarrow> u64 \<Rightarrow> mutex_threads_state" where
  "mutex_threads_started ta tb = \<lparr>task_a = ta, task_b = tb, violation_counter = 0,
     contention_counter = 0, a_pc = A_Start, initial_val = 0, current_val = 0, b_pc = B_Start,
     mt_trace = []\<rparr>"

type_synonym 'm mt_config = "'m kstate \<times> mutex_threads_state"

definition fmt_0x08x :: "u32 \<Rightarrow> string" where
  "fmt_0x08x v = ''0x'' @ pad0 8 (hex_lower (unat v))"

definition violation_line :: "u32 \<Rightarrow> u32 \<Rightarrow> string" where
  "violation_line v w =
     ''VIOLATION: data changed WHILE MUTEX HELD! '' @ fmt_0x08x v @ '' -> '' @ fmt_0x08x w"

section \<open>The two threads\<close>

definition safety_thread_a_fn ::
  "'m kernel_mm \<Rightarrow> mutex_api \<Rightarrow> bool \<Rightarrow> 'm mt_config \<Rightarrow> 'm mt_config option" where
  "safety_thread_a_fn K M should_stop = (\<lambda>(k, t).
     case a_pc t of
       A_Start \<Rightarrow> Some (k, t\<lparr>a_pc := A_Top,
         mt_trace := mt_trace t @ [''mutex_threads: Thread A (safety) started'']\<rparr>)
     | A_Top \<Rightarrow> Some (k, t\<lparr>a_pc := (if should_stop then A_Done else A_TryLock)\<rparr>)
     | A_TryLock \<Rightarrow>
         (case mutex_trylock M (task_a t) (owner_of k) of
            (got, ow) \<Rightarrow>
              if got then Some (set_owner ow k, t\<lparr>a_pc := A_ReadInitial\<rparr>)
              else Some (set_owner ow k,
                     t\<lparr>contention_counter := contention_counter t + 1, a_pc := A_Lock\<rparr>))
     | A_Lock \<Rightarrow>
         (case mutex_lock M (task_a t) (owner_of k) of
            None \<Rightarrow> None
          | Some ow \<Rightarrow> Some (set_owner ow k, t\<lparr>a_pc := A_ReadInitial\<rparr>))
     | A_ReadInitial \<Rightarrow>
         (case read_buf K k of
            None \<Rightarrow> Some (k, t\<lparr>a_pc := A_Oops\<rparr>)
          | Some v \<Rightarrow> Some (k, t\<lparr>initial_val := v, a_pc := A_Hold\<rparr>))
     | A_Hold \<Rightarrow> Some (k, t\<lparr>a_pc := A_ReadCurrent\<rparr>)
     | A_ReadCurrent \<Rightarrow>
         (case read_buf K k of
            None \<Rightarrow> Some (k, t\<lparr>a_pc := A_Oops\<rparr>)
          | Some v \<Rightarrow> Some (k, t\<lparr>current_val := v, a_pc := A_Check\<rparr>))
     | A_Check \<Rightarrow>
         if current_val t \<noteq> initial_val t
         then Some (k, t\<lparr>violation_counter := violation_counter t + 1, a_pc := A_Unlock,
                mt_trace := mt_trace t @ [violation_line (initial_val t) (current_val t)]\<rparr>)
         else Some (k, t\<lparr>a_pc := A_Unlock\<rparr>)
     | A_Unlock \<Rightarrow>
         Some (set_owner (mutex_unlock M (task_a t) (owner_of k)) k, t\<lparr>a_pc := A_Sleep\<rparr>)
     | A_Sleep \<Rightarrow> Some (k, t\<lparr>a_pc := A_Top\<rparr>)
     | A_Done \<Rightarrow> None
     | A_Oops \<Rightarrow> None)"

definition coop_thread_b_fn ::
  "'m kernel_mm \<Rightarrow> mutex_api \<Rightarrow> bool \<Rightarrow> 'm mt_config \<Rightarrow> 'm mt_config option" where
  "coop_thread_b_fn K M should_stop = (\<lambda>(k, t).
     case b_pc t of
       B_Start \<Rightarrow> Some (k, t\<lparr>b_pc := B_Top,
         mt_trace := mt_trace t @ [''mutex_threads: Thread B (cooperative) started'']\<rparr>)
     | B_Top \<Rightarrow> Some (k, t\<lparr>b_pc := (if should_stop then B_Done else B_Lock)\<rparr>)
     | B_Lock \<Rightarrow>
         (case mutex_lock M (task_b t) (owner_of k) of
            None \<Rightarrow> None
          | Some ow \<Rightarrow> Some (set_owner ow k, t\<lparr>b_pc := B_Write\<rparr>))
     | B_Write \<Rightarrow>
         if safety_buf_ptr (sm k) \<noteq> 0
         then (case store32 K (safety_buf_ptr (sm k)) SAFETY_SENTINEL (mach k) of
                 None \<Rightarrow> Some (k, t\<lparr>b_pc := B_Oops\<rparr>)
               | Some m' \<Rightarrow> Some (k\<lparr>mach := m'\<rparr>, t\<lparr>b_pc := B_Unlock,
                   mt_trace := mt_trace t
                     @ [''mutex_threads: Thread B restored sentinel '' @ fmt_0x08x SAFETY_SENTINEL]\<rparr>))
         else Some (k, t\<lparr>b_pc := B_Unlock\<rparr>)
     | B_Unlock \<Rightarrow>
         Some (set_owner (mutex_unlock M (task_b t) (owner_of k)) k, t\<lparr>b_pc := B_Sleep\<rparr>)
     | B_Sleep \<Rightarrow> Some (k, t\<lparr>b_pc := B_Top\<rparr>)
     | B_Done \<Rightarrow> None
     | B_Oops \<Rightarrow> None)"

section \<open>Status, entry and exit\<close>

record mutex_status_info =
  is_locked :: bool
  owner_pid :: int
  owner_name :: string
  contention_count :: u32
  violation_count :: u32

definition get_safety_mutex_status ::
  "mutex_api \<Rightarrow> kernel_lib \<Rightarrow> 'm mt_config \<Rightarrow> mutex_status_info option \<Rightarrow> mutex_status_info option" where
  "get_safety_mutex_status M L = (\<lambda>(k, t) info.
     case info of
       None \<Rightarrow> None
     | Some i \<Rightarrow>
         let locked = mutex_is_locked M (owner_of k);
             ow = owner_task (owner_of k);
             i1 = i\<lparr>is_locked := locked, contention_count := contention_counter t,
                    violation_count := violation_counter t\<rparr>
         in Some (if locked
                  then (if ow \<noteq> 0 then i1\<lparr>owner_pid := pid_of L ow, owner_name := comm_of L ow\<rparr>
                        else i1\<lparr>owner_pid := -1, owner_name := strscpy L 16 ''unknown''\<rparr>)
                  else i1\<lparr>owner_pid := 0, owner_name := strscpy L 16 ''none''\<rparr>))"

text \<open>The results of the two \<open>kthread_run\<close> calls: 0, or the error of an error pointer.\<close>

definition mutex_threads_init :: "int \<times> int \<Rightarrow> int \<times> kcall list" where
  "mutex_threads_init = (\<lambda>(err_a, err_b).
     if err_a \<noteq> 0 then (err_a, [])
     else if err_b \<noteq> 0
     then (err_b, [Acquire (Kthread ''safety_thread''), Release (Kthread ''safety_thread'')])
     else (0, [Acquire (Kthread ''safety_thread''), Acquire (Kthread ''coop_thread'')]))"

definition mutex_threads_exit :: "kcall list" where
  "mutex_threads_exit = [Release (Kthread ''safety_thread''), Release (Kthread ''coop_thread'')]"

interpretation threads_module: kernel_module mutex_threads_init "\<lambda>_. mutex_threads_exit" "\<lambda>_. True"
  by unfold_locales (auto simp: mutex_threads_init_def mutex_threads_exit_def split: if_splits)

section \<open>Both threads follow the lock discipline\<close>

definition a_holds :: "mutex_threads_state \<Rightarrow> bool" where
  "a_holds t \<longleftrightarrow> a_pc t \<in> {A_ReadInitial, A_Hold, A_ReadCurrent, A_Check, A_Unlock, A_Oops}"

definition b_holds :: "mutex_threads_state \<Rightarrow> bool" where
  "b_holds t \<longleftrightarrow> b_pc t \<in> {B_Write, B_Unlock, B_Oops}"

lemma a_step_frame:
  assumes "safety_thread_a_fn K M stop (k, t) = Some (k', t')"
  shows "task_a t' = task_a t" "task_b t' = task_b t" "b_pc t' = b_pc t" "mach k' = mach k"
    "safety_buf_ptr (sm k') = safety_buf_ptr (sm k)"
  using assms
  by (cases "a_pc t"; auto simp: safety_thread_a_fn_def split: option.splits prod.splits if_splits)+

text \<open>What thread A's locals and its counter record, by program point.\<close>

lemma a_step_values:
  assumes "safety_thread_a_fn K M stop (k, t) = Some (k', t')"
  shows "a_pc t' = A_Hold \<Longrightarrow> read_buf K k = Some (initial_val t')"
    and "a_pc t' = A_ReadCurrent \<Longrightarrow> a_pc t = A_Hold \<and> initial_val t' = initial_val t"
    and "a_pc t' = A_Check \<Longrightarrow> a_pc t = A_ReadCurrent \<and> read_buf K k = Some (current_val t')
      \<and> initial_val t' = initial_val t"
    and "violation_counter t' = (if a_pc t = A_Check \<and> current_val t \<noteq> initial_val t
      then violation_counter t + 1 else violation_counter t)"
  using assms
  by (cases "a_pc t"; auto simp: safety_thread_a_fn_def split: option.splits prod.splits if_splits)+

lemma b_step_frame:
  assumes "coop_thread_b_fn K M stop (k, t) = Some (k', t')"
  shows "task_a t' = task_a t" "task_b t' = task_b t" "a_pc t' = a_pc t"
    "initial_val t' = initial_val t" "current_val t' = current_val t"
    "violation_counter t' = violation_counter t"
    "safety_buf_ptr (sm k') = safety_buf_ptr (sm k)"
  using assms
  by (cases "b_pc t"; auto simp: coop_thread_b_fn_def split: option.splits if_splits)+

interpretation thread_a: lock_client M "safety_thread_a_fn K M" task_a a_holds for K M
proof unfold_locales
  fix stop and k k' :: "'a kstate" and t t'
  assume s: "safety_thread_a_fn K M stop (k, t) = Some (k', t')"
  show "task_a t' = task_a t" "safety_buf_ptr (sm k') = safety_buf_ptr (sm k)"
    using a_step_frame [OF s] by blast+
  show "mach k' = mach k" using a_step_frame [OF s] by blast
  show "if a_holds t' then owner_of k' = owner_of k else \<not> mutex_is_locked M (owner_of k')"
    if "mutex_ok M" "a_holds t"
    using s that
    by (cases "a_pc t"; auto simp: safety_thread_a_fn_def a_holds_def split: option.splits if_splits)
  show "if a_holds t' then \<not> mutex_is_locked M (owner_of k) \<and> owned_by M (task_a t) k'
      else owner_of k' = owner_of k"
    if "mutex_ok M" "is_task (task_a t)" "\<not> a_holds t"
    using s that mutex_lock_Some [OF that(1,2), of "owner_of k"]
    by (cases "a_pc t"; auto simp: safety_thread_a_fn_def a_holds_def owned_by_def
        mutex_trylock_eq [OF that(1)] split: option.splits if_splits)
qed

interpretation thread_b: lock_client M "coop_thread_b_fn K M" task_b b_holds for K M
proof unfold_locales
  fix stop and k k' :: "'a kstate" and t t'
  assume s: "coop_thread_b_fn K M stop (k, t) = Some (k', t')"
  show "task_b t' = task_b t" "safety_buf_ptr (sm k') = safety_buf_ptr (sm k)"
    using b_step_frame [OF s] by blast+
  show "mach k' = mach k" if "\<not> (b_holds t \<and> b_holds t')"
    using s that
    by (cases "b_pc t"; auto simp: coop_thread_b_fn_def b_holds_def split: option.splits if_splits)
  show "if b_holds t' then owner_of k' = owner_of k else \<not> mutex_is_locked M (owner_of k')"
    if "mutex_ok M" "b_holds t"
    using s that
    by (cases "b_pc t"; auto simp: coop_thread_b_fn_def b_holds_def split: option.splits if_splits)
  show "if b_holds t' then \<not> mutex_is_locked M (owner_of k) \<and> owned_by M (task_b t) k'
      else owner_of k' = owner_of k"
    if "mutex_ok M" "is_task (task_b t)" "\<not> b_holds t"
    using s that mutex_lock_Some [OF that(1,2), of "owner_of k"]
    by (cases "b_pc t"; auto simp: coop_thread_b_fn_def b_holds_def owned_by_def
        split: option.splits if_splits)
qed

section \<open>The cooperative system\<close>

text \<open>
  The threads interleave with every returning call of the toggle and of the authorized write, by
  any task.
\<close>

inductive coop_step :: "'m kernel_mm \<Rightarrow> mutex_api \<Rightarrow> 'm mt_config \<Rightarrow> 'm mt_config \<Rightarrow> bool" for K M where
  run_a: "safety_thread_a_fn K M stop c = Some c' \<Longrightarrow> coop_step K M c c'"
| run_b: "coop_thread_b_fn K M stop c = Some c' \<Longrightarrow> coop_step K M c c'"
| toggle: "is_task cur \<Longrightarrow> safety_mem_set_protection K M cur en k = Inr (ret, k')
    \<Longrightarrow> coop_step K M (k, t) (k', t)"
| safe_write: "is_task cur \<Longrightarrow> safety_mem_safe_write K M cur val k = Inr (ret, k')
    \<Longrightarrow> coop_step K M (k, t) (k', t)"

inductive_cases coop_stepE: "coop_step K M c c'"

text \<open>Ownership: two distinct tasks, and whoever is in a critical section owns the mutex.\<close>

definition lock_inv :: "mutex_api \<Rightarrow> 'm mt_config \<Rightarrow> bool" where
  "lock_inv M = (\<lambda>(k, t).
     is_task (task_a t) \<and> is_task (task_b t) \<and> task_a t \<noteq> task_b t
     \<and> (a_holds t \<longrightarrow> owned_by M (task_a t) k) \<and> (b_holds t \<longrightarrow> owned_by M (task_b t) k))"

text \<open>In addition the shared word is stable between the two reads of thread A.\<close>

definition coop_inv :: "'m kernel_mm \<Rightarrow> mutex_api \<Rightarrow> 'm mt_config \<Rightarrow> bool" where
  "coop_inv K M = (\<lambda>(k, t). lock_inv M (k, t)
     \<and> (a_pc t \<in> {A_Hold, A_ReadCurrent} \<longrightarrow> read_buf K k = Some (initial_val t))
     \<and> (a_pc t = A_Check \<longrightarrow> current_val t = initial_val t)
     \<and> violation_counter t = 0)"

lemma lock_inv_exclusive: "lock_inv M (k, t) \<Longrightarrow> \<not> (a_holds t \<and> b_holds t)"
  using owned_unique by (auto simp: lock_inv_def)

lemma lock_inv_a_step:
  assumes "mutex_ok M" "lock_inv M (k, t)" "safety_thread_a_fn K M stop (k, t) = Some (k', t')"
  shows "lock_inv M (k', t')"
proof -
  note inv = assms(2) [unfolded lock_inv_def, simplified]
  note fr = a_step_frame [OF assms(3)]
  have own: "a_holds t' \<longrightarrow> owned_by M (task_a t') k'"
    by (rule thread_a.ownership_kept [OF assms(1) _ assms(3)]) (use inv in simp_all)
  have "b_holds t' \<longrightarrow> owned_by M (task_b t') k'"
    using thread_a.others_undisturbed [OF assms(1) _ assms(3), of "task_b t"] inv fr
    by (auto simp: b_holds_def)
  with own inv fr show ?thesis by (simp add: lock_inv_def)
qed

lemma lock_inv_b_step:
  assumes "mutex_ok M" "lock_inv M (k, t)" "coop_thread_b_fn K M stop (k, t) = Some (k', t')"
  shows "lock_inv M (k', t')" and "a_holds t \<Longrightarrow> mach k' = mach k"
proof -
  note inv = assms(2) [unfolded lock_inv_def, simplified]
  note fr = b_step_frame [OF assms(3)]
  have own: "b_holds t' \<longrightarrow> owned_by M (task_b t') k'"
    by (rule thread_b.ownership_kept [OF assms(1) _ assms(3)]) (use inv in simp_all)
  have a: "owned_by M (task_a t) k' \<and> mach k' = mach k" if "a_holds t"
    using thread_b.others_undisturbed [OF assms(1) _ assms(3), of "task_a t"] inv that by simp
  then show "a_holds t \<Longrightarrow> mach k' = mach k" by blast
  from own a inv fr show "lock_inv M (k', t')" by (auto simp: lock_inv_def a_holds_def)
qed

lemma coop_inv_a_step:
  assumes "mutex_ok M" "coop_inv K M (k, t)" "safety_thread_a_fn K M stop (k, t) = Some (k', t')"
  shows "coop_inv K M (k', t')"
proof -
  note inv = assms(2) [unfolded coop_inv_def, simplified]
  have "read_buf K k' = read_buf K k" using a_step_frame [OF assms(3)] by (simp add: read_buf_def)
  then have "(a_pc t' \<in> {A_Hold, A_ReadCurrent} \<longrightarrow> read_buf K k' = Some (initial_val t'))
      \<and> (a_pc t' = A_Check \<longrightarrow> current_val t' = initial_val t') \<and> violation_counter t' = 0"
    using a_step_values [OF assms(3)] inv by auto
  with lock_inv_a_step [OF assms(1) _ assms(3)] inv show ?thesis by (simp add: coop_inv_def)
qed

lemma coop_inv_b_step:
  assumes "mutex_ok M" "coop_inv K M (k, t)" "coop_thread_b_fn K M stop (k, t) = Some (k', t')"
  shows "coop_inv K M (k', t')"
proof -
  note inv = assms(2) [unfolded coop_inv_def, simplified]
  note fr = b_step_frame [OF assms(3)] and li = lock_inv_b_step [OF assms(1) _ assms(3)]
  have "a_holds t \<Longrightarrow> read_buf K k' = read_buf K k" using li(2) inv fr by (simp add: read_buf_def)
  with li(1) inv fr show ?thesis by (auto simp: coop_inv_def a_holds_def)
qed

text \<open>A call that found the mutex free ran while neither thread was in its critical section.\<close>

lemma lock_inv_free:
  assumes "lock_inv M (k, t)" "mutex_free M k"
  shows "\<not> a_holds t" "\<not> b_holds t" "lock_inv M (k', t)"
  using assms by (auto simp: lock_inv_def owned_by_def mutex_free_def)

lemma coop_inv_free_step:
  assumes "coop_inv K M (k, t)" "mutex_free M k"
  shows "coop_inv K M (k', t)"
  using assms lock_inv_free [OF _ assms(2), of t] by (auto simp: coop_inv_def a_holds_def)

lemma safe_write_free:
  assumes "mutex_ok M" "is_task cur" "safety_mem_safe_write K M cur val k = Inr r"
  shows "mutex_free M k"
  using assms(3) mutex_lock_Some(1) [OF assms(1,2), of "owner_of k"]
  by (cases "mutex_lock M cur (owner_of k)") (simp_all add: safety_mem_safe_write_def mutex_free_def)

text \<open>Any invariant of the two thread steps that survives a call on a free mutex is kept.\<close>

lemma coop_step_invariant:
  assumes "mutex_ok M" "coop_step K M c c'" "P c"
    and "\<And>stop k t k' t'. P (k, t) \<Longrightarrow> safety_thread_a_fn K M stop (k, t) = Some (k', t') \<Longrightarrow> P (k', t')"
    and "\<And>stop k t k' t'. P (k, t) \<Longrightarrow> coop_thread_b_fn K M stop (k, t) = Some (k', t') \<Longrightarrow> P (k', t')"
    and "\<And>k t k'. P (k, t) \<Longrightarrow> mutex_free M k \<Longrightarrow> P (k', t)"
  shows "P c'"
  using assms(2)
proof (cases rule: coop_step.cases)
  case (run_a stop)
  then show ?thesis using assms(3,4) by (metis surj_pair)
next
  case (run_b stop)
  then show ?thesis using assms(3,5) by (metis surj_pair)
next
  case (toggle cur en k ret k' t)
  have "mutex_free M k" using set_protection_returns(1) [OF assms(1) toggle(3)] toggle(4) by blast
  with toggle assms(3,6) show ?thesis by blast
next
  case (safe_write cur val k ret k' t)
  have "mutex_free M k" using safe_write_free [OF assms(1) safe_write(3,4)] .
  with safe_write assms(3,6) show ?thesis by blast
qed

lemma coop_inv_step:
  "mutex_ok M \<Longrightarrow> coop_inv K M c \<Longrightarrow> coop_step K M c c' \<Longrightarrow> coop_inv K M c'"
  by (rule coop_step_invariant)
    (blast intro: coop_inv_a_step coop_inv_b_step coop_inv_free_step)+

lemma lock_inv_step:
  "mutex_ok M \<Longrightarrow> lock_inv M c \<Longrightarrow> coop_step K M c c' \<Longrightarrow> lock_inv M c'"
  by (rule coop_step_invariant [where P = "lock_inv M"])
    (blast intro: lock_inv_a_step lock_inv_b_step(1) lock_inv_free(3))+

interpretation coop_system: state_machine "coop_step K M" "\<lambda>c. mutex_ok M \<and> coop_inv K M c" for K M
  by unfold_locales (auto intro: coop_inv_step)

lemma coop_inv_started:
  "is_task ta \<Longrightarrow> is_task tb \<Longrightarrow> ta \<noteq> tb \<Longrightarrow> coop_inv K M (k, mutex_threads_started ta tb)"
  by (simp add: coop_inv_def lock_inv_def mutex_threads_started_def a_holds_def b_holds_def)

text \<open>
  As long as everyone takes the mutex, the safety thread never sees a violation. In every
  configuration reachable from the started module by any interleaving of the two threads with
  permission toggles and authorized writes by any tasks, the two critical sections are never
  entered together, whoever is inside owns the mutex, the word cannot change between the two reads
  of thread A, and the violation counter is 0.
\<close>

theorem cooperative_system_safe:
  assumes "mutex_ok M" "is_task ta" "is_task tb" "ta \<noteq> tb"
    and "(coop_step K M)\<^sup>*\<^sup>* (k, mutex_threads_started ta tb) (k', t)"
  shows "\<not> (a_holds t \<and> b_holds t)
    \<and> (a_holds t \<longrightarrow> owned_by M (task_a t) k') \<and> (b_holds t \<longrightarrow> owned_by M (task_b t) k')
    \<and> (a_pc t \<in> {A_Hold, A_ReadCurrent} \<longrightarrow> read_buf K k' = Some (initial_val t))
    \<and> violation_counter t = 0"
proof -
  have "coop_inv K M (k', t)"
    using coop_system.reachable [OF assms(5)] coop_inv_started [OF assms(2-4)] assms(1) by blast
  then show ?thesis using lock_inv_exclusive by (auto simp: coop_inv_def lock_inv_def)
qed

theorem cooperative_system_safe_witness:
  "\<exists>k t. (coop_step ref_kernel ref_mutex)\<^sup>*\<^sup>*
        (ref_state (\<lambda>a. True) True True 0, mutex_threads_started 8 16) (k, t)
      \<and> a_pc t = A_Top \<and> violation_counter t = 0"
proof -
  let ?k = "ref_state (\<lambda>a. True) True True 0" and ?t = "mutex_threads_started 8 16"
  have "is_task 16" by (simp add: is_task_def DEMO_MUTEX_OWNER_FLAGS_MASK_def)
  have ne: "(8 :: u64) \<noteq> 16" by simp
  have st: "safety_thread_a_fn ref_kernel ref_mutex False (?k, ?t)
      = Some (?k, ?t\<lparr>a_pc := A_Top, mt_trace := [''mutex_threads: Thread A (safety) started'']\<rparr>)"
    by (simp add: safety_thread_a_fn_def mutex_threads_started_def)
  then have r: "(coop_step ref_kernel ref_mutex)\<^sup>*\<^sup>* (?k, ?t)
      (?k, ?t\<lparr>a_pc := A_Top, mt_trace := [''mutex_threads: Thread A (safety) started'']\<rparr>)"
    by (intro r_into_rtranclp coop_step.run_a)
  show ?thesis
  proof (intro exI conjI)
    show "(coop_step ref_kernel ref_mutex)\<^sup>*\<^sup>* (?k, ?t)
      (?k, ?t\<lparr>a_pc := A_Top, mt_trace := [''mutex_threads: Thread A (safety) started'']\<rparr>)" by (rule r)
    show "a_pc (?t\<lparr>a_pc := A_Top, mt_trace := [''mutex_threads: Thread A (safety) started'']\<rparr>) = A_Top"
      by (cases ?t) simp
    show "violation_counter
        (?t\<lparr>a_pc := A_Top, mt_trace := [''mutex_threads: Thread A (safety) started'']\<rparr>) = 0"
      using cooperative_system_safe [OF ref_mutex_ok is_task_8 \<open>is_task 16\<close> ne r] by blast
  qed
qed

section \<open>When the page is closed under thread B\<close>

text \<open>Thread B has faulted inside its critical section.\<close>

definition b_dead :: "mutex_api \<Rightarrow> 'm mt_config \<Rightarrow> bool" where
  "b_dead M = (\<lambda>(k, t). lock_inv M (k, t) \<and> b_pc t = B_Oops)"

lemma b_dead_owned:
  assumes "b_dead M (k, t)"
  shows "owned_by M (task_b t) k" "\<not> a_holds t" "\<not> mutex_free M k"
proof -
  show o: "owned_by M (task_b t) k" using assms by (simp add: b_dead_def lock_inv_def b_holds_def)
  show "\<not> a_holds t" using assms lock_inv_exclusive [of M k t] by (auto simp: b_dead_def b_holds_def)
  from o show "\<not> mutex_free M k" by (simp add: owned_by_def mutex_free_def)
qed

lemma b_dead_step:
  assumes "mutex_ok M" "b_dead M c" "coop_step K M c c'"
  shows "b_dead M c'"
  using assms(1,3,2)
proof (rule coop_step_invariant)
  fix stop k t k' t' assume "b_dead M (k, t)" "safety_thread_a_fn K M stop (k, t) = Some (k', t')"
  then show "b_dead M (k', t')"
    using lock_inv_a_step [OF assms(1)] a_step_frame(3) by (fastforce simp: b_dead_def)
next
  fix stop k t k' t' assume "b_dead M (k, t)" "coop_thread_b_fn K M stop (k, t) = Some (k', t')"
  then show "b_dead M (k', t')" by (simp add: b_dead_def coop_thread_b_fn_def)
qed (use b_dead_owned(3) in blast)

interpretation coop_dead: state_machine "coop_step K M" "\<lambda>c. mutex_ok M \<and> b_dead M c" for K M
  by unfold_locales (auto intro: b_dead_step)

text \<open>
  C39: thread B writes through a plain store, so a read-only direct alias kills it inside its
  critical section, and its mutex dies with it: its one step from there faults, and in every
  configuration reachable afterwards the mutex is still locked, thread A is outside its critical
  section, and every call of the toggle or of the authorized write sleeps.
\<close>

theorem closed_page_kills_thread_b:
  assumes "kernel_mm_ok K" "mutex_ok M" "lock_inv M (k, t)" "b_pc t = B_Write"
    and "safety_buf_ptr (sm k) \<noteq> 0" "\<not> mapped_rw K (mach k) (safety_buf_ptr (sm k))"
    and "is_task cur"
  shows "coop_thread_b_fn K M stop (k, t) = Some (k, t\<lparr>b_pc := B_Oops\<rparr>)
    \<and> (\<forall>k' t'. (coop_step K M)\<^sup>*\<^sup>* (k, t\<lparr>b_pc := B_Oops\<rparr>) (k', t') \<longrightarrow>
         owned_by M (task_b t') k' \<and> \<not> a_holds t'
         \<and> safety_mem_set_protection K M cur en k' = Inl WouldBlock
         \<and> safety_mem_safe_write K M cur val k' = Inl WouldBlock)"
proof (intro conjI allI impI)
  have "store32 K (safety_buf_ptr (sm k)) SAFETY_SENTINEL (mach k) = None"
    using store32_None_iff [OF assms(1)] assms(6) by blast
  then show step: "coop_thread_b_fn K M stop (k, t) = Some (k, t\<lparr>b_pc := B_Oops\<rparr>)"
    using assms(4,5) by (simp add: coop_thread_b_fn_def)
  fix k' t' assume r: "(coop_step K M)\<^sup>*\<^sup>* (k, t\<lparr>b_pc := B_Oops\<rparr>) (k', t')"
  have "b_dead M (k, t\<lparr>b_pc := B_Oops\<rparr>)"
    using lock_inv_b_step(1) [OF assms(2,3) step] by (simp add: b_dead_def)
  with coop_dead.reachable [OF r] assms(2) have d: "b_dead M (k', t')" by blast
  show "owned_by M (task_b t') k'" "\<not> a_holds t'" using b_dead_owned [OF d] by blast+
  from b_dead_owned(3) [OF d] have "mutex_lock M cur (owner_of k') = None"
    using mutex_lock_None_iff [OF assms(2,7)] by (simp add: mutex_free_def)
  then show "safety_mem_set_protection K M cur en k' = Inl WouldBlock"
    "safety_mem_safe_write K M cur val k' = Inl WouldBlock"
    by (simp_all add: safety_mem_set_protection_def safety_mem_safe_write_def)
qed

theorem closed_page_kills_thread_b_witness:
  "coop_thread_b_fn ref_kernel ref_mutex False
     (set_owner 16 (ref_state (\<lambda>a. True) False False 1), (mutex_threads_started 8 16)\<lparr>b_pc := B_Write\<rparr>)
   = Some (set_owner 16 (ref_state (\<lambda>a. True) False False 1),
           (mutex_threads_started 8 16)\<lparr>b_pc := B_Oops\<rparr>)"
proof -
  let ?k = "set_owner 16 (ref_state (\<lambda>a. True) False False 1)"
    and ?t = "(mutex_threads_started 8 16)\<lparr>b_pc := B_Write\<rparr>"
  have "is_task 16" by (simp add: is_task_def DEMO_MUTEX_OWNER_FLAGS_MASK_def)
  moreover from this have "owner_task 16 = 16" by (rule owner_task_id)
  ultimately have "lock_inv ref_mutex (?k, ?t)"
    by (simp add: lock_inv_def mutex_threads_started_def a_holds_def b_holds_def owned_by_def)
  from closed_page_kills_thread_b [OF ref_kernel_ok ref_mutex_ok this _ _ _ is_task_8, of False]
  show ?thesis by (simp add: mutex_threads_started_def)
qed

section \<open>One round of thread A\<close>

text \<open>
  An undisturbed round of the safety thread ends. From the top of its loop, with the mutex free
  and the shared word readable, eight steps bring it back to the top with the mutex free again, no
  data changed, both counters as before and the word recorded in both locals.
\<close>

theorem thread_a_round_completes:
  assumes "mutex_ok M" "is_task (task_a t)" "a_pc t = A_Top" "mutex_free M k"
    and "read_buf K k = Some v"
  shows "\<exists>k'. run_steps 8 (safety_thread_a_fn K M False) (k, t)
      = Some (k', t\<lparr>initial_val := v, current_val := v\<rparr>)
    \<and> mutex_free M k' \<and> mach k' = mach k \<and> same_addrs (sm k) (sm k')
    \<and> g_ctx_protected (sm k') = g_ctx_protected (sm k)"
proof -
  obtain ow where ow: "mutex_lock M (task_a t) (owner_of k) = Some ow"
    using mutex_free_lock [OF assms(1,2)] assms(4) by (metis mutex_free_def)
  have rd: "read_buf K (set_owner x k) = Some v" for x
    using assms(5) by (simp add: read_buf_def split: if_splits)
  have "run_steps 8 (safety_thread_a_fn K M False) (k, t)
      = Some (set_owner (mutex_unlock M (task_a t) ow) (set_owner ow k),
              t\<lparr>a_pc := A_Top, initial_val := v, current_val := v\<rparr>)"
    by (simp add: eval_nat_numeral safety_thread_a_fn_def assms(3) mutex_trylock_eq [OF assms(1)] ow rd)
  moreover have "t\<lparr>a_pc := A_Top, initial_val := v, current_val := v\<rparr> = t\<lparr>initial_val := v, current_val := v\<rparr>"
    using assms(3) by (cases t) simp
  ultimately show ?thesis
    using assms(1) by (auto simp: mutex_free_def same_addrs_def)
qed

theorem thread_a_round_completes_witness:
  "\<exists>k' t'. run_steps 8 (safety_thread_a_fn ref_kernel ref_mutex False)
      (ref_state (\<lambda>a. True) True True 0, (mutex_threads_started 8 16)\<lparr>a_pc := A_Top\<rparr>) = Some (k', t')
    \<and> mutex_free ref_mutex k'"
proof -
  have "read_buf ref_kernel (ref_state (\<lambda>a. True) True True 0) = Some SAFETY_SENTINEL"
    by (simp add: read_buf_def ref_load_def ref_phys_def)
  from thread_a_round_completes [OF ref_mutex_ok _ _ _ this,
      of "(mutex_threads_started 8 16)\<lparr>a_pc := A_Top\<rparr>"]
  show ?thesis by (auto simp: mutex_threads_started_def)
qed

end
