(* ===== verification/Rogue_Thread.thy ===== *)
theory Rogue_Thread
  imports Mutex_Threads
begin

text \<open>
  \<open>src/kernel/mutex_threads/rogue_thread.c\<close>: the uncooperative thread C with its two attacks, its
  counters and its status file. Thread C is a step function like A and B; the system of all three
  threads shows what each attack breaks: the data attack breaks the word's stability but not
  mutual exclusion, the metadata attack breaks mutual exclusion itself.
\<close>

section \<open>State and thread\<close>

datatype c_point = C_Start | C_Top | C_Attack | C_Clear | C_Sleep | C_Done | C_Oops

text \<open>Module parameters and static data; the two atomic counters are 32 bits wide.\<close>

record rogue_state =
  attack_mode :: u32
  corrupt_val :: u32
  unsynchronized_write_counter :: u32
  metadata_attack_counter :: u32
  c_pc :: c_point
  c_trace :: "string list"

definition rogue_started :: "u32 \<Rightarrow> u32 \<Rightarrow> rogue_state" where
  "rogue_started mode v = \<lparr>attack_mode = mode, corrupt_val = v, unsynchronized_write_counter = 0,
     metadata_attack_counter = 0, c_pc = C_Start, c_trace = []\<rparr>"

definition rogue_status_show :: "rogue_state \<Rightarrow> int \<times> string" where
  "rogue_status_show r =
     (0, concat (map (\<lambda>l. l @ [newline])
       [''attack_mode: '' @ dec_nat (unat (attack_mode r)),
        ''unsynchronized_write_count: '' @ dec_int (sint (unsynchronized_write_counter r)),
        ''metadata_attack_count: '' @ dec_int (sint (metadata_attack_counter r))]))"

text \<open>The test of the mutex and the write of its owner field are two separate accesses.\<close>

definition rogue_thread_c_fn ::
  "'m kernel_mm \<Rightarrow> mutex_api \<Rightarrow> bool \<Rightarrow> 'm kstate \<times> rogue_state \<Rightarrow> ('m kstate \<times> rogue_state) option" where
  "rogue_thread_c_fn K M should_stop = (\<lambda>(k, r).
     case c_pc r of
       C_Start \<Rightarrow> Some (k, r\<lparr>c_pc := C_Top, c_trace := c_trace r
         @ [''rogue_thread: Rogue Thread C started (attack_mode='' @ dec_nat (unat (attack_mode r)) @ '')'']\<rparr>)
     | C_Top \<Rightarrow> Some (k, r\<lparr>c_pc := (if should_stop then C_Done else C_Attack)\<rparr>)
     | C_Attack \<Rightarrow>
         if attack_mode r = rogue_mode_value ROGUE_ATTACK_UNSYNCHRONIZED_WRITE
         then (if safety_buf_ptr (sm k) \<noteq> 0
               then (case store32 K (safety_buf_ptr (sm k)) (corrupt_val r) (mach k) of
                       None \<Rightarrow> Some (k, r\<lparr>c_pc := C_Oops\<rparr>)
                     | Some m' \<Rightarrow> Some (k\<lparr>mach := m'\<rparr>,
                         r\<lparr>unsynchronized_write_counter := unsynchronized_write_counter r + 1,
                           c_pc := C_Sleep, c_trace := c_trace r
                             @ [''rogue_thread: Unsynchronized write '' @ fmt_0x08x (corrupt_val r)
                                @ '' to safety_buf WITHOUT LOCK'']\<rparr>))
               else Some (k, r\<lparr>c_pc := C_Sleep\<rparr>))
         else if attack_mode r = rogue_mode_value ROGUE_ATTACK_MUTEX_METADATA
         then Some (k, r\<lparr>c_pc := (if mutex_is_locked M (owner_of k) then C_Clear else C_Sleep)\<rparr>)
         else Some (k, r\<lparr>c_pc := C_Sleep\<rparr>)
     | C_Clear \<Rightarrow> Some (set_owner 0 k,
         r\<lparr>metadata_attack_counter := metadata_attack_counter r + 1, c_pc := C_Sleep,
           c_trace := c_trace r
             @ [''rogue_thread: METADATA ATTACK: Cleared mutex.owner while locked!'']\<rparr>)
     | C_Sleep \<Rightarrow> Some (k, r\<lparr>c_pc := C_Top\<rparr>)
     | C_Done \<Rightarrow> None
     | C_Oops \<Rightarrow> None)"

section \<open>Entry and exit\<close>

text \<open>Whether the procfs file could be made, and the result of \<open>kthread_run\<close>.\<close>

definition rogue_thread_init :: "bool \<times> int \<Rightarrow> int \<times> kcall list" where
  "rogue_thread_init = (\<lambda>(proc_ok, err_c).
     if \<not> proc_ok then (- ENOMEM, [])
     else if err_c \<noteq> 0
     then (err_c, [Acquire (ProcEntry DEMO_ROGUE_STATUS_PROC_NAME),
                   Release (ProcEntry DEMO_ROGUE_STATUS_PROC_NAME)])
     else (0, [Acquire (ProcEntry DEMO_ROGUE_STATUS_PROC_NAME), Acquire (Kthread ''rogue_thread'')]))"

definition rogue_thread_exit :: "kcall list" where
  "rogue_thread_exit =
     [Release (Kthread ''rogue_thread''), Release (ProcEntry DEMO_ROGUE_STATUS_PROC_NAME)]"

interpretation rogue_module: kernel_module rogue_thread_init "\<lambda>_. rogue_thread_exit" "\<lambda>_. True"
  by unfold_locales (auto simp: rogue_thread_init_def rogue_thread_exit_def errno_defs split: if_splits)

section \<open>The data attack\<close>

text \<open>The shared word can be written through the pointer the threads use, and read back.\<close>

definition word_open :: "'m kernel_mm \<Rightarrow> 'm kstate \<Rightarrow> bool" where
  "word_open K k \<longleftrightarrow> safety_buf_ptr (sm k) \<noteq> 0 \<and> mapped_rw K (mach k) (safety_buf_ptr (sm k))
     \<and> phys_of K (mach k) (safety_buf_ptr (sm k)) \<noteq> None"

lemma rogue_write_step:
  assumes "kernel_mm_ok K" "word_open K k" "c_pc r = C_Attack" "attack_mode r = 0"
  shows "\<exists>k' r'. rogue_thread_c_fn K M stop (k, r) = Some (k', r')
    \<and> read_buf K k' = Some (corrupt_val r) \<and> sm k' = sm k
    \<and> unsynchronized_write_counter r' = unsynchronized_write_counter r + 1"
proof -
  let ?p = "safety_buf_ptr (sm k)"
  have p: "?p \<noteq> 0" "mapped_rw K (mach k) ?p" "same_frame K (mach k) ?p ?p"
    using assms(2) by (simp_all add: word_open_def same_frame_refl_iff)
  obtain m' where st: "store32 K ?p (corrupt_val r) (mach k) = Some m'"
    using store32_Some_iff [OF assms(1)] p(2) by blast
  have "load32 K ?p m' = Some (corrupt_val r)" using store32_load [OF assms(1) st p(3)] .
  with p(1) st assms(3,4) show ?thesis
    by (simp add: rogue_thread_c_fn_def read_buf_def)
qed

lemma thread_a_verdict:
  assumes "a_pc t = A_Hold" "read_buf K k = Some w"
  shows "run_steps 3 (safety_thread_a_fn K M False) (k, t) = Some (k,
     if w \<noteq> initial_val t
     then t\<lparr>current_val := w, violation_counter := violation_counter t + 1, a_pc := A_Unlock,
            mt_trace := mt_trace t @ [violation_line (initial_val t) w]\<rparr>
     else t\<lparr>current_val := w, a_pc := A_Unlock\<rparr>)"
  using assms by (simp add: eval_nat_numeral safety_thread_a_fn_def)

text \<open>
  C19: an unsynchronized write inside the hold window is detected, and only by its value. When
  thread C writes between the two reads of thread A, A's next three steps count a violation and
  trace the old and the new value exactly when C's value differs from what A first read; a rogue
  write of the value already there goes unnoticed although it is counted by C.
\<close>

theorem rogue_write_detected_iff_changed:
  assumes "kernel_mm_ok K" "word_open K k" "a_pc t = A_Hold"
    and "c_pc r = C_Attack" "attack_mode r = 0"
  shows "\<exists>k' r' t'. rogue_thread_c_fn K M stop (k, r) = Some (k', r')
    \<and> run_steps 3 (safety_thread_a_fn K M False) (k', t) = Some (k', t')
    \<and> unsynchronized_write_counter r' = unsynchronized_write_counter r + 1
    \<and> read_buf K k' = Some (corrupt_val r)
    \<and> (if corrupt_val r \<noteq> initial_val t
       then violation_counter t' = violation_counter t + 1
          \<and> mt_trace t' = mt_trace t @ [violation_line (initial_val t) (corrupt_val r)]
       else violation_counter t' = violation_counter t \<and> mt_trace t' = mt_trace t)"
proof -
  obtain k' r' where c: "rogue_thread_c_fn K M stop (k, r) = Some (k', r')"
    "read_buf K k' = Some (corrupt_val r)"
    "unsynchronized_write_counter r' = unsynchronized_write_counter r + 1"
    using rogue_write_step [OF assms(1,2,4,5)] by blast
  from thread_a_verdict [OF assms(3) c(2), of M] c show ?thesis by simp
qed

lemma ref_word_open [simp]: "word_open ref_kernel (ref_state acc True v f)"
  by (simp add: word_open_def ref_phys_def)

theorem rogue_write_detected_iff_changed_witness:
  "\<exists>k' r' t'. rogue_thread_c_fn ref_kernel ref_mutex False (ref_state (\<lambda>a. True) True True 0,
        (rogue_started 0 CORRUPT_SENTINEL)\<lparr>c_pc := C_Attack\<rparr>) = Some (k', r')
     \<and> run_steps 3 (safety_thread_a_fn ref_kernel ref_mutex False)
         (k', (mutex_threads_started 8 16)\<lparr>a_pc := A_Hold, initial_val := SAFETY_SENTINEL\<rparr>) = Some (k', t')
     \<and> violation_counter t' = 1"
  using rogue_write_detected_iff_changed [where M = ref_mutex and stop = False
      and k = "ref_state (\<lambda>a. True) True True 0" and r = "(rogue_started 0 CORRUPT_SENTINEL)\<lparr>c_pc := C_Attack\<rparr>"
      and t = "(mutex_threads_started 8 16)\<lparr>a_pc := A_Hold, initial_val := SAFETY_SENTINEL\<rparr>",
      OF ref_kernel_ok]
  by (auto simp: rogue_started_def mutex_threads_started_def sentinel_defs)

section \<open>The metadata attack\<close>

text \<open>
  C18: the metadata attack breaks mutual exclusion. With thread A inside its critical section and
  thread B waiting for the mutex, two steps of thread C in mode 1 clear the owner word and count one
  attack, and then B's pending acquisition succeeds: both threads are inside their critical sections
  together, with the mutex recorded as B's.
\<close>

theorem metadata_attack_breaks_exclusion:
  assumes "mutex_ok M" "lock_inv M (k, t)" "a_holds t" "b_pc t = B_Lock"
    and "c_pc r = C_Attack" "attack_mode r = 1"
  shows "coop_thread_b_fn K M stop (k, t) = None
    \<and> (\<exists>k' r' k'' t'. run_steps 2 (rogue_thread_c_fn K M False) (k, r) = Some (k', r')
         \<and> metadata_attack_counter r' = metadata_attack_counter r + 1
         \<and> coop_thread_b_fn K M stop (k', t) = Some (k'', t')
         \<and> a_holds t' \<and> b_holds t' \<and> owned_by M (task_b t) k'')"
proof -
  have own: "owned_by M (task_a t) k" and tb: "is_task (task_b t)"
    using assms(2,3) by (simp_all add: lock_inv_def)
  have locked: "mutex_is_locked M (owner_of k)" using own by (simp add: owned_by_def)
  then have "mutex_lock M (task_b t) (owner_of k) = None"
    using mutex_lock_None_iff [OF assms(1) tb] by simp
  then have "coop_thread_b_fn K M stop (k, t) = None"
    using assms(4) by (simp add: coop_thread_b_fn_def)
  moreover obtain r' where c: "run_steps 2 (rogue_thread_c_fn K M False) (k, r) = Some (set_owner 0 k, r')"
    "metadata_attack_counter r' = metadata_attack_counter r + 1"
    using locked assms(5,6) by (simp add: eval_nat_numeral rogue_thread_c_fn_def)
  moreover obtain ow where ow: "mutex_lock M (task_b t) 0 = Some ow" "mutex_is_locked M ow"
    "owner_task ow = task_b t"
    using mutex_free_lock [OF assms(1) tb mutex_cleared_free [OF assms(1)]] by blast
  moreover have "coop_thread_b_fn K M stop (set_owner 0 k, t)
      = Some (set_owner ow (set_owner 0 k), t\<lparr>b_pc := B_Write\<rparr>)"
    using assms(4) ow(1) by (simp add: coop_thread_b_fn_def)
  moreover have "a_holds (t\<lparr>b_pc := B_Write\<rparr>)" "b_holds (t\<lparr>b_pc := B_Write\<rparr>)"
    using assms(3) by (simp_all add: a_holds_def b_holds_def)
  ultimately show ?thesis by (auto simp: owned_by_def)
qed

theorem metadata_attack_breaks_exclusion_witness:
  "\<exists>k' r' k'' t'. run_steps 2 (rogue_thread_c_fn ref_kernel ref_mutex False)
        (set_owner 8 (ref_state (\<lambda>a. True) True True 0),
         (rogue_started 1 CORRUPT_SENTINEL)\<lparr>c_pc := C_Attack\<rparr>) = Some (k', r')
     \<and> coop_thread_b_fn ref_kernel ref_mutex False
         (k', (mutex_threads_started 8 16)\<lparr>a_pc := A_Hold, b_pc := B_Lock\<rparr>) = Some (k'', t')
     \<and> a_holds t' \<and> b_holds t'"
proof -
  let ?k = "set_owner 8 (ref_state (\<lambda>a. True) True True 0)"
    and ?t = "(mutex_threads_started 8 16)\<lparr>a_pc := A_Hold, b_pc := B_Lock\<rparr>"
    and ?r = "(rogue_started 1 CORRUPT_SENTINEL)\<lparr>c_pc := C_Attack\<rparr>"
  have "is_task 16" by (simp add: is_task_def DEMO_MUTEX_OWNER_FLAGS_MASK_def)
  then have l: "lock_inv ref_mutex (?k, ?t)"
    using owner_task_id [OF is_task_8]
    by (simp add: lock_inv_def mutex_threads_started_def a_holds_def b_holds_def owned_by_def)
  have h: "a_holds ?t" "b_pc ?t = B_Lock" "c_pc ?r = C_Attack" "attack_mode ?r = 1"
    by (simp_all add: a_holds_def mutex_threads_started_def rogue_started_def)
  from metadata_attack_breaks_exclusion [OF ref_mutex_ok l h, of ref_kernel False]
  show ?thesis by blast
qed

section \<open>All three threads\<close>

type_synonym 'm rogue_config = "'m kstate \<times> mutex_threads_state \<times> rogue_state"

inductive rogue_step :: "'m kernel_mm \<Rightarrow> mutex_api \<Rightarrow> 'm rogue_config \<Rightarrow> 'm rogue_config \<Rightarrow> bool" for K M where
  cooperative: "coop_step K M (k, t) (k', t') \<Longrightarrow> rogue_step K M (k, t, r) (k', t', r)"
| run_c: "rogue_thread_c_fn K M stop (k, r) = Some (k', r') \<Longrightarrow> rogue_step K M (k, t, r) (k', t, r')"

inductive_cases rogue_stepE: "rogue_step K M (k, t, r) c'"

text \<open>What thread C keeps in the data mode: its mode, and every owner word.\<close>

lemma rogue_data_step:
  assumes "rogue_thread_c_fn K M stop (k, r) = Some (k', r')" "attack_mode r = 0" "c_pc r \<noteq> C_Clear"
  shows "attack_mode r' = 0" "c_pc r' \<noteq> C_Clear" "owner_of k' = owner_of k"
  using assms
  by (cases "c_pc r"; auto simp: rogue_thread_c_fn_def split: option.splits if_splits)+

definition rogue_data_inv :: "mutex_api \<Rightarrow> 'm rogue_config \<Rightarrow> bool" where
  "rogue_data_inv M = (\<lambda>(k, t, r).
     mutex_ok M \<and> lock_inv M (k, t) \<and> attack_mode r = 0 \<and> c_pc r \<noteq> C_Clear)"

interpretation rogue_data: state_machine "rogue_step K M" "rogue_data_inv M" for K M
proof
  fix c c' assume i: "rogue_data_inv M c" and s: "rogue_step K M c c'"
  from s show "rogue_data_inv M c'"
  proof (cases rule: rogue_step.cases)
    case (cooperative k t k' t' r)
    with i show ?thesis by (auto simp: rogue_data_inv_def intro: lock_inv_step)
  next
    case (run_c stop k r k' r' t)
    with i show ?thesis
      using rogue_data_step [of K M stop k r k' r']
      by (simp add: rogue_data_inv_def lock_inv_def owned_by_def)
  qed
qed

text \<open>
  The data attack defeats the threads' data but not their mutex. With thread C in mode 0, in
  every configuration of the three threads and the paths of safety_mem reachable from the start,
  the critical sections of A and B still exclude each other and whoever is inside owns the mutex.
\<close>

theorem data_attack_keeps_exclusion:
  assumes "mutex_ok M" "is_task ta" "is_task tb" "ta \<noteq> tb"
    and "(rogue_step K M)\<^sup>*\<^sup>* (k, mutex_threads_started ta tb, rogue_started 0 v) (k', t, r)"
  shows "\<not> (a_holds t \<and> b_holds t)
    \<and> (a_holds t \<longrightarrow> owned_by M (task_a t) k') \<and> (b_holds t \<longrightarrow> owned_by M (task_b t) k')"
proof -
  have "lock_inv M (k, mutex_threads_started ta tb)"
    using coop_inv_started [OF assms(2-4), of K M k] by (simp add: coop_inv_def)
  then have "lock_inv M (k', t)"
    using rogue_data.reachable [OF assms(5)] assms(1) by (simp add: rogue_started_def rogue_data_inv_def)
  then show ?thesis using lock_inv_exclusive by (auto simp: lock_inv_def)
qed

theorem data_attack_keeps_exclusion_witness:
  "\<exists>r. (rogue_step ref_kernel ref_mutex)\<^sup>*\<^sup>*
        (ref_state (\<lambda>a. True) True True 0, mutex_threads_started 8 16, rogue_started 0 CORRUPT_SENTINEL)
        (ref_state (\<lambda>a. True) True True 0, mutex_threads_started 8 16, r)
      \<and> c_pc r = C_Top \<and> \<not> (a_holds (mutex_threads_started 8 16) \<and> b_holds (mutex_threads_started 8 16))"
proof -
  have 16: "is_task 16" by (simp add: is_task_def DEMO_MUTEX_OWNER_FLAGS_MASK_def)
  have ne: "(8 :: u64) \<noteq> 16" by simp
  obtain r where "rogue_thread_c_fn ref_kernel ref_mutex False
      (ref_state (\<lambda>a. True) True True 0, rogue_started 0 CORRUPT_SENTINEL)
      = Some (ref_state (\<lambda>a. True) True True 0, r)" and r: "c_pc r = C_Top"
    by (simp add: rogue_thread_c_fn_def rogue_started_def)
  then have "(rogue_step ref_kernel ref_mutex)\<^sup>*\<^sup>*
      (ref_state (\<lambda>a. True) True True 0, mutex_threads_started 8 16, rogue_started 0 CORRUPT_SENTINEL)
      (ref_state (\<lambda>a. True) True True 0, mutex_threads_started 8 16, r)"
    by (intro r_into_rtranclp rogue_step.run_c)
  from this data_attack_keeps_exclusion [OF ref_mutex_ok is_task_8 16 ne this] r
  show ?thesis by blast
qed

end
