(* ===== verification/Locked_Paths.thy ===== *)
theory Locked_Paths
  imports Lock_Discipline
begin

text \<open>
  The two locked paths of \<open>src/kernel/safety_mem/safety_mem.c\<close> at the grain at which other code can
  run between their accesses: \<open>safety_mem_safe_write\<close> and \<open>safety_mem_set_protection\<close> as step
  functions, one step per call or access. Run alone they are the atomic definitions of
  \<open>Safety_Mem\<close>, and both are instances of the lock discipline.
\<close>

section \<open>The authorized write, step by step\<close>

datatype w_point = W_Lock | W_Test | W_OpenDirect | W_OpenVmalloc | W_Store | W_CloseDirect
  | W_CloseVmalloc | W_Unlock | W_Done | W_Oops

record write_call =
  w_task :: u64
  w_val :: u32
  w_pc :: w_point
  was_ro :: bool

definition safe_write_called :: "u64 \<Rightarrow> u32 \<Rightarrow> write_call" where
  "safe_write_called cur val = \<lparr>w_task = cur, w_val = val, w_pc = W_Lock, was_ro = False\<rparr>"

definition safe_write_step ::
  "'m kernel_mm \<Rightarrow> mutex_api \<Rightarrow> 'm kstate \<times> write_call \<Rightarrow> ('m kstate \<times> write_call) option" where
  "safe_write_step K M = (\<lambda>(k, w).
     case w_pc w of
       W_Lock \<Rightarrow>
         (case mutex_lock M (w_task w) (owner_of k) of
            None \<Rightarrow> None
          | Some ow \<Rightarrow> Some (set_owner ow k, w\<lparr>w_pc := W_Test\<rparr>))
     | W_Test \<Rightarrow>
         Some (k, w\<lparr>was_ro := safety_mem_is_protected (sm k),
                    w_pc := (if safety_mem_is_protected (sm k) then W_OpenDirect else W_Store)\<rparr>)
     | W_OpenDirect \<Rightarrow>
         Some (k\<lparr>mach := snd (set_memory_rw K (g_virt_addr (sm k)) 1 (mach k))\<rparr>,
               w\<lparr>w_pc := W_OpenVmalloc\<rparr>)
     | W_OpenVmalloc \<Rightarrow>
         Some (if g_vmalloc_addr (sm k) \<noteq> 0
               then k\<lparr>mach := snd (set_memory_rw K (g_vmalloc_addr (sm k)) 1 (mach k))\<rparr> else k,
               w\<lparr>w_pc := W_Store\<rparr>)
     | W_Store \<Rightarrow>
         (case (if g_virt_addr (sm k) \<noteq> 0 then store32 K (g_virt_addr (sm k)) (w_val w) (mach k)
                else Some (mach k)) of
            None \<Rightarrow> Some (k, w\<lparr>w_pc := W_Oops\<rparr>)
          | Some m' \<Rightarrow> Some (k\<lparr>mach := m'\<rparr>,
              w\<lparr>w_pc := (if was_ro w then W_CloseDirect else W_Unlock)\<rparr>))
     | W_CloseDirect \<Rightarrow>
         Some (k\<lparr>mach := snd (set_memory_ro K (g_virt_addr (sm k)) 1 (mach k))\<rparr>,
               w\<lparr>w_pc := W_CloseVmalloc\<rparr>)
     | W_CloseVmalloc \<Rightarrow>
         Some (if g_vmalloc_addr (sm k) \<noteq> 0
               then k\<lparr>mach := snd (set_memory_ro K (g_vmalloc_addr (sm k)) 1 (mach k))\<rparr> else k,
               w\<lparr>w_pc := W_Unlock\<rparr>)
     | W_Unlock \<Rightarrow>
         Some (set_owner (mutex_unlock M (w_task w) (owner_of k)) k, w\<lparr>w_pc := W_Done\<rparr>)
     | W_Done \<Rightarrow> None
     | W_Oops \<Rightarrow> None)"

definition w_holds :: "write_call \<Rightarrow> bool" where
  "w_holds w \<longleftrightarrow> w_pc w \<notin> {W_Lock, W_Done}"

section \<open>The permission toggle, step by step\<close>

datatype p_point = P_Lock | P_Range | P_Direct | P_Vmalloc | P_Flag | P_Unlock | P_Done

record toggle_call =
  p_task :: u64
  enable_ro :: bool
  p_pc :: p_point
  ret_virt :: int
  ret_vmalloc :: int

definition set_protection_called :: "u64 \<Rightarrow> bool \<Rightarrow> toggle_call" where
  "set_protection_called cur en =
     \<lparr>p_task = cur, enable_ro = en, p_pc = P_Lock, ret_virt = 0, ret_vmalloc = 0\<rparr>"

definition set_protection_step ::
  "'m kernel_mm \<Rightarrow> mutex_api \<Rightarrow> 'm kstate \<times> toggle_call \<Rightarrow> ('m kstate \<times> toggle_call) option" where
  "set_protection_step K M = (\<lambda>(k, p).
     let virt = g_virt_addr (sm k); vm = g_vmalloc_addr (sm k);
         set_memory = (if enable_ro p then set_memory_ro K else set_memory_rw K)
     in case p_pc p of
       P_Lock \<Rightarrow>
         (case mutex_lock M (p_task p) (owner_of k) of
            None \<Rightarrow> None
          | Some ow \<Rightarrow> Some (set_owner ow k, p\<lparr>p_pc := P_Range\<rparr>))
     | P_Range \<Rightarrow>
         Some (k\<lparr>cm := (if enable_ro p then ctx_monitor_set_protected_range virt (virt + PAGE_SIZE K) (cm k)
                        else ctx_monitor_set_protected_range 0 0 (cm k))\<rparr>, p\<lparr>p_pc := P_Direct\<rparr>)
     | P_Direct \<Rightarrow>
         (case set_memory virt 1 (mach k) of
            (ret, m') \<Rightarrow> Some (k\<lparr>mach := m'\<rparr>, p\<lparr>ret_virt := ret, p_pc := P_Vmalloc\<rparr>))
     | P_Vmalloc \<Rightarrow>
         if vm \<noteq> 0
         then (case set_memory vm 1 (mach k) of
                 (ret, m') \<Rightarrow> Some (k\<lparr>mach := m'\<rparr>, p\<lparr>ret_vmalloc := ret, p_pc := P_Flag\<rparr>))
         else Some (k, p\<lparr>p_pc := P_Flag\<rparr>)
     | P_Flag \<Rightarrow>
         (let mapping = safety_mem_walk_pgtable K (mach k) vm;
              prot = (if enable_ro p \<and> ret_vmalloc p = 0 \<and> is_valid mapping \<and> \<not> is_writable mapping
                      then 1 else 0)
          in Some (k\<lparr>sm := (sm k)\<lparr>g_ctx_protected := prot\<rparr>\<rparr>, p\<lparr>p_pc := P_Unlock\<rparr>))
     | P_Unlock \<Rightarrow>
         Some (set_owner (mutex_unlock M (p_task p) (owner_of k)) k, p\<lparr>p_pc := P_Done\<rparr>)
     | P_Done \<Rightarrow> None)"

definition p_holds :: "toggle_call \<Rightarrow> bool" where
  "p_holds p \<longleftrightarrow> p_pc p \<notin> {P_Lock, P_Done}"

definition toggle_result :: "toggle_call \<Rightarrow> int" where
  "toggle_result p = (if ret_vmalloc p \<noteq> 0 then ret_vmalloc p else ret_virt p)"

section \<open>Run alone, the steps are the atomic paths\<close>

text \<open>What a step does at each point.\<close>

lemma write_at:
  "w_pc w = W_Lock \<Longrightarrow> mutex_lock M (w_task w) (owner_of k) = Some ow \<Longrightarrow>
     safe_write_step K M (k, w) = Some (set_owner ow k, w\<lparr>w_pc := W_Test\<rparr>)"
  "w_pc w = W_Test \<Longrightarrow> safety_mem_is_protected (sm k) \<Longrightarrow>
     safe_write_step K M (k, w) = Some (k, w\<lparr>was_ro := True, w_pc := W_OpenDirect\<rparr>)"
  "w_pc w = W_Test \<Longrightarrow> \<not> safety_mem_is_protected (sm k) \<Longrightarrow>
     safe_write_step K M (k, w) = Some (k, w\<lparr>was_ro := False, w_pc := W_Store\<rparr>)"
  "w_pc w = W_OpenDirect \<Longrightarrow> safe_write_step K M (k, w)
     = Some (k\<lparr>mach := snd (set_memory_rw K (g_virt_addr (sm k)) 1 (mach k))\<rparr>, w\<lparr>w_pc := W_OpenVmalloc\<rparr>)"
  "w_pc w = W_OpenVmalloc \<Longrightarrow> safe_write_step K M (k, w)
     = Some (k\<lparr>mach := if g_vmalloc_addr (sm k) \<noteq> 0
               then snd (set_memory_rw K (g_vmalloc_addr (sm k)) 1 (mach k)) else mach k\<rparr>, w\<lparr>w_pc := W_Store\<rparr>)"
  "w_pc w = W_CloseDirect \<Longrightarrow> safe_write_step K M (k, w)
     = Some (k\<lparr>mach := snd (set_memory_ro K (g_virt_addr (sm k)) 1 (mach k))\<rparr>, w\<lparr>w_pc := W_CloseVmalloc\<rparr>)"
  "w_pc w = W_CloseVmalloc \<Longrightarrow> safe_write_step K M (k, w)
     = Some (k\<lparr>mach := if g_vmalloc_addr (sm k) \<noteq> 0
               then snd (set_memory_ro K (g_vmalloc_addr (sm k)) 1 (mach k)) else mach k\<rparr>, w\<lparr>w_pc := W_Unlock\<rparr>)"
  "w_pc w = W_Unlock \<Longrightarrow> safe_write_step K M (k, w)
     = Some (set_owner (mutex_unlock M (w_task w) (owner_of k)) k, w\<lparr>w_pc := W_Done\<rparr>)"
  "w_pc w = W_Done \<Longrightarrow> safe_write_step K M (k, w) = None"
  "w_pc w = W_Oops \<Longrightarrow> safe_write_step K M (k, w) = None"
  by (simp_all add: safe_write_step_def)

lemma write_at_store:
  assumes "w_pc w = W_Store"
    and "(if g_virt_addr (sm k) \<noteq> 0 then store32 K (g_virt_addr (sm k)) (w_val w) (mach k)
          else Some (mach k)) = r"
  shows "safe_write_step K M (k, w) = (case r of
       None \<Rightarrow> Some (k, w\<lparr>w_pc := W_Oops\<rparr>)
     | Some m' \<Rightarrow> Some (k\<lparr>mach := m'\<rparr>, w\<lparr>w_pc := (if was_ro w then W_CloseDirect else W_Unlock)\<rparr>))"
  using assms by (simp add: safe_write_step_def)

text \<open>From the first test to the store, and from the store to the end.\<close>

lemma write_opens:
  assumes "w_pc w = W_Test"
  shows "\<exists>n \<le> 3. \<forall>j. run_until_stop (n + j) (safe_write_step K M) (k, w) =
    run_until_stop j (safe_write_step K M)
      (k\<lparr>mach := safe_write_machine K k\<rparr>, w\<lparr>was_ro := safety_mem_is_protected (sm k), w_pc := W_Store\<rparr>)"
proof (cases "safety_mem_is_protected (sm k)")
  case True
  have "run_until_stop (3 + j) (safe_write_step K M) (k, w) =
    run_until_stop j (safe_write_step K M)
      (k\<lparr>mach := safe_write_machine K k\<rparr>, w\<lparr>was_ro := safety_mem_is_protected (sm k), w_pc := W_Store\<rparr>)" for j
    using True assms by (simp add: eval_nat_numeral write_at safe_write_machine_def make_aliases_rw_def Let_def)
  then show ?thesis by blast
next
  case False
  have "run_until_stop (1 + j) (safe_write_step K M) (k, w) =
    run_until_stop j (safe_write_step K M)
      (k\<lparr>mach := safe_write_machine K k\<rparr>, w\<lparr>was_ro := safety_mem_is_protected (sm k), w_pc := W_Store\<rparr>)" for j
    using False assms by (simp add: write_at safe_write_machine_def)
  then show ?thesis by (intro exI [of _ 1]) simp
qed

lemma write_finishes:
  assumes "w_pc w = W_Store" "4 \<le> n"
    and "(if g_virt_addr (sm k) \<noteq> 0 then store32 K (g_virt_addr (sm k)) (w_val w) (mach k)
          else Some (mach k)) = Some m"
  shows "run_until_stop n (safe_write_step K M) (k, w) =
    (set_owner (mutex_unlock M (w_task w) (owner_of k))
       (k\<lparr>mach := if was_ro w then make_aliases_ro K (sm k) m else m\<rparr>), w\<lparr>w_pc := W_Done\<rparr>)"
proof -
  obtain j where n: "n = Suc (Suc (Suc (Suc j)))"
    using assms(2) that [of "n - 4"] by simp
  have stuck: "run_until_stop i (safe_write_step K M) (k', w\<lparr>w_pc := W_Done\<rparr>) = (k', w\<lparr>w_pc := W_Done\<rparr>)" for i k'
    by (rule run_until_stop_stuck) (simp add: write_at)
  show ?thesis
    unfolding n
    by (cases "was_ro w") (simp_all add: write_at write_at_store [OF assms(1,3)] stuck make_aliases_ro_def Let_def)
qed

lemma safe_write_machine_owner: "safe_write_machine K (set_owner ow k) = safe_write_machine K k"
  by (simp add: safe_write_machine_def make_aliases_rw_def Let_def)

lemma set_owner_mach: "set_owner ow (k\<lparr>mach := m\<rparr>) = (set_owner ow k)\<lparr>mach := m\<rparr>"
  by (cases k) (simp add: set_owner_def)

lemma safe_write_eq:
  assumes "mutex_lock M cur (owner_of k) = Some ow"
  shows "safety_mem_safe_write K M cur val k =
    (case (if g_virt_addr (sm k) \<noteq> 0 then store32 K (g_virt_addr (sm k)) val (safe_write_machine K k)
           else Some (safe_write_machine K k)) of
       None \<Rightarrow> Inl KernelOops
     | Some m \<Rightarrow> Inr (0, set_owner (mutex_unlock M cur ow)
         (k\<lparr>mach := if safety_mem_is_protected (sm k) then make_aliases_ro K (sm k) m else m\<rparr>)))"
  using assms by (auto simp: safety_mem_safe_write_def safe_write_machine_def Let_def split: option.splits)

lemma write_reaches_store:
  assumes "mutex_lock M cur (owner_of k) = Some ow"
  obtains n where "4 \<le> n" "run_until_stop 8 (safe_write_step K M) (k, safe_write_called cur val) =
    run_until_stop n (safe_write_step K M) (set_owner ow (k\<lparr>mach := safe_write_machine K k\<rparr>),
      \<lparr>w_task = cur, w_val = val, w_pc = W_Store, was_ro = safety_mem_is_protected (sm k)\<rparr>)"
proof -
  let ?f = "safe_write_step K M" and ?k = "set_owner ow k"
  let ?w = "\<lparr>w_task = cur, w_val = val, w_pc = W_Test, was_ro = False\<rparr>"
  have t: "w_pc ?w = W_Test" by simp
  obtain n where n: "n \<le> 3" "\<forall>j. run_until_stop (n + j) ?f (?k, ?w) =
      run_until_stop j ?f (?k\<lparr>mach := safe_write_machine K ?k\<rparr>,
        ?w\<lparr>was_ro := safety_mem_is_protected (sm ?k), w_pc := W_Store\<rparr>)"
    using write_opens [OF t, of K M ?k] by blast
  have "run_until_stop 8 ?f (k, safe_write_called cur val) = run_until_stop 7 ?f (?k, ?w)"
    using assms by (simp add: eval_nat_numeral write_at safe_write_called_def)
  also have "\<dots> = run_until_stop (7 - n) ?f (set_owner ow (k\<lparr>mach := safe_write_machine K k\<rparr>),
      \<lparr>w_task = cur, w_val = val, w_pc = W_Store, was_ro = safety_mem_is_protected (sm k)\<rparr>)"
    using n(2) [THEN spec, of "7 - n"] n(1) by (simp add: safe_write_machine_owner set_owner_mach)
  finally show ?thesis using that [of "7 - n"] n(1) by simp
qed

lemma write_faults:
  assumes "w_pc w = W_Store" "0 < n"
    and "(if g_virt_addr (sm k) \<noteq> 0 then store32 K (g_virt_addr (sm k)) (w_val w) (mach k)
          else Some (mach k)) = None"
  shows "run_until_stop n (safe_write_step K M) (k, w) = (k, w\<lparr>w_pc := W_Oops\<rparr>)"
  using assms(2) write_at_store [OF assms(1,3)]
  by (cases n) (simp_all add: run_until_stop_stuck write_at)

text \<open>The outcome of the atomic path, as the state of the stepwise call it corresponds to.\<close>

definition safe_write_ends ::
  "kstop + int \<times> 'm kstate \<Rightarrow> 'm kstate \<Rightarrow> 'm kstate \<times> write_call \<Rightarrow> bool" where
  "safe_write_ends r k = (\<lambda>(k', w').
     case r of
       Inl WouldBlock \<Rightarrow> k' = k \<and> w_pc w' = W_Lock
     | Inl KernelOops \<Rightarrow> w_pc w' = W_Oops
     | Inr (ret, k'') \<Rightarrow> ret = 0 \<and> k' = k'' \<and> w_pc w' = W_Done)"


lemma set_protection_run:
  assumes "mutex_lock M cur (owner_of k) = Some ow"
    and "safety_mem_set_protection K M cur en k = Inr (ret, k')"
  shows "\<exists>p. run_until_stop 6 (set_protection_step K M) (k, set_protection_called cur en) = (k', p)
    \<and> p_pc p = P_Done \<and> toggle_result p = ret"
proof -
  let ?set = "if en then set_memory_ro K else set_memory_rw K"
  obtain rv m1 where v: "?set (g_virt_addr (sm k)) 1 (mach k) = (rv, m1)" by fastforce
  obtain rm m2 where m: "?set (g_vmalloc_addr (sm k)) 1 m1 = (rm, m2)" by fastforce
  show ?thesis
    using assms v m
    by (cases k; cases en; cases "g_vmalloc_addr (sm k) = 0")
      (auto simp: eval_nat_numeral set_protection_step_def set_protection_called_def toggle_result_def
        safety_mem_set_protection_def enable_protection_def disable_protection_def set_owner_def Let_def)
qed

text \<open>
  So is the permission toggle. Run alone, six steps of \<open>safety_mem_set_protection\<close> lead exactly
  where the atomic definition leads: nowhere when it sleeps, and otherwise to its kernel state with
  its return value.
\<close>

theorem set_protection_steps_atomic:
  "case run_until_stop 6 (set_protection_step K M) (k, set_protection_called cur en) of
     (k', p) \<Rightarrow>
       (case safety_mem_set_protection K M cur en k of
          Inl stop \<Rightarrow> stop = WouldBlock \<and> k' = k \<and> p_pc p = P_Lock
        | Inr (ret, k'') \<Rightarrow> k' = k'' \<and> p_pc p = P_Done \<and> toggle_result p = ret)"
proof (cases "mutex_lock M cur (owner_of k)")
  case None
  then have "set_protection_step K M (k, set_protection_called cur en) = None"
    by (simp add: set_protection_step_def set_protection_called_def)
  with None show ?thesis
    by (simp add: run_until_stop_stuck safety_mem_set_protection_def set_protection_called_def)
next
  case (Some ow)
  obtain rv rm k1 where "(if en then enable_protection K (set_owner ow k)
      else disable_protection K (set_owner ow k)) = (rv, rm, k1)"
    by (metis prod_cases3)
  then obtain ret k' where r: "safety_mem_set_protection K M cur en k = Inr (ret, k')"
    using Some by (simp add: safety_mem_set_protection_def)
  from set_protection_run [OF Some this] r show ?thesis by auto
qed

section \<open>Both paths follow the lock discipline\<close>

interpretation writer: lock_client M "\<lambda>_. safe_write_step K M" w_task w_holds for K M
proof unfold_locales
  fix k k' :: "'a kstate" and w w'
  assume s: "safe_write_step K M (k, w) = Some (k', w')"
  show "w_task w' = w_task w" "safety_buf_ptr (sm k') = safety_buf_ptr (sm k)"
    using s by (cases "w_pc w"; auto simp: safe_write_step_def split: option.splits if_splits)+
  show "mach k' = mach k" if "\<not> (w_holds w \<and> w_holds w')"
    using s that
    by (cases "w_pc w"; auto simp: safe_write_step_def w_holds_def split: option.splits if_splits)
  show "if w_holds w' then owner_of k' = owner_of k else \<not> mutex_is_locked M (owner_of k')"
    if "mutex_ok M" "w_holds w"
    using s that
    by (cases "w_pc w"; auto simp: safe_write_step_def w_holds_def split: option.splits if_splits)
  show "if w_holds w' then \<not> mutex_is_locked M (owner_of k) \<and> owned_by M (w_task w) k'
      else owner_of k' = owner_of k"
    if "mutex_ok M" "is_task (w_task w)" "\<not> w_holds w"
    using s that mutex_lock_Some [OF that(1,2), of "owner_of k"]
    by (cases "w_pc w"; auto simp: safe_write_step_def w_holds_def owned_by_def
        split: option.splits if_splits)
qed

interpretation toggler: lock_client M "\<lambda>_. set_protection_step K M" p_task p_holds for K M
proof unfold_locales
  fix k k' :: "'a kstate" and p p'
  assume s: "set_protection_step K M (k, p) = Some (k', p')"
  show "p_task p' = p_task p" "safety_buf_ptr (sm k') = safety_buf_ptr (sm k)"
    using s by (cases "p_pc p"; auto simp: set_protection_step_def Let_def split: option.splits prod.splits if_splits)+
  show "mach k' = mach k" if "\<not> (p_holds p \<and> p_holds p')"
    using s that
    by (cases "p_pc p"; auto simp: set_protection_step_def p_holds_def Let_def
        split: option.splits prod.splits if_splits)
  show "if p_holds p' then owner_of k' = owner_of k else \<not> mutex_is_locked M (owner_of k')"
    if "mutex_ok M" "p_holds p"
    using s that
    by (cases "p_pc p"; auto simp: set_protection_step_def p_holds_def Let_def
        split: option.splits prod.splits if_splits)
  show "if p_holds p' then \<not> mutex_is_locked M (owner_of k) \<and> owned_by M (p_task p) k'
      else owner_of k' = owner_of k"
    if "mutex_ok M" "is_task (p_task p)" "\<not> p_holds p"
    using s that mutex_lock_Some [OF that(1,2), of "owner_of k"]
    by (cases "p_pc p"; auto simp: set_protection_step_def p_holds_def owned_by_def Let_def
        split: option.splits prod.splits if_splits)
qed

end
