(* ===== verification/Write_Window.thy ===== *)
theory Write_Window
  imports Locked_Paths Bad_Driver
begin

text \<open>
  The authorized write of \<open>src/kernel/safety_mem/safety_mem.c\<close> against the attack simulator of
  \<open>src/kernel/bad_driver/bad_driver.c\<close>, which takes no mutex: attacks run between any two accesses of
  a protected write. Outside the window in which the write has the page open no attack succeeds;
  inside it the attack on the vmalloc alias does, and the write then closes the page over it.
\<close>

section \<open>What the kernel is relied on for\<close>

text \<open>
  \<open>settable\<close>: both permission calls succeed on a mapped address; \<open>set_memory_monotone\<close>: a call that
  closes one mapping opens none and a call that opens one mapping closes none.
\<close>

definition settable :: "'m kernel_mm \<Rightarrow> u64 \<Rightarrow> bool" where
  "settable K a \<longleftrightarrow> (\<forall>m. is_valid (safety_mem_walk_pgtable K m a) \<longrightarrow>
     fst (set_memory_ro K a 1 m) = 0 \<and> fst (set_memory_rw K a 1 m) = 0)"

definition set_memory_monotone :: "'m kernel_mm \<Rightarrow> bool" where
  "set_memory_monotone K \<longleftrightarrow> (\<forall>a b m.
     (is_writable (safety_mem_walk_pgtable K (snd (set_memory_ro K a 1 m)) b)
        \<longrightarrow> is_writable (safety_mem_walk_pgtable K m b))
   \<and> (is_writable (safety_mem_walk_pgtable K m b)
        \<longrightarrow> is_writable (safety_mem_walk_pgtable K (snd (set_memory_rw K a 1 m)) b)))"

lemma closed_stays_closed:
  assumes "kernel_mm_ok K" "set_memory_monotone K" "mapped_ro K m b"
  shows "mapped_ro K (snd (set_memory_ro K a 1 m)) b"
  using assms unfolding set_memory_monotone_def by (auto simp: mm_rules)

lemma open_stays_open:
  assumes "kernel_mm_ok K" "set_memory_monotone K" "mapped_rw K m b"
  shows "mapped_rw K (snd (set_memory_rw K a 1 m)) b"
  using assms unfolding set_memory_monotone_def by (auto simp: mm_rules)

lemma settable_closes:
  assumes "kernel_mm_ok K" "settable K a" "is_valid (safety_mem_walk_pgtable K m a)"
  shows "mapped_ro K (snd (set_memory_ro K a 1 m)) a"
  by (rule set_memory_success_perm(1) [OF assms(1)]) (use assms(2,3) in \<open>simp add: settable_def\<close>)

lemma settable_opens:
  assumes "kernel_mm_ok K" "settable K a" "is_valid (safety_mem_walk_pgtable K m a)"
  shows "mapped_rw K (snd (set_memory_rw K a 1 m)) a"
  by (rule set_memory_success_perm(2) [OF assms(1)]) (use assms(2,3) in \<open>simp add: settable_def\<close>)

section \<open>A write under attack\<close>

type_synonym 'm window_config = "'m kstate \<times> write_call \<times> bad_driver_state"

inductive window_step :: "'m kernel_mm \<Rightarrow> mutex_api \<Rightarrow> 'm window_config \<Rightarrow> 'm window_config \<Rightarrow> bool" for K M where
  writer_runs: "safe_write_step K M (k, w) = Some (k', w') \<Longrightarrow> window_step K M (k, w, b) (k', w', b)"
| attack_runs: "execute_attack K M now mode k b = (ret, k', b') \<Longrightarrow> window_step K M (k, w, b) (k', w, b')"

text \<open>The points of a write at which the page may be open; a faulted write leaves it so.\<close>

definition in_window :: "write_call \<Rightarrow> bool" where
  "in_window w \<longleftrightarrow> w_pc w \<in> {W_OpenVmalloc, W_Store, W_CloseDirect, W_CloseVmalloc, W_Oops}"

abbreviation both_closed :: "'m kernel_mm \<Rightarrow> 'm kstate \<Rightarrow> bool" where
  "both_closed K k \<equiv> mapped_ro K (mach k) (g_virt_addr (sm k)) \<and> mapped_ro K (mach k) (g_vmalloc_addr (sm k))"

definition window_inv :: "'m kernel_mm \<Rightarrow> 'm window_config \<Rightarrow> bool" where
  "window_inv K = (\<lambda>(k, w, b).
     kernel_mm_ok K \<and> set_memory_monotone K
     \<and> settable K (g_virt_addr (sm k)) \<and> settable K (g_vmalloc_addr (sm k))
     \<and> aliases_ok K k \<and> direct_map_ok K k \<and> safety_mem_is_protected (sm k)
     \<and> (w_pc w \<in> {W_OpenDirect, W_OpenVmalloc, W_Store} \<longrightarrow> was_ro w)
     \<and> (w_pc w = W_CloseVmalloc \<longrightarrow> mapped_ro K (mach k) (g_virt_addr (sm k)))
     \<and> (\<not> in_window w \<longrightarrow> both_closed K k))"

lemma attack_keeps_inv:
  assumes "window_inv K (k, w, b)" "execute_attack K M now mode k b = (ret, k', b')"
  shows "window_inv K (k', w, b')"
proof -
  have ok: "kernel_mm_ok K" using assms(1) by (simp add: window_inv_def)
  have "sm k' = sm k" using driver.is_copy [OF assms(2)] by blast
  with assms(1) driver.permissions_kept [OF ok assms(2)] driver.honest_kept(2) [OF ok assms(2)] show ?thesis
    by (simp add: window_inv_def direct_map_ok_def)
qed

lemma closed_withstands:
  assumes "kernel_mm_ok K" "aliases_ok K k" "direct_map_ok K k" "both_closed K k"
    and "execute_attack K M now mode k b = (ret, k', b')"
  shows "ret = - EFAULT \<and> k' = k \<and> g_last_result b' = ''BLOCKED_EFAULT''"
proof -
  have "\<not> mapped_rw K (mach k) (attack_target K mode (sm k))"
    using assms(2-4) by (cases mode; simp add: aliases_ok_def direct_map_ok_def)
  from driver.blocked [OF assms(1,5) this] show ?thesis .
qed

text \<open>What no step of the write touches.\<close>

lemma write_step_frame:
  assumes "safe_write_step K M (k, w) = Some (k', w')"
  shows "g_virt_addr (sm k') = g_virt_addr (sm k)" "g_vmalloc_addr (sm k') = g_vmalloc_addr (sm k)"
    "g_phys_addr (sm k') = g_phys_addr (sm k)" "g_ctx_protected (sm k') = g_ctx_protected (sm k)"
    "kernel_mm_ok K \<Longrightarrow> same_frame K (mach k') a b = same_frame K (mach k) a b"
  using assms
  by (cases "w_pc w"; auto simp: safe_write_step_def mm_rules split: option.splits if_splits)+

lemma write_step_points:
  assumes "safe_write_step K M (k, w) = Some (k', w')" "safety_mem_is_protected (sm k)"
    and "w_pc w \<in> {W_OpenDirect, W_OpenVmalloc, W_Store} \<longrightarrow> was_ro w"
  shows "w_pc w' \<in> {W_OpenDirect, W_OpenVmalloc, W_Store} \<longrightarrow> was_ro w'"
    "w_pc w' = W_CloseVmalloc \<longrightarrow> w_pc w = W_CloseDirect"
    "\<not> in_window w' \<longrightarrow> w_pc w = W_CloseVmalloc \<or> \<not> in_window w \<and> mach k' = mach k"
  using assms
  by (cases "w_pc w"; auto simp: safe_write_step_def in_window_def split: option.splits if_splits)+

lemma write_keeps_inv:
  assumes "window_inv K (k, w, b)" "safe_write_step K M (k, w) = Some (k', w')"
  shows "window_inv K (k', w', b)"
proof -
  note inv = assms(1) [unfolded window_inv_def prod.case]
  note frame = write_step_frame [OF assms(2)]
  have prot: "safety_mem_is_protected (sm k)" and ro: "w_pc w \<in> {W_OpenDirect, W_OpenVmalloc, W_Store} \<longrightarrow> was_ro w"
    and ok: "kernel_mm_ok K" "set_memory_monotone K" "settable K (g_virt_addr (sm k))" "settable K (g_vmalloc_addr (sm k))"
    and al: "aliases_ok K k" "direct_map_ok K k" "g_vmalloc_addr (sm k) \<noteq> 0"
    using inv by (blast, blast, blast, blast, blast, blast, blast, blast) (use inv in \<open>simp add: aliases_ok_def\<close>)
  note points = write_step_points [OF assms(2) prot ro]
  have va: "is_valid (safety_mem_walk_pgtable K (mach k) (g_virt_addr (sm k)))"
    "is_valid (safety_mem_walk_pgtable K (mach k) (g_vmalloc_addr (sm k)))"
    using al by (simp_all add: aliases_ok_def same_frame_def)
  have "mapped_ro K (mach k') (g_virt_addr (sm k))" if "w_pc w' = W_CloseVmalloc"
    using points(2) that assms(2) settable_closes [OF ok(1,3) va(1)] by (auto simp: write_at)
  moreover have "both_closed K k'" if n: "\<not> in_window w'"
  proof (cases "w_pc w = W_CloseVmalloc")
    case True
    then have m: "mach k' = snd (set_memory_ro K (g_vmalloc_addr (sm k)) 1 (mach k))"
      and d: "mapped_ro K (mach k) (g_virt_addr (sm k))"
      using assms(2) al(3) inv by (auto simp: write_at)
    from settable_closes [OF ok(1,4) va(2)] closed_stays_closed [OF ok(1,2) d] show ?thesis
      unfolding m frame by blast
  next
    case False
    then have "\<not> in_window w" "mach k' = mach k" using points(3) n by blast+
    with inv frame show ?thesis by simp
  qed
  ultimately show ?thesis
    using ok al prot points(1) frame
    by (simp add: window_inv_def aliases_ok_def direct_map_ok_def safety_mem_is_protected_def)
qed

interpretation window: state_machine "window_step K M" "window_inv K" for K M
proof
  fix c c' assume i: "window_inv K c" and s: "window_step K M c c'"
  from s i show "window_inv K c'"
    by (cases rule: window_step.cases) (blast intro: write_keeps_inv attack_keeps_inv)+
qed


section \<open>The race\<close>

lemma window_run:
  "run_steps n (safe_write_step K M) (k, w) = Some (k', w') \<Longrightarrow> (window_step K M)\<^sup>*\<^sup>* (k, w, b) (k', w', b)"
proof (induction n arbitrary: k w)
  case (Suc n)
  then obtain k1 w1 where s: "safe_write_step K M (k, w) = Some (k1, w1)"
    "run_steps n (safe_write_step K M) (k1, w1) = Some (k', w')"
    by (auto split: option.splits)
  from window_step.writer_runs [OF s(1)] Suc.IH [OF s(2)] show ?case
    by (rule converse_rtranclp_into_rtranclp)
qed simp

text \<open>A protected write up to just after its store, and from there to its end.\<close>

lemma write_to_store:
  assumes "mutex_lock M cur (owner_of k) = Some ow" "safety_mem_is_protected (sm k)" "g_virt_addr (sm k) \<noteq> 0"
    and "store32 K (g_virt_addr (sm k)) val (safe_write_machine K k) = Some m"
  shows "run_steps 5 (safe_write_step K M) (k, safe_write_called cur val)
    = Some (set_owner ow (k\<lparr>mach := m\<rparr>),
        \<lparr>w_task = cur, w_val = val, w_pc = W_CloseDirect, was_ro = True\<rparr>)"
proof -
  let ?w = "\<lparr>w_task = cur, w_val = val, w_pc = W_Store, was_ro = True\<rparr>"
    and ?k = "(set_owner ow k)\<lparr>mach := safe_write_machine K k\<rparr>"
  have "run_steps 4 (safe_write_step K M) (k, safe_write_called cur val) = Some (?k, ?w)"
    using assms(1-3)
    by (simp add: eval_nat_numeral write_at safe_write_called_def safe_write_machine_def
        make_aliases_rw_def Let_def)
  moreover have "safe_write_step K M (?k, ?w) = Some (?k\<lparr>mach := m\<rparr>, ?w\<lparr>w_pc := W_CloseDirect\<rparr>)"
    using assms(3,4) write_at_store [of ?w ?k K "Some m" M] by simp
  ultimately show ?thesis
    using run_steps_add [of 4 1 "safe_write_step K M" "(k, safe_write_called cur val)"] by (simp add: set_owner_mach)
qed

lemma write_from_store:
  assumes "w_pc w = W_CloseDirect" "g_vmalloc_addr (sm k) \<noteq> 0"
  shows "run_steps 3 (safe_write_step K M) (k, w)
    = Some (set_owner (mutex_unlock M (w_task w) (owner_of k)) (k\<lparr>mach := make_aliases_ro K (sm k) (mach k)\<rparr>),
        w\<lparr>w_pc := W_Done\<rparr>)"
  using assms by (simp add: eval_nat_numeral write_at make_aliases_ro_def Let_def)

text \<open>Opening both aliases under protection makes the store possible and leaves both open.\<close>

lemma opened_for_store:
  assumes "kernel_mm_ok K" "set_memory_monotone K" "aliases_ok K k" "safety_mem_is_protected (sm k)"
    and "settable K (g_virt_addr (sm k))" "settable K (g_vmalloc_addr (sm k))"
  obtains m where "store32 K (g_virt_addr (sm k)) val (safe_write_machine K k) = Some m"
    "mapped_rw K m (g_vmalloc_addr (sm k))" "same_frame K m (g_virt_addr (sm k)) (g_vmalloc_addr (sm k))"
proof -
  let ?v = "g_virt_addr (sm k)" and ?a = "g_vmalloc_addr (sm k)"
  let ?m1 = "snd (set_memory_rw K ?v 1 (mach k))"
  let ?m2 = "snd (set_memory_rw K ?a 1 ?m1)"
  have fr: "same_frame K (mach k) ?v ?a" and nz: "?a \<noteq> 0" using assms(3) by (simp_all add: aliases_ok_def)
  have va: "is_valid (safety_mem_walk_pgtable K (mach k) ?v)" "is_valid (safety_mem_walk_pgtable K ?m1 ?a)"
    using fr assms(1) by (simp_all add: same_frame_def mm_rules)
  have w: "safe_write_machine K k = ?m2"
    using assms(4) nz by (simp add: safe_write_machine_def make_aliases_rw_def)
  have "mapped_rw K ?m2 ?v"
    by (rule open_stays_open [OF assms(1,2) settable_opens [OF assms(1,5) va(1)]])
  then obtain m where m: "store32 K ?v val ?m2 = Some m" using store32_Some_iff [OF assms(1)] by blast
  have "mapped_rw K ?m2 ?a" by (rule settable_opens [OF assms(1,6) va(2)])
  then have "mapped_rw K m ?a" by (simp add: store32_tables [OF assms(1) m])
  moreover have "same_frame K m ?v ?a"
    using fr by (simp add: same_frame_store [OF assms(1) m] mm_rules assms(1))
  ultimately show ?thesis using that m w by simp
qed

lemma closing_closes:
  assumes "kernel_mm_ok K" "set_memory_monotone K" "same_frame K m (g_virt_addr t) (g_vmalloc_addr t)"
    and "settable K (g_virt_addr t)" "settable K (g_vmalloc_addr t)" "g_vmalloc_addr t \<noteq> 0"
  shows "mapped_ro K (make_aliases_ro K t m) (g_virt_addr t)"
    and "mapped_ro K (make_aliases_ro K t m) (g_vmalloc_addr t)"
    and "load32 K x (make_aliases_ro K t m) = load32 K x m"
proof -
  let ?m1 = "snd (set_memory_ro K (g_virt_addr t) 1 m)"
  have m: "make_aliases_ro K t m = snd (set_memory_ro K (g_vmalloc_addr t) 1 ?m1)"
    using assms(6) by (simp add: make_aliases_ro_def)
  have va: "is_valid (safety_mem_walk_pgtable K m (g_virt_addr t))"
    "is_valid (safety_mem_walk_pgtable K ?m1 (g_vmalloc_addr t))"
    using assms(1,3) by (simp_all add: same_frame_def mm_rules)
  show "mapped_ro K (make_aliases_ro K t m) (g_virt_addr t)"
    unfolding m by (rule closed_stays_closed [OF assms(1,2) settable_closes [OF assms(1,4) va(1)]])
  show "mapped_ro K (make_aliases_ro K t m) (g_vmalloc_addr t)"
    unfolding m by (rule settable_closes [OF assms(1,5) va(2)])
  show "load32 K x (make_aliases_ro K t m) = load32 K x m"
    unfolding m using assms(1) by (simp add: mm_rules)
qed

text \<open>An attack through an open vmalloc alias, and what it leaves.\<close>

lemma open_alias_attacked:
  assumes "kernel_mm_ok K" "aliases_ok K k" "direct_map_ok K k" "mapped_rw K (mach k) (g_vmalloc_addr (sm k))"
  obtains k' b' where "window_step K M (k, w, b) (k', w, b')" "g_last_result b' = ''SUCCESS_UNPROTECTED''"
    "sm k' = sm k" "same_frame K (mach k') (g_virt_addr (sm k)) (g_vmalloc_addr (sm k))"
    "load32 K (g_virt_addr (sm k)) (mach k') = Some BAD_DRIVER_VMALLOC_VALUE"
    "load32 K (g_vmalloc_addr (sm k)) (mach k') = Some BAD_DRIVER_VMALLOC_VALUE"
proof -
  obtain ret k' b' where at: "execute_attack K M 0 BAD_DRIVER_ATTACK_VMALLOC k b = (ret, k', b')"
    by (metis prod_cases3)
  have sm: "sm k' = sm k" using driver.is_copy [OF at] by blast
  have w: "is_writable (safety_mem_walk_pgtable K (mach k) (attack_target K BAD_DRIVER_ATTACK_VMALLOC (sm k)))"
    using assms(2,4) by (simp add: aliases_ok_def)
  have "g_last_result b' = ''SUCCESS_UNPROTECTED''"
    using execute_attack_report [OF assms(1-3) at] assms(4) by (simp add: vault_of_def)
  moreover have "same_frame K (mach k') (g_virt_addr (sm k)) (g_vmalloc_addr (sm k))"
    using driver.honest_kept(2) [OF assms(1) at] assms(2) sm by (simp add: aliases_ok_def)
  moreover note sm attack_stored [OF assms(1-3) at w, simplified]
  ultimately show ?thesis using that [OF window_step.attack_runs [OF at]] by blast
qed


section \<open>A kernel that satisfies the hypotheses\<close>

text \<open>The reference kernel, with permission calls that accept every mapped address.\<close>

definition willing_kernel :: "ref_machine kernel_mm" where
  "willing_kernel = ref_kernel\<lparr>
     set_memory_ro := (\<lambda>a n m. ref_set_memory False a n (m\<lparr>rm_accepts := \<lambda>_. True\<rparr>)),
     set_memory_rw := (\<lambda>a n m. ref_set_memory True a n (m\<lparr>rm_accepts := \<lambda>_. True\<rparr>))\<rparr>"

lemma willing_walk [simp]: "safety_mem_walk_pgtable willing_kernel = safety_mem_walk_pgtable ref_kernel"
  by (intro ext) (simp add: safety_mem_walk_pgtable_def willing_kernel_def Let_def)

lemma willing_sel [simp]:
  "load32 willing_kernel = ref_load" "store32 willing_kernel = ref_store" "phys_of willing_kernel = ref_phys"
  "phys_to_virt willing_kernel = (\<lambda>pa. pa)"
  "set_memory_ro willing_kernel a n m = ref_set_memory False a n (m\<lparr>rm_accepts := \<lambda>_. True\<rparr>)"
  "set_memory_rw willing_kernel a n m = ref_set_memory True a n (m\<lparr>rm_accepts := \<lambda>_. True\<rparr>)"
  "copy_to_kernel_nofault willing_kernel = copy_to_kernel_nofault ref_kernel"
  "copy_from_kernel_nofault willing_kernel = copy_from_kernel_nofault ref_kernel"
  by (simp_all add: willing_kernel_def)

lemma willing_kernel_ok: "kernel_mm_ok willing_kernel"
proof -
  have "set_memory_effect willing_kernel"
    by (auto simp: set_memory_effect_def ref_set_memory_def ref_load_def ref_phys_def errno_defs
        split: option.splits if_splits)
  then show ?thesis
    using kernel_mm_okD [OF ref_kernel_ok]
    by (simp add: kernel_mm_ok_def stores_obey_tables_def stores_keep_tables_def stores_visible_def
        same_frame_def loads_need_valid_def nofault_copies_def)
qed

lemma willing_kernel_settable: "settable willing_kernel a" "set_memory_monotone willing_kernel"
  by (auto simp: settable_def set_memory_monotone_def ref_set_memory_def split: option.splits if_splits)

lemma willing_state:
  "aliases_ok willing_kernel (ref_state acc d v f)" "direct_map_ok willing_kernel (ref_state acc d v f)"
  "\<not> d \<Longrightarrow> \<not> v \<Longrightarrow> both_closed willing_kernel (ref_state acc d v f)"
  by (simp_all add: aliases_ok_def direct_map_ok_def same_frame_def ref_phys_def)



end
