(* ===== verification/Procfs.thy ===== *)
theory Procfs
  imports Bad_Driver Smmu_Guard Rogue_Thread Write_Window
begin

text \<open>
  The procfs files of the five modules that have one: the open functions and operation tables that
  connect a file to its show and write handlers, the modes the files are created with, and the state
  of all modules together. What a user can do to the kernel through these files, together with the
  calls the modules make to each other, is the step relation \<open>module_step\<close>; it keeps every module's
  state well typed.
\<close>

section \<open>The state of all modules\<close>

record 'm module_states =
  ms_kernel :: "'m kstate"
  ms_driver :: bad_driver_state
  ms_guard :: smmu_guard_state
  ms_rogue :: rogue_state

section \<open>Files\<close>

text \<open>
  \<open>single_open\<close> binds a file to its show function: a read returns that function's result and text.
  A file without a write handler cannot be written.
\<close>

record 'm proc_ops =
  proc_open :: "'m module_states \<Rightarrow> int \<times> string"
  proc_write :: "(bool \<Rightarrow> string \<Rightarrow> 'm module_states \<Rightarrow> kstop + int \<times> 'm module_states) option"

definition safety_mem_proc_open ::
  "'m kernel_mm \<Rightarrow> mutex_api \<Rightarrow> kernel_lib \<Rightarrow> 'm module_states \<Rightarrow> int \<times> string" where
  "safety_mem_proc_open K M L s = safety_mem_proc_show K M L (ms_kernel s)"

definition ctx_monitor_proc_open :: "bool \<Rightarrow> 'm module_states \<Rightarrow> int \<times> string" where
  "ctx_monitor_proc_open kmalloc_ok s = ctx_monitor_proc_show kmalloc_ok (cm (ms_kernel s))"

definition smmu_guard_proc_open :: "kernel_lib \<Rightarrow> bool \<Rightarrow> 'm module_states \<Rightarrow> int \<times> string" where
  "smmu_guard_proc_open L kmalloc_ok s = smmu_guard_proc_show L kmalloc_ok (ms_guard s)"

definition bad_driver_proc_open :: "'m module_states \<Rightarrow> int \<times> string" where
  "bad_driver_proc_open s = bad_driver_proc_show (ms_driver s)"

text \<open>The operation tables; the task that writes and the time are those of the call.\<close>

definition safety_mem_proc_ops :: "'m kernel_mm \<Rightarrow> mutex_api \<Rightarrow> kernel_lib \<Rightarrow> u64 \<Rightarrow> 'm proc_ops" where
  "safety_mem_proc_ops K M L cur = \<lparr>proc_open = safety_mem_proc_open K M L,
     proc_write = Some (\<lambda>copied buf s.
       case safety_mem_proc_write K M L cur copied buf (ms_kernel s) of
         Inl e \<Rightarrow> Inl e | Inr (ret, k) \<Rightarrow> Inr (ret, s\<lparr>ms_kernel := k\<rparr>))\<rparr>"

definition ctx_monitor_proc_ops :: "bool \<Rightarrow> 'm proc_ops" where
  "ctx_monitor_proc_ops kmalloc_ok = \<lparr>proc_open = ctx_monitor_proc_open kmalloc_ok, proc_write = None\<rparr>"

definition smmu_guard_proc_ops :: "kernel_lib \<Rightarrow> bool \<Rightarrow> 'm proc_ops" where
  "smmu_guard_proc_ops L kmalloc_ok = \<lparr>proc_open = smmu_guard_proc_open L kmalloc_ok, proc_write = None\<rparr>"

definition bad_driver_proc_ops :: "'m kernel_mm \<Rightarrow> mutex_api \<Rightarrow> kernel_lib \<Rightarrow> u64 \<Rightarrow> 'm proc_ops" where
  "bad_driver_proc_ops K M L now = \<lparr>proc_open = bad_driver_proc_open,
     proc_write = Some (\<lambda>copied buf s.
       case bad_driver_proc_write K M L now copied buf (ms_kernel s) (ms_driver s) of
         (ret, k, b) \<Rightarrow> Inr (ret, s\<lparr>ms_kernel := k, ms_driver := b\<rparr>))\<rparr>"

text \<open>\<open>proc_create_single\<close> makes a file of its own for the show function of rogue_thread.\<close>

definition rogue_proc_ops :: "'m proc_ops" where
  "rogue_proc_ops = \<lparr>proc_open = (\<lambda>s. rogue_status_show (ms_rogue s)), proc_write = None\<rparr>"

text \<open>What the entry functions create: name, mode, operations.\<close>

definition proc_files ::
  "'m kernel_mm \<Rightarrow> mutex_api \<Rightarrow> kernel_lib \<Rightarrow> u64 \<Rightarrow> u64 \<Rightarrow> bool \<Rightarrow> (string \<times> nat \<times> 'm proc_ops) list" where
  "proc_files K M L cur now kmalloc_ok =
     [(''safety_mem_status'', DEMO_PROC_CONTROL_MODE, safety_mem_proc_ops K M L cur),
      (''ctx_monitor_log'', DEMO_PROC_READ_ONLY_MODE, ctx_monitor_proc_ops kmalloc_ok),
      (''smmu_guard_log'', DEMO_PROC_READ_ONLY_MODE, smmu_guard_proc_ops L kmalloc_ok),
      (''bad_driver_ts'', DEMO_PROC_CONTROL_MODE, bad_driver_proc_ops K M L now),
      (DEMO_ROGUE_STATUS_PROC_NAME, DEMO_PROC_READ_ONLY_MODE, rogue_proc_ops)]"

definition proc_file ::
  "'m kernel_mm \<Rightarrow> mutex_api \<Rightarrow> kernel_lib \<Rightarrow> u64 \<Rightarrow> u64 \<Rightarrow> bool \<Rightarrow> string \<Rightarrow> (nat \<times> 'm proc_ops) option" where
  "proc_file K M L cur now kmalloc_ok path =
     (if take 6 path = ''/proc/'' then map_of (proc_files K M L cur now kmalloc_ok) (drop 6 path) else None)"

lemmas proc_ops_defs = safety_mem_proc_ops_def ctx_monitor_proc_ops_def smmu_guard_proc_ops_def
  bad_driver_proc_ops_def rogue_proc_ops_def

lemmas proc_open_defs = safety_mem_proc_open_def ctx_monitor_proc_open_def smmu_guard_proc_open_def
  bad_driver_proc_open_def

lemma rogue_name_differs:
  "DEMO_ROGUE_STATUS_PROC_NAME \<noteq> ''safety_mem_status''" "DEMO_ROGUE_STATUS_PROC_NAME \<noteq> ''ctx_monitor_log''"
  "DEMO_ROGUE_STATUS_PROC_NAME \<noteq> ''smmu_guard_log''" "DEMO_ROGUE_STATUS_PROC_NAME \<noteq> ''bad_driver_ts''"
  by (simp_all add: DEMO_ROGUE_STATUS_PROC_NAME_def)

text \<open>Which task opens a file does not change what it reads.\<close>

lemma proc_file_cur:
  assumes "proc_file K M L cur now ok path = Some (mode, ops)"
  shows "\<exists>ops'. proc_file K M L cur' now ok path = Some (mode, ops') \<and> proc_open ops' = proc_open ops"
proof -
  define n where "n = drop 6 path"
  from assms show ?thesis
    unfolding proc_file_def proc_files_def n_def [symmetric]
    by (cases "n = DEMO_ROGUE_STATUS_PROC_NAME")
      (auto simp: proc_ops_defs rogue_name_differs split: if_splits)
qed

text \<open>The five paths userspace opens, and what is behind them.\<close>

lemma proc_paths:
  "proc_file K M L cur now ok ''/proc/safety_mem_status'' = Some (DEMO_PROC_CONTROL_MODE, safety_mem_proc_ops K M L cur)"
  "proc_file K M L cur now ok ''/proc/ctx_monitor_log'' = Some (DEMO_PROC_READ_ONLY_MODE, ctx_monitor_proc_ops ok)"
  "proc_file K M L cur now ok ''/proc/smmu_guard_log'' = Some (DEMO_PROC_READ_ONLY_MODE, smmu_guard_proc_ops L ok)"
  "proc_file K M L cur now ok ''/proc/bad_driver_ts'' = Some (DEMO_PROC_CONTROL_MODE, bad_driver_proc_ops K M L now)"
  "proc_file K M L cur now ok kRogueStatusPath = Some (DEMO_PROC_READ_ONLY_MODE, rogue_proc_ops)"
  by (simp_all add: proc_file_def proc_files_def DEMO_ROGUE_STATUS_PROC_NAME_def kRogueStatusPath_def)

text \<open>The write bits of a file mode.\<close>

definition mode_writable :: "nat \<Rightarrow> bool" where
  "mode_writable mode \<longleftrightarrow> mode AND (2 * 8 * 8 + 2 * 8 + 2) \<noteq> 0"

lemma proc_files_modes:
  assumes "(name, mode, ops) \<in> set (proc_files K M L cur now ok)"
  shows "mode_writable mode \<longleftrightarrow> proc_write ops \<noteq> None"
  using assms by (auto simp: proc_files_def proc_ops_defs mode_writable_def mode_defs)

lemma proc_files_distinct: "distinct (map fst (proc_files K M L cur now ok))"
  by (simp add: proc_files_def DEMO_ROGUE_STATUS_PROC_NAME_def)

section \<open>Well-typed module states\<close>

definition module_typed :: "'m kernel_mm \<Rightarrow> 'm module_states \<Rightarrow> bool" where
  "module_typed K s \<longleftrightarrow>
     aliases_ok K (ms_kernel s) \<and> flag_honest K (ms_kernel s)
     \<and> safety_buf_ptr (sm (ms_kernel s)) = g_virt_addr (sm (ms_kernel s))
     \<and> g_ctx_protected (sm (ms_kernel s)) \<in> {0, 1} \<and> g_smmu_active (sm (ms_kernel s)) \<in> {0, 1}
     \<and> ctx_log_wf (cm (ms_kernel s)) \<and> smmu_log_wf (ms_guard s)
     \<and> length (g_last_result (ms_driver s)) < DEMO_RESULT_BUFFER_SIZE"

text \<open>
  Everything that happens to the modules once they are loaded: a write to one of their files by any
  task, an authorized write by any task, the SMMU guard's announcement, a die notification, and an
  IOMMU fault.
\<close>

inductive module_step ::
  "'m kernel_mm \<Rightarrow> mutex_api \<Rightarrow> kernel_lib \<Rightarrow> 'm module_states \<Rightarrow> 'm module_states \<Rightarrow> bool" for K M L where
  file_write: "is_task cur \<Longrightarrow> proc_file K M L cur now ok path = Some (mode, ops) \<Longrightarrow> proc_write ops = Some h \<Longrightarrow>
    h copied buf s = Inr (ret, s') \<Longrightarrow> module_step K M L s s'"
| authorized_write: "is_task cur \<Longrightarrow> safety_mem_safe_write K M cur val (ms_kernel s) = Inr (ret, k) \<Longrightarrow>
    module_step K M L s (s\<lparr>ms_kernel := k\<rparr>)"
| smmu_announced: "module_step K M L s (s\<lparr>ms_kernel := (ms_kernel s)\<lparr>sm :=
      safety_mem_set_smmu_active active (sm (ms_kernel s))\<rparr>\<rparr>)"
| die_notified: "module_step K M L s (s\<lparr>ms_kernel := (ms_kernel s)\<lparr>cm :=
      snd (ctx_die_notifier_cb now current data (cm (ms_kernel s)))\<rparr>\<rparr>)"
| dma_fault: "module_step K M L s (s\<lparr>ms_guard :=
      snd (smmu_iommu_fault_handler K L now dev iova (ms_guard s))\<rparr>)"

text \<open>The only files with a write handler.\<close>

lemma file_write_cases:
  assumes "proc_file K M L cur now ok path = Some (mode, ops)" "proc_write ops = Some h"
    and "h copied buf s = Inr (ret, s')"
  obtains k where "safety_mem_proc_write K M L cur copied buf (ms_kernel s) = Inr (ret, k)" "s' = s\<lparr>ms_kernel := k\<rparr>"
  | k b where "bad_driver_proc_write K M L now copied buf (ms_kernel s) (ms_driver s) = (ret, k, b)"
    "s' = s\<lparr>ms_kernel := k, ms_driver := b\<rparr>"
proof -
  have "ops \<in> {safety_mem_proc_ops K M L cur, ctx_monitor_proc_ops ok, smmu_guard_proc_ops L ok,
      bad_driver_proc_ops K M L now, rogue_proc_ops}"
    using assms(1) by (auto simp: proc_file_def proc_files_def split: if_splits)
  then show thesis
    using assms(2,3) that by (auto simp: proc_ops_defs split: sum.splits prod.splits)
qed

lemma set_protection_types:
  assumes "safety_mem_set_protection K M cur en k = Inr (ret, k')"
  shows "g_ctx_protected (sm k') \<in> {0, 1}" "g_smmu_active (sm k') = g_smmu_active (sm k)"
    "ctx_log_wf (cm k') = ctx_log_wf (cm k)"
  using assms
  by (auto simp: safety_mem_set_protection_def enable_protection_def disable_protection_def Let_def
      set_owner_def split: option.splits prod.splits if_splits)

lemma toggle_keeps_typed:
  assumes "kernel_mm_ok K" "mutex_ok M" "is_task cur" "module_typed K s"
    and "safety_mem_set_protection K M cur en (ms_kernel s) = Inr (ret, k)"
  shows "module_typed K (s\<lparr>ms_kernel := k\<rparr>)"
proof -
  note r = set_protection_Inr [OF assms(1-3,5)]
  have "aliases_ok K k" using aliases_ok_frame [OF r(4,3)] assms(4) by (simp add: module_typed_def)
  then show ?thesis
    using assms(4) r(4,5) set_protection_types [OF assms(5)] by (simp add: module_typed_def same_addrs_def)
qed

lemma attack_result_short:
  "execute_attack K M now mode k b = (ret, k', b') \<Longrightarrow> length (g_last_result b') < DEMO_RESULT_BUFFER_SIZE"
  by (cases mode; auto simp: execute_attack_mode_1_def execute_attack_mode_2_def execute_attack_mode_3_def
      Let_def DEMO_RESULT_BUFFER_SIZE_def snprintf_buf_def split: prod.splits if_splits option.splits)

lemma attack_keeps_typed:
  assumes "kernel_mm_ok K" "module_typed K s" "execute_attack K M now mode (ms_kernel s) (ms_driver s) = (ret, k, b)"
  shows "module_typed K (s\<lparr>ms_kernel := k, ms_driver := b\<rparr>)"
  using assms(2) driver.is_copy [OF assms(3)] driver.honest_kept [OF assms(1,3)] attack_result_short [OF assms(3)]
  by (simp add: module_typed_def)

lemma write_keeps_typed:
  assumes "kernel_mm_ok K" "mutex_ok M" "is_task cur" "settable K (g_vmalloc_addr (sm (ms_kernel s)))"
    and "module_typed K s" "safety_mem_safe_write K M cur val (ms_kernel s) = Inr (ret, k)"
  shows "module_typed K (s\<lparr>ms_kernel := k\<rparr>)" and "same_addrs (sm (ms_kernel s)) (sm k)"
proof -
  let ?k = "ms_kernel s"
  have al: "aliases_ok K ?k" "g_virt_addr (sm ?k) \<noteq> 0" using assms(5) by (simp_all add: module_typed_def aliases_ok_def)
  show ad: "same_addrs (sm ?k) (sm k)" using safe_write_Inr [OF assms(1-3) al(2) assms(6)] by metis
  have keep: "g_ctx_protected (sm k) = g_ctx_protected (sm ?k)" "cm k = cm ?k"
    using safe_write_Inr [OF assms(1-3) al(2) assms(6)] by metis+
  have smmu: "g_smmu_active (sm k) = g_smmu_active (sm ?k)"
    using assms(6) by (auto simp: safety_mem_safe_write_def set_owner_def Let_def split: option.splits)
  have "flag_honest K k"
  proof (rule safe_write_honest [OF assms(1-3) al(1) assms(6)])
    fix m assume "store32 K (g_virt_addr (sm ?k)) val (safe_write_machine K ?k) = Some m"
    then have "is_valid (safety_mem_walk_pgtable K m (g_vmalloc_addr (sm ?k)))"
      using al(1) same_data_same_frame [OF safe_write_machine_data [OF assms(1), of ?k]]
      by (auto simp: aliases_ok_def store32_tables [OF assms(1)] same_frame_def)
    then show "fst (set_memory_ro K (g_vmalloc_addr (sm ?k)) 1 (snd (set_memory_ro K (g_virt_addr (sm ?k)) 1 m))) = 0"
      using assms(1,4) by (simp add: settable_def mm_rules)
  qed
  with ad keep smmu safe_write_data(3) [OF assms(1-3) al(1) assms(6)] assms(5)
  show "module_typed K (s\<lparr>ms_kernel := k\<rparr>)" by (simp add: module_typed_def same_addrs_def)
qed

lemma command_keeps_typed:
  assumes "kernel_mm_ok K" "module_typed K s"
    and "bad_driver_proc_write K M L now copied buf (ms_kernel s) (ms_driver s) = (ret, k, b)"
  shows "module_typed K (s\<lparr>ms_kernel := k, ms_driver := b\<rparr>) \<and> sm k = sm (ms_kernel s)"
proof -
  consider "k = ms_kernel s" "b = ms_driver s"
    | mode where "snd (execute_attack K M now mode (ms_kernel s) (ms_driver s)) = (k, b)"
    using assms(3)
    by (auto simp: bad_driver_proc_write_def simp del: execute_attack.simps split: if_splits sum.splits)
  then show ?thesis
  proof cases
    case (2 mode)
    then obtain r where "execute_attack K M now mode (ms_kernel s) (ms_driver s) = (r, k, b)"
      by (metis prod.collapse)
    then show ?thesis using attack_keeps_typed [OF assms(1,2)] driver.is_copy by blast
  qed (use assms(2) in simp)
qed

text \<open>The vmalloc alias, whose permission the kernel agrees to change, stays where it is.\<close>

definition module_inv :: "'m kernel_mm \<Rightarrow> mutex_api \<Rightarrow> 'm module_states \<Rightarrow> bool" where
  "module_inv K M s \<longleftrightarrow> kernel_mm_ok K \<and> mutex_ok M \<and> settable K (g_vmalloc_addr (sm (ms_kernel s)))
     \<and> module_typed K s"

interpretation modules: state_machine "module_step K M L" "module_inv K M" for K M L
proof
  fix s s' assume i: "module_inv K M s" and st: "module_step K M L s s'"
  have h: "kernel_mm_ok K" "mutex_ok M" "settable K (g_vmalloc_addr (sm (ms_kernel s)))" "module_typed K s"
    using i by (simp_all add: module_inv_def)
  from st show "module_inv K M s'"
  proof (cases rule: module_step.cases)
    case (file_write cur now ok path mode ops w copied buf ret)
    from file_write(2-4) show ?thesis
    proof (cases rule: file_write_cases)
      case (1 k)
      from 1(1) have "module_typed K s' \<and> g_vmalloc_addr (sm k) = g_vmalloc_addr (sm (ms_kernel s))"
      proof (cases rule: proc_write_cases)
        case (2 en r)
        then show ?thesis
          using toggle_keeps_typed [OF h(1,2) file_write(1) h(4) 2] 1(2)
            set_protection_Inr(4) [OF h(1,2) file_write(1) 2] by (simp add: same_addrs_def)
      qed (use h(4) 1(2) in simp)
      with h 1(2) show ?thesis by (simp add: module_inv_def)
    next
      case (2 k b)
      from command_keeps_typed [OF h(1,4) 2(1)] h 2(2) show ?thesis by (simp add: module_inv_def)
    qed
  next
    case (authorized_write cur val ret k)
    from write_keeps_typed [OF h(1,2) authorized_write(2) h(3,4) authorized_write(3)] h authorized_write(1)
    show ?thesis by (simp add: module_inv_def same_addrs_def)
  next
    case (smmu_announced active)
    with h show ?thesis
      by (simp add: module_inv_def module_typed_def aliases_ok_def flag_honest_def
          safety_mem_set_smmu_active_def safety_mem_is_protected_def)
  next
    case (die_notified now current data)
    have "ctx_log_wf (snd (ctx_die_notifier_cb now current data (cm (ms_kernel s))))"
      using h(4) by (auto simp: module_typed_def ctx_die_notifier_cb_def Let_def split: option.splits)
    with die_notified h show ?thesis
      by (simp add: module_inv_def module_typed_def aliases_ok_def flag_honest_def)
  next
    case (dma_fault now dev iova)
    with h show ?thesis
      by (simp add: module_inv_def module_typed_def smmu_iommu_fault_handler_def smmu_guard_log_blocked_dma_def
          smmu_log_wf_store)
  qed
qed

text \<open>Loading safety_mem, with a vmalloc alias, and the other modules fresh.\<close>

definition modules_loaded :: "'m kstate \<Rightarrow> rogue_state \<Rightarrow> 'm module_states" where
  "modules_loaded k r = \<lparr>ms_kernel = k, ms_driver = bad_driver_initial, ms_guard = smmu_guard_initial, ms_rogue = r\<rparr>"

lemma load_typed:
  assumes "kernel_mm_ok K" "page_ops_ok K P" "safety_mem_init K P proc_ok k0 = Inr (0, calls, k)"
    and "sm k0 = safety_mem_initial" "ctx_log_wf (cm k0)" "g_vmalloc_addr (sm k) \<noteq> 0"
  shows "module_typed K (modules_loaded k r)"
proof -
  obtain page m1 where al: "alloc_pages P (mach k0) = (page, m1)" by fastforce
  have pg: "page \<noteq> 0" using assms(3) al by (auto simp: safety_mem_init_def errno_defs)
  obtain vm m2 where vm: "vmap P page m1 = (vm, m2)" by fastforce
  obtain m3 where st: "store32 K (page_address P page) SAFETY_SENTINEL m2 = Some m3"
    using assms(3) al pg vm by (auto simp: safety_mem_init_def Let_def split: option.splits)
  have k: "k = \<lparr>mach = m3, sm = (sm k0)\<lparr>g_safety_page := page, g_virt_addr := page_address P page,
        g_phys_addr := page_to_phys P page, g_vmalloc_addr := vm, safety_buf_ptr := page_address P page,
        g_initial_mapping := safety_mem_walk_pgtable K m3 (page_address P page)\<rparr>,
      cm = ctx_monitor_set_protected_range (page_address P page) (page_address P page + PAGE_SIZE K) (cm k0)\<rparr>"
    using assms(3) al pg vm st by (simp add: safety_mem_init_def Let_def errno_defs split: if_splits)
  have "page_address P page \<noteq> 0 \<and> same_frame K m2 (page_address P page) vm"
    using assms(2,6) al pg vm k unfolding page_ops_ok_def by auto
  then show ?thesis
    using assms(4-6) same_frame_store [OF assms(1) st]
    by (simp add: k module_typed_def modules_loaded_def aliases_ok_def flag_honest_def safety_mem_is_protected_def
        safety_mem_initial_def bad_driver_initial_def DEMO_RESULT_BUFFER_SIZE_def)
qed

text \<open>
  C7: the modules' state is well typed from loading on. After a load that made the vmalloc alias,
  whatever any task writes to any of the files, in whatever order with authorized writes,
  announcements of the SMMU guard, die notifications and IOMMU faults, in every reachable state both
  aliases map one frame and the threads' pointer is the direct alias, the two flags are 0 or 1, a set
  protection flag means a read-only vmalloc alias, both log rings have their head and fill count in
  range, and the attack report fits its buffer with the terminating NUL.
\<close>

theorem module_state_typed:
  assumes "kernel_mm_ok K" "mutex_ok M" "page_ops_ok K P"
    and "safety_mem_init K P proc_ok k0 = Inr (0, calls, k)" "sm k0 = safety_mem_initial" "ctx_log_wf (cm k0)"
    and "g_vmalloc_addr (sm k) \<noteq> 0" "settable K (g_vmalloc_addr (sm k))"
    and "(module_step K M L)\<^sup>*\<^sup>* (modules_loaded k r) s'"
  shows "module_typed K s'"
proof -
  have "module_inv K M (modules_loaded k r)"
    using load_typed [OF assms(1,3-7)] assms(1,2,8) by (simp add: module_inv_def modules_loaded_def)
  with modules.reachable [OF assms(9)] show ?thesis by (simp add: module_inv_def)
qed

definition unloaded_state :: "ref_machine kstate" where
  "unloaded_state = (ref_state (\<lambda>a. True) True True 0)\<lparr>sm := safety_mem_initial\<rparr>"

lemma willing_page_ops_ok: "page_ops_ok willing_kernel ref_page_ops"
  by (auto simp: page_ops_ok_def ref_page_ops_def same_frame_def ref_phys_def)

lemma willing_load:
  obtains calls k where "safety_mem_init willing_kernel ref_page_ops True unloaded_state = Inr (0, calls, k)"
    "g_vmalloc_addr (sm k) = 0x2000"
  by (simp add: safety_mem_init_def ref_page_ops_def ref_store_def Let_def)

theorem module_state_typed_witness:
  "\<exists>calls k. safety_mem_init willing_kernel ref_page_ops True unloaded_state = Inr (0, calls, k)
     \<and> module_typed willing_kernel ((modules_loaded k (rogue_started 0 CORRUPT_SENTINEL))\<lparr>ms_guard :=
         snd (smmu_iommu_fault_handler willing_kernel ref_lib 7 ''dev0'' 0x4000 smmu_guard_initial)\<rparr>)"
proof -
  obtain calls k where l: "safety_mem_init willing_kernel ref_page_ops True unloaded_state = Inr (0, calls, k)"
    "g_vmalloc_addr (sm k) = 0x2000"
    using willing_load .
  let ?s = "modules_loaded k (rogue_started 0 CORRUPT_SENTINEL)"
  have "(module_step willing_kernel ref_mutex ref_lib)\<^sup>*\<^sup>* ?s (?s\<lparr>ms_guard :=
      snd (smmu_iommu_fault_handler willing_kernel ref_lib 7 ''dev0'' 0x4000 (ms_guard ?s))\<rparr>)"
    by (intro r_into_rtranclp module_step.dma_fault)
  then have "(module_step willing_kernel ref_mutex ref_lib)\<^sup>*\<^sup>* ?s (?s\<lparr>ms_guard :=
      snd (smmu_iommu_fault_handler willing_kernel ref_lib 7 ''dev0'' 0x4000 smmu_guard_initial)\<rparr>)"
    by (simp add: modules_loaded_def)
  from module_state_typed [OF willing_kernel_ok ref_mutex_ok willing_page_ops_ok l(1) _ _ _
      willing_kernel_settable(1) this] l show ?thesis
    by (simp add: unloaded_state_def)
qed

end
