(* ===== verification/Expected.thy ===== *)
theory Expected
  imports Prelude
begin

text \<open>
  \<open>safety::expected<T, E>\<close> of \<open>src/userspace/common/expected.hpp\<close>: a variant holding a value or an
  \<open>unexpected\<close> error. \<open>value()\<close> throws \<open>bad_expected_access\<close> without a value;
  \<open>operator*\<close>, \<open>operator->\<close> and \<open>error()\<close> are \<open>noexcept\<close> around \<open>std::get\<close>, so on the wrong
  alternative the program terminates (\<open>None\<close> below). The converting constructors take the conversion
  the compiler picks as an argument. \<open>expected<void, E>\<close> is the instance at \<open>unit\<close>, with the
  operations of its own specialization.
\<close>

section \<open>Errors\<close>

datatype 'e unexpected_error = Unexpected_error (error_of: 'e)

text \<open>\<open>unexpected<E>\<close> from an \<open>unexpected<U>\<close>, by copy or by move.\<close>

definition unexpected_convert :: "('u \<Rightarrow> 'e) \<Rightarrow> 'u unexpected_error \<Rightarrow> 'e unexpected_error" where
  "unexpected_convert conv u = Unexpected_error (conv (error_of u))"

datatype 'e bad_expected_access = Bad_expected_access 'e

definition bad_access_what :: "'e bad_expected_access \<Rightarrow> string" where
  "bad_access_what x = ''bad_expected_access''"

primrec bad_access_error :: "'e bad_expected_access \<Rightarrow> 'e" where
  "bad_access_error (Bad_expected_access e) = e"

section \<open>Results\<close>

datatype ('t, 'e) expected = Expected 't | Unexpected 'e

text \<open>The constructors: from nothing (a value-initialized \<open>T\<close>), from a value, from an error.\<close>

definition expected_default :: "'t \<Rightarrow> ('t, 'e) expected" where
  "expected_default zero = Expected zero"

definition expected_of_value :: "('u \<Rightarrow> 't) \<Rightarrow> 'u \<Rightarrow> ('t, 'e) expected" where
  "expected_of_value conv u = Expected (conv u)"

definition expected_of_unexpected :: "('g \<Rightarrow> 'e) \<Rightarrow> 'g unexpected_error \<Rightarrow> ('t, 'e) expected" where
  "expected_of_unexpected conv unex = Unexpected (conv (error_of unex))"

primrec has_value :: "('t, 'e) expected \<Rightarrow> bool" where
  "has_value (Expected v) = True"
| "has_value (Unexpected e) = False"

definition expected_bool :: "('t, 'e) expected \<Rightarrow> bool" where
  "expected_bool r \<longleftrightarrow> has_value r"

primrec expected_deref :: "('t, 'e) expected \<Rightarrow> 't option" where
  "expected_deref (Expected v) = Some v"
| "expected_deref (Unexpected e) = None"

primrec expected_error :: "('t, 'e) expected \<Rightarrow> 'e option" where
  "expected_error (Expected v) = None"
| "expected_error (Unexpected e) = Some e"

primrec expected_value :: "('t, 'e) expected \<Rightarrow> 'e bad_expected_access + 't" where
  "expected_value (Expected v) = Inr v"
| "expected_value (Unexpected e) = Inl (Bad_expected_access e)"

section \<open>Results without a value\<close>

type_synonym 'e expected_void = "(unit, 'e) expected"

definition void_default :: "'e expected_void" where
  "void_default = Expected ()"

definition void_of_unexpected :: "('g \<Rightarrow> 'e) \<Rightarrow> 'g unexpected_error \<Rightarrow> 'e expected_void" where
  "void_of_unexpected conv unex = Unexpected (conv (error_of unex))"

primrec void_has_value :: "'e expected_void \<Rightarrow> bool" where
  "void_has_value (Expected u) = True"
| "void_has_value (Unexpected e) = False"

text \<open>\<open>value()\<close> of the void instance returns nothing: the exception it throws, if any.\<close>

definition void_value :: "'e expected_void \<Rightarrow> 'e bad_expected_access option" where
  "void_value r = (if void_has_value r then None else map_option Bad_expected_access (expected_error r))"

section \<open>Access is safe after a test\<close>

lemma has_value_iff: "has_value r \<longleftrightarrow> (\<exists>v. r = Expected v)"
  by (cases r) auto

lemma not_has_value_iff: "\<not> has_value r \<longleftrightarrow> (\<exists>e. r = Unexpected e)"
  by (cases r) auto

text \<open>After the test the code always makes, no access terminates the program or throws.\<close>

lemma expected_guarded:
  "has_value r \<Longrightarrow> \<exists>v. expected_value r = Inr v \<and> expected_deref r = Some v"
  "\<not> has_value r \<Longrightarrow> \<exists>e. expected_error r = Some e \<and> expected_value r = Inl (Bad_expected_access e)"
  by (cases r; simp)+

text \<open>An error keeps its converted value on its way into a result and out through the exception.\<close>

lemma error_travels:
  "expected_error (expected_of_unexpected g (unexpected_convert f (Unexpected_error e))) = Some (g (f e))"
  "expected_value (expected_of_unexpected g u) = Inl x \<Longrightarrow> bad_access_error x = g (error_of u)"
  "void_value (void_of_unexpected g u) = Some x \<Longrightarrow> bad_access_error x = g (error_of u)"
  by (auto simp: expected_of_unexpected_def unexpected_convert_def void_value_def void_of_unexpected_def)

end
