(* ===== verification/Proc_Reader.thy ===== *)
theory Proc_Reader
  imports Cxx_Text Expected
begin

text \<open>
  The operating system the harness, the monitor and the analysis tool see, as a parameter over a
  world \<open>'w\<close>, and \<open>src/userspace/common/proc_reader.hpp\<close>, which reads a whole file with a
  structured error for each way that can fail.
\<close>

section \<open>The operating system\<close>

text \<open>
  A read of a path: it cannot be opened, reading breaks off, or the whole content. Writing a text to
  a path that opens replaces its content (a procfs file gets one write). \<open>system_call\<close> is
  \<open>std::system\<close> with its result, \<open>now_ns\<close> the clock.
\<close>

datatype read_outcome = Open_failed | Read_broken | Read_text string

record 'w user_os =
  file_exists :: "string \<Rightarrow> 'w \<Rightarrow> bool"
  read_file :: "string \<Rightarrow> 'w \<Rightarrow> read_outcome"
  can_write :: "string \<Rightarrow> 'w \<Rightarrow> bool"
  write_file :: "string \<Rightarrow> string \<Rightarrow> 'w \<Rightarrow> 'w"
  system_call :: "string \<Rightarrow> 'w \<Rightarrow> int \<times> 'w"
  sleep_ms :: "int \<Rightarrow> 'w \<Rightarrow> 'w"
  now_ns :: "'w \<Rightarrow> int"
  command_log :: "'w \<Rightarrow> string list"

text \<open>\<open>command_log\<close> is the history of the commands run; nothing else extends it.\<close>

definition user_os_ok :: "'w user_os \<Rightarrow> bool" where
  "user_os_ok os \<longleftrightarrow>
     (\<forall>c w. command_log os (snd (system_call os c w)) = command_log os w @ [c])
     \<and> (\<forall>p t w. command_log os (write_file os p t w) = command_log os w)
     \<and> (\<forall>n w. command_log os (sleep_ms os n w) = command_log os w)"

lemma user_os_okD [simp]:
  assumes "user_os_ok os"
  shows "command_log os (snd (system_call os c w)) = command_log os w @ [c]"
    "command_log os (write_file os p t w) = command_log os w"
    "command_log os (sleep_ms os n w) = command_log os w"
  using assms by (simp_all add: user_os_ok_def)

section \<open>Reading a whole file\<close>

definition proc_read :: "'w user_os \<Rightarrow> string \<Rightarrow> 'w \<Rightarrow> (string, string) expected" where
  "proc_read os path w =
     (if \<not> file_exists os path w then Unexpected (''File does not exist: '' @ path)
      else case read_file os path w of
          Open_failed \<Rightarrow> Unexpected (''Failed to open file: '' @ path)
        | Read_broken \<Rightarrow> Unexpected (''I/O error reading file: '' @ path)
        | Read_text s \<Rightarrow> Expected s)"

lemma proc_read_Expected [simp]:
  "proc_read os path w = Expected s \<longleftrightarrow> file_exists os path w \<and> read_file os path w = Read_text s"
  by (auto simp: proc_read_def split: read_outcome.splits)

text \<open>Every error of the reader names the file.\<close>

lemma proc_read_error_names_path:
  "proc_read os path w = Unexpected e \<Longrightarrow> str_contains e path"
  using str_contains_middle [of "''File does not exist: ''" path "[]"]
    str_contains_middle [of "''Failed to open file: ''" path "[]"]
    str_contains_middle [of "''I/O error reading file: ''" path "[]"]
  by (auto simp: proc_read_def split: if_splits read_outcome.splits)

end
