(* ===== verification/Module_Loader.thy ===== *)
theory Module_Loader
  imports Proc_Reader
begin

text \<open>
  \<open>src/userspace/harness/module_loader.cpp\<close>: the owner of the loaded kernel modules. The state
  holds every loader object's list of modules (by object), the global registry of loaders, the
  pending signal and the world. \<open>load\<close>, \<open>unload\<close> and \<open>unload_all\<close> run \<open>insmod\<close> and \<open>rmmod\<close> through
  the operating system. The locks make each operation atomic.
\<close>

section \<open>Paths\<close>

text \<open>\<open>path::filename()\<close> and \<open>path::stem()\<close> of a path text.\<close>

definition path_filename :: "string \<Rightarrow> string" where
  "path_filename p = rev (takeWhile (\<lambda>c. c \<noteq> CHR ''/'') (rev p))"

definition path_stem :: "string \<Rightarrow> string" where
  "path_stem p =
     (let f = path_filename p; ext = takeWhile (\<lambda>c. c \<noteq> CHR ''.'') (rev f) in
      if f \<in> {''.'', ''..''} \<or> length ext = length f \<or> length ext + 1 = length f then f
      else take (length f - length ext - 1) f)"

section \<open>State and operations\<close>

record loaded_module =
  mod_name :: string
  mod_path :: string

record 'w harness =
  world :: 'w
  loaded_modules :: "nat \<Rightarrow> loaded_module list"
  g_active_loaders :: "nat list"
  g_signal_received :: int
  console :: "string list"

definition is_loaded :: "nat \<Rightarrow> string \<Rightarrow> 'w harness \<Rightarrow> bool" where
  "is_loaded i name h \<longleftrightarrow> list_ex (\<lambda>m. mod_name m = name) (loaded_modules h i)"

definition register_instance :: "nat \<Rightarrow> 'w harness \<Rightarrow> 'w harness" where
  "register_instance i h = h\<lparr>g_active_loaders := g_active_loaders h @ [i]\<rparr>"

definition unregister_instance :: "nat \<Rightarrow> 'w harness \<Rightarrow> 'w harness" where
  "unregister_instance i h = h\<lparr>g_active_loaders := filter (\<lambda>j. j \<noteq> i) (g_active_loaders h)\<rparr>"

definition set_modules :: "nat \<Rightarrow> loaded_module list \<Rightarrow> 'w harness \<Rightarrow> 'w harness" where
  "set_modules i ms h = h\<lparr>loaded_modules := (loaded_modules h)(i := ms)\<rparr>"

text \<open>Where \<open>load\<close> finds a module: the path itself, then the two fallback directories.\<close>

definition resolve_module :: "'w user_os \<Rightarrow> string \<Rightarrow> 'w \<Rightarrow> string option" where
  "resolve_module os path w =
     (if file_exists os path w then Some path
      else let guest = ''/modules/'' @ path_filename path; loc = ''modules/'' @ path_filename path in
        if file_exists os guest w then Some guest
        else if file_exists os loc w then Some loc else None)"

definition insmod_command :: "string \<Rightarrow> string \<Rightarrow> string" where
  "insmod_command target params =
     (if params = [] then ''insmod '' @ target else ''insmod '' @ target @ '' '' @ params)"

definition load_module ::
  "'w user_os \<Rightarrow> nat \<Rightarrow> string \<Rightarrow> string \<Rightarrow> 'w harness \<Rightarrow> (unit, string) expected \<times> 'w harness" where
  "load_module os i path params h =
     (case resolve_module os path (world h) of
        None \<Rightarrow> (Unexpected (''Module file not found: '' @ path), h)
      | Some target \<Rightarrow>
          let name = path_stem target in
          if is_loaded i name h then (Expected (), h)
          else
            let (ret, w') = system_call os (insmod_command target params) (world h);
                h1 = h\<lparr>world := w'\<rparr>
            in if ret \<noteq> 0
               then (Unexpected (''insmod failed for '' @ target @ '' (exit code '' @ dec_int ret @ '')''), h1)
               else (Expected (), register_instance i
                      (set_modules i (loaded_modules h i @ [\<lparr>mod_name = name, mod_path = target\<rparr>]) h1)))"

text \<open>Removing the last module of a name, as the reverse search finds it.\<close>

definition erase_last :: "string \<Rightarrow> loaded_module list \<Rightarrow> loaded_module list" where
  "erase_last name ms =
     (let r = rev ms; k = length (takeWhile (\<lambda>m. mod_name m \<noteq> name) r)
      in rev (take k r @ drop (k + 1) r))"

definition unload_module ::
  "'w user_os \<Rightarrow> nat \<Rightarrow> string \<Rightarrow> 'w harness \<Rightarrow> (unit, string) expected \<times> 'w harness" where
  "unload_module os i name h =
     (if \<not> is_loaded i name h then (Expected (), h)
      else
        let (ret, w') = system_call os (''rmmod '' @ name) (world h);
            h1 = h\<lparr>world := w'\<rparr>
        in if ret \<noteq> 0
           then (Unexpected (''rmmod failed for module '' @ name @ '' (exit code '' @ dec_int ret @ '')''), h1)
           else (Expected (), set_modules i (erase_last name (loaded_modules h i)) h1))"

text \<open>The loop of \<open>unload_all\<close>, from the back of the list; the results of \<open>rmmod\<close> are ignored.\<close>

fun rmmod_all :: "'w user_os \<Rightarrow> loaded_module list \<Rightarrow> 'w \<Rightarrow> 'w" where
  "rmmod_all os [] w = w"
| "rmmod_all os (m # back) w = rmmod_all os back (snd (system_call os (''rmmod '' @ mod_name m) w))"

definition unload_all :: "'w user_os \<Rightarrow> nat \<Rightarrow> 'w harness \<Rightarrow> 'w harness" where
  "unload_all os i h =
     set_modules i [] (h\<lparr>world := rmmod_all os (rev (loaded_modules h i)) (world h)\<rparr>)"

definition destroy_loader :: "'w user_os \<Rightarrow> nat \<Rightarrow> 'w harness \<Rightarrow> 'w harness" where
  "destroy_loader os i h = unregister_instance i (unload_all os i h)"

text \<open>Moving loader \<open>j\<close> into a new loader \<open>i\<close>, and assigning it to an existing one.\<close>

definition move_construct :: "nat \<Rightarrow> nat \<Rightarrow> 'w harness \<Rightarrow> 'w harness" where
  "move_construct i j h =
     register_instance i (set_modules i (loaded_modules h j) (set_modules j [] h))"

definition move_assign :: "'w user_os \<Rightarrow> nat \<Rightarrow> nat \<Rightarrow> 'w harness \<Rightarrow> 'w harness" where
  "move_assign os i j h =
     (if i = j then h
      else let h1 = unload_all os i h
           in set_modules i (loaded_modules h1 j) (set_modules j [] h1))"

definition handle_signal :: "int \<Rightarrow> 'w harness \<Rightarrow> 'w harness" where
  "handle_signal sig h = h\<lparr>g_signal_received := sig\<rparr>"

definition was_signaled :: "'w harness \<Rightarrow> bool" where
  "was_signaled h \<longleftrightarrow> g_signal_received h \<noteq> 0"

text \<open>
  What the process does on a signal: the default action, which ends it for the two signals below, or
  the handler. \<open>setup_signal_handlers\<close> installs the handler with an empty mask and no flags.
\<close>

datatype sig_action = Sig_default | Sig_handle_signal

definition SIGINT :: int where "SIGINT = 2"
definition SIGTERM :: int where "SIGTERM = 15"

definition setup_signal_handlers :: "(int \<Rightarrow> sig_action) \<Rightarrow> int \<Rightarrow> sig_action" where
  "setup_signal_handlers actions =
     (let sa = Sig_handle_signal in (actions(SIGINT := sa))(SIGTERM := sa))"

definition deliver_signal :: "(int \<Rightarrow> sig_action) \<Rightarrow> int \<Rightarrow> 'w harness \<Rightarrow> int + 'w harness" where
  "deliver_signal actions sig h =
     (case actions sig of Sig_default \<Rightarrow> Inl sig | Sig_handle_signal \<Rightarrow> Inr (handle_signal sig h))"

definition kShellSignalExitBase :: int where "kShellSignalExitBase = 128"

text \<open>\<open>Inl\<close>: the process exits with that status.\<close>

definition cleanup_on_signal :: "'w user_os \<Rightarrow> 'w harness \<Rightarrow> int \<times> 'w harness + 'w harness" where
  "cleanup_on_signal os h =
     (if g_signal_received h \<noteq> 0
      then Inl (kShellSignalExitBase + g_signal_received h,
                fold (unload_all os) (g_active_loaders h) (h\<lparr>g_signal_received := 0\<rparr>))
      else Inr h)"

section \<open>Frames\<close>

lemma set_modules_sel [simp]:
  "loaded_modules (set_modules i ms h) j = (if j = i then ms else loaded_modules h j)"
  "world (set_modules i ms h) = world h" "g_active_loaders (set_modules i ms h) = g_active_loaders h"
  "g_signal_received (set_modules i ms h) = g_signal_received h"
  by (simp_all add: set_modules_def)

lemma register_sel [simp]:
  "loaded_modules (register_instance i h) = loaded_modules h" "world (register_instance i h) = world h"
  "set (g_active_loaders (register_instance i h)) = insert i (set (g_active_loaders h))"
  "g_signal_received (register_instance i h) = g_signal_received h"
  by (simp_all add: register_instance_def)

lemma unload_all_sel [simp]:
  "loaded_modules (unload_all os i h) j = (if j = i then [] else loaded_modules h j)"
  "g_active_loaders (unload_all os i h) = g_active_loaders h"
  "world (unload_all os i h) = rmmod_all os (rev (loaded_modules h i)) (world h)"
  by (simp_all add: unload_all_def)

lemma rmmod_all_log:
  "user_os_ok os \<Longrightarrow> command_log os (rmmod_all os ms w)
     = command_log os w @ map (\<lambda>m. ''rmmod '' @ mod_name m) ms"
  by (induction ms arbitrary: w) simp_all

section \<open>The registry invariant\<close>

text \<open>Every loader that owns modules is registered, and no loader owns a module twice.\<close>

definition loader_inv :: "'w harness \<Rightarrow> bool" where
  "loader_inv h \<longleftrightarrow> (\<forall>i. distinct (map mod_name (loaded_modules h i))
     \<and> (loaded_modules h i \<noteq> [] \<longrightarrow> i \<in> set (g_active_loaders h)))"

lemma is_loaded_iff: "is_loaded i name h \<longleftrightarrow> name \<in> set (map mod_name (loaded_modules h i))"
  by (auto simp: is_loaded_def list_ex_iff)

text \<open>The three outcomes of a load.\<close>

lemma load_module_cases:
  assumes "load_module os i path params h = (r, h')"
  obtains (skipped) "h' = h" "r = Expected () \<or> (\<exists>e. r = Unexpected e)"
  | (failed) target e where "r = Unexpected e"
      "h' = h\<lparr>world := snd (system_call os (insmod_command target params) (world h))\<rparr>"
  | (loaded) target where "r = Expected ()" "\<not> is_loaded i (path_stem target) h"
      "fst (system_call os (insmod_command target params) (world h)) = 0"
      "h' = register_instance i (set_modules i
         (loaded_modules h i @ [\<lparr>mod_name = path_stem target, mod_path = target\<rparr>])
         (h\<lparr>world := snd (system_call os (insmod_command target params) (world h))\<rparr>))"
proof (cases "resolve_module os path (world h)")
  case None
  with assms show ?thesis by (intro skipped) (auto simp: load_module_def)
next
  case (Some target)
  show ?thesis
  proof (cases "is_loaded i (path_stem target) h")
    case True
    with Some assms show ?thesis by (intro skipped) (auto simp: load_module_def)
  next
    case False
    show ?thesis
    proof (cases "fst (system_call os (insmod_command target params) (world h)) = 0")
      case True
      with False Some assms show ?thesis
        by (intro loaded [of target]) (auto simp: load_module_def Let_def split: prod.splits)
    next
      case nonzero: False
      let ?c = "system_call os (insmod_command target params) (world h)"
      have "(r, h') = (Unexpected (''insmod failed for '' @ target @ '' (exit code '' @ dec_int (fst ?c) @ '')''),
          h\<lparr>world := snd ?c\<rparr>)"
        using nonzero False Some assms by (simp add: load_module_def Let_def split_beta)
      then show ?thesis using failed [of _ target] by blast
    qed
  qed
qed

lemma loader_inv_load:
  assumes "loader_inv h" "load_module os i path params h = (r, h')"
  shows "loader_inv h'"
  using assms(2)
proof (cases rule: load_module_cases)
  case (loaded target)
  then show ?thesis
    using assms(1) loaded(2) by (simp add: loaded(4) loader_inv_def is_loaded_iff)
next
  case (failed target e)
  then show ?thesis using assms(1) by (simp add: loader_inv_def)
qed (use assms(1) in simp)

lemma erase_last_distinct:
  assumes "distinct (map mod_name ms)"
  shows "distinct (map mod_name (erase_last name ms))"
proof -
  define ns where "ns = map mod_name (rev ms)"
  define k where "k = length (takeWhile (\<lambda>m. mod_name m \<noteq> name) (rev ms))"
  have d: "distinct ns" using assms by (simp add: ns_def flip: rev_map)
  have "distinct (take k ns @ drop (k + 1) ns)"
    using d set_take_disj_set_drop_if_distinct [OF d, of k "k + 1"] by simp
  moreover have "map mod_name (erase_last name ms) = rev (take k ns @ drop (k + 1) ns)"
    by (simp add: erase_last_def ns_def k_def Let_def rev_map take_map drop_map)
  ultimately show ?thesis by (simp add: Int_commute)
qed

lemma erase_last_Nil [simp]: "erase_last name [] = []"
  by (simp add: erase_last_def)

lemma loader_inv_unload:
  assumes "loader_inv h" "unload_module os i name h = (r, h')"
  shows "loader_inv h'"
proof -
  have "distinct (map mod_name (erase_last name (loaded_modules h i)))"
    using assms(1) by (simp add: loader_inv_def erase_last_distinct)
  moreover have "erase_last name (loaded_modules h i) \<noteq> [] \<Longrightarrow> i \<in> set (g_active_loaders h)"
    using assms(1) by (metis erase_last_Nil loader_inv_def)
  ultimately show ?thesis
    using assms by (auto simp: unload_module_def loader_inv_def Let_def split: prod.splits if_splits)
qed

lemma loader_inv_unload_all: "loader_inv h \<Longrightarrow> loader_inv (unload_all os i h)"
  by (simp add: loader_inv_def)

lemma loader_inv_destroy: "loader_inv h \<Longrightarrow> loader_inv (destroy_loader os i h)"
  by (auto simp: loader_inv_def destroy_loader_def unregister_instance_def)

lemma loader_inv_move_construct:
  "loader_inv h \<Longrightarrow> loader_inv (move_construct i j h)"
  by (auto simp: loader_inv_def move_construct_def)

text \<open>The operations on the loaders of a running harness.\<close>

datatype loader_op = Load nat string string | Unload nat string | Unload_all nat | Destroy nat
  | Move_construct nat nat | Signal int

primrec loader_step :: "'w user_os \<Rightarrow> loader_op \<Rightarrow> 'w harness \<Rightarrow> 'w harness" where
  "loader_step os (Load i path params) h = snd (load_module os i path params h)"
| "loader_step os (Unload i name) h = snd (unload_module os i name h)"
| "loader_step os (Unload_all i) h = unload_all os i h"
| "loader_step os (Destroy i) h = destroy_loader os i h"
| "loader_step os (Move_construct i j) h = move_construct i j h"
| "loader_step os (Signal sig) h = handle_signal sig h"

lemma loader_inv_step: "loader_inv h \<Longrightarrow> loader_inv (loader_step os op h)"
proof (cases op)
  case (Signal sig)
  assume "loader_inv h"
  then show ?thesis by (simp add: Signal handle_signal_def loader_inv_def)
qed (auto simp: loader_inv_unload_all loader_inv_destroy loader_inv_move_construct
    intro: loader_inv_load [OF _ prod.collapse [symmetric]]
      loader_inv_unload [OF _ prod.collapse [symmetric]])

lemma fold_unload_all:
  "loaded_modules (fold (unload_all os) is h) j = (if j \<in> set is then [] else loaded_modules h j)"
  by (induction "is" arbitrary: h) auto

text \<open>The harness when its first loader is made.\<close>

definition harness_start :: "'w \<Rightarrow> 'w harness" where
  "harness_start w = \<lparr>world = w, loaded_modules = (\<lambda>_. []), g_active_loaders = [],
     g_signal_received = 0, console = []\<rparr>"

lemma loader_inv_start [simp]: "loader_inv (harness_start w)"
  by (simp add: loader_inv_def harness_start_def)

lemma loader_inv_run: "loader_inv h \<Longrightarrow> loader_inv (fold (loader_step os) ops h)"
  by (induction ops arbitrary: h) (simp_all add: loader_inv_step)


text \<open>An operating system where every module file exists and every command succeeds.\<close>

definition ref_user_os :: "(string list \<times> int) user_os" where
  "ref_user_os = \<lparr>file_exists = (\<lambda>p w. True), read_file = (\<lambda>p w. Read_text []),
     can_write = (\<lambda>p w. True), write_file = (\<lambda>p t w. w),
     system_call = (\<lambda>c w. (0, (fst w @ [c], snd w))), sleep_ms = (\<lambda>n w. (fst w, snd w + n * 1000000)),
     now_ns = snd, command_log = fst\<rparr>"

lemma ref_user_os_ok [simp]: "user_os_ok ref_user_os"
  by (simp add: user_os_ok_def ref_user_os_def)


section \<open>Loading a sequence of modules\<close>

text \<open>The loads of a scenario, each with its parameters, up to the first failure.\<close>

fun load_sequence ::
  "'w user_os \<Rightarrow> nat \<Rightarrow> (string \<times> string) list \<Rightarrow> 'w harness \<Rightarrow> (unit, string) expected \<times> 'w harness" where
  "load_sequence os i [] h = (Expected (), h)"
| "load_sequence os i ((path, params) # ps) h =
     (case load_module os i path params h of
        (Unexpected e, h') \<Rightarrow> (Unexpected e, h')
      | (Expected _, h') \<Rightarrow> load_sequence os i ps h')"

text \<open>A load runs at most one command, and one exactly for each module it adds or fails to add.\<close>

lemma load_module_log:
  assumes "user_os_ok os" "load_module os i path params h = (Expected (), h')"
  shows "\<exists>cs ms. command_log os (world h') = command_log os (world h) @ cs
    \<and> loaded_modules h' i = loaded_modules h i @ ms \<and> length cs = length ms
    \<and> (\<forall>j. j \<noteq> i \<longrightarrow> loaded_modules h' j = loaded_modules h j)
    \<and> (\<forall>c \<in> set cs. starts_with c ''insmod '')"
  using assms(2)
proof (cases rule: load_module_cases)
  case skipped
  then show ?thesis by (intro exI [of _ "[]"]) simp
next
  case (failed target e)
  then show ?thesis by simp
next
  case (loaded target)
  have "starts_with (insmod_command target params) ''insmod ''"
    by (simp add: insmod_command_def starts_with_def)
  then show ?thesis
    using assms(1)
    by (intro exI [of _ "[insmod_command target params]"]
        exI [of _ "[\<lparr>mod_name = path_stem target, mod_path = target\<rparr>]"]) (simp add: loaded(4))
qed

lemma load_sequence_log:
  assumes "user_os_ok os" "load_sequence os i ps h = (Expected (), h')"
  shows "\<exists>cs ms. command_log os (world h') = command_log os (world h) @ cs
    \<and> loaded_modules h' i = loaded_modules h i @ ms \<and> length cs = length ms
    \<and> (\<forall>j. j \<noteq> i \<longrightarrow> loaded_modules h' j = loaded_modules h j)
    \<and> (\<forall>c \<in> set cs. starts_with c ''insmod '')"
  using assms(2)
proof (induction ps arbitrary: h)
  case Nil
  then show ?case by (intro exI [of _ "[]"]) simp
next
  case (Cons p ps)
  obtain path params where p: "p = (path, params)" by fastforce
  from Cons.prems obtain h1 where one: "load_module os i path params h = (Expected (), h1)"
    and rest: "load_sequence os i ps h1 = (Expected (), h')"
    by (auto simp: p split: prod.splits expected.splits)
  from load_module_log [OF assms(1) one] obtain cs ms where a:
    "command_log os (world h1) = command_log os (world h) @ cs"
    "loaded_modules h1 i = loaded_modules h i @ ms" "length cs = length ms"
    "\<forall>j. j \<noteq> i \<longrightarrow> loaded_modules h1 j = loaded_modules h j" "\<forall>c \<in> set cs. starts_with c ''insmod ''"
    by blast
  from Cons.IH [OF rest] obtain cs' ms' where b:
    "command_log os (world h') = command_log os (world h1) @ cs'"
    "loaded_modules h' i = loaded_modules h1 i @ ms'" "length cs' = length ms'"
    "\<forall>j. j \<noteq> i \<longrightarrow> loaded_modules h' j = loaded_modules h1 j" "\<forall>c \<in> set cs'. starts_with c ''insmod ''"
    by blast
  show ?case using a b by (intro exI [of _ "cs @ cs'"] exI [of _ "ms @ ms'"]) auto
qed

text \<open>
  Modules are removed in the reverse order of their insertion. If a sequence of loads into an
  empty loader succeeds, it has run one \<open>insmod\<close> per module it now owns, and unloading everything
  then runs exactly one \<open>rmmod\<close> per owned module, last loaded first, and leaves the loader empty and
  every other loader untouched.
\<close>

theorem unload_reverses_load:
  assumes "user_os_ok os" "loaded_modules h i = []"
    and "load_sequence os i ps h = (Expected (), h')"
  shows "\<exists>cs. command_log os (world h') = command_log os (world h) @ cs
    \<and> length cs = length (loaded_modules h' i) \<and> (\<forall>c \<in> set cs. starts_with c ''insmod '')
    \<and> command_log os (world (unload_all os i h'))
        = command_log os (world h) @ cs
          @ map (\<lambda>n. ''rmmod '' @ n) (rev (map mod_name (loaded_modules h' i)))
    \<and> loaded_modules (unload_all os i h') i = []
    \<and> (\<forall>j. j \<noteq> i \<longrightarrow> loaded_modules (unload_all os i h') j = loaded_modules h j)"
proof -
  from load_sequence_log [OF assms(1,3)] obtain cs ms where a:
    "command_log os (world h') = command_log os (world h) @ cs"
    "loaded_modules h' i = ms" "length cs = length ms"
    "\<forall>j. j \<noteq> i \<longrightarrow> loaded_modules h' j = loaded_modules h j" "\<forall>c \<in> set cs. starts_with c ''insmod ''"
    using assms(2) by auto
  show ?thesis
    using a by (intro exI [of _ cs]) (simp add: rmmod_all_log [OF assms(1)] rev_map comp_def)
qed

theorem unload_reverses_load_witness:
  "\<exists>h'. load_sequence ref_user_os 0 [(''modules/ctx_monitor.ko'', []), (''modules/safety_mem.ko'', [])]
        (harness_start ([], 0)) = (Expected (), h')
     \<and> loaded_modules (unload_all ref_user_os 0 h') 0 = []"
proof -
  obtain h' where r: "load_sequence ref_user_os 0
      [(''modules/ctx_monitor.ko'', []), (''modules/safety_mem.ko'', [])] (harness_start ([], 0))
      = (Expected (), h')"
    by (simp add: load_module_def resolve_module_def ref_user_os_def is_loaded_def harness_start_def
        path_stem_def path_filename_def Let_def)
  from unload_reverses_load [OF ref_user_os_ok _ r] r show ?thesis
    by (auto simp: harness_start_def)
qed

end
