(* ===== verification/Scenario.thy ===== *)
theory Scenario
  imports Module_Loader Demo_Constants
begin

text \<open>
  \<open>src/userspace/common/scenario.hpp\<close> and \<open>src/userspace/harness/scenario_runner.hpp\<close>: the result
  of a scenario, the state file published for the monitor, and the runner. The C++ concept
  \<open>Scenario\<close> is the locale \<open>scenario\<close>; what the runner guarantees is proved in it once, for every
  scenario.
\<close>

section \<open>Results\<close>

datatype scenario_status = Passed | Failed | Skipped | Error

record scenario_latency_metrics =
  latency_ns :: u64
  detection_latency_ns :: u64
  tlb_flush_latency_ns :: u64

record scenario_result =
  result_status :: scenario_status
  metrics :: scenario_latency_metrics
  error_message :: string

definition no_metrics :: scenario_latency_metrics where
  "no_metrics = \<lparr>latency_ns = 0, detection_latency_ns = 0, tlb_flush_latency_ns = 0\<rparr>"

definition scenario_result_of :: "scenario_status \<Rightarrow> u64 \<Rightarrow> u64 \<Rightarrow> u64 \<Rightarrow> string \<Rightarrow> scenario_result" where
  "scenario_result_of st a b c msg =
     \<lparr>result_status = st,
      metrics = \<lparr>latency_ns = a, detection_latency_ns = b, tlb_flush_latency_ns = c\<rparr>,
      error_message = msg\<rparr>"

text \<open>A nanosecond difference as the sources store it.\<close>

definition elapsed_ns :: "'w user_os \<Rightarrow> 'w \<Rightarrow> 'w \<Rightarrow> u64" where
  "elapsed_ns os start_w end_w = of_int (now_ns os end_w - now_ns os start_w)"

section \<open>The state file\<close>

text \<open>The lines of a snapshot with a colon, as assignments with a prefix.\<close>

definition snapshot_line :: "string \<Rightarrow> string \<Rightarrow> string" where
  "snapshot_line prefix line =
     (case str_find line '':'' of
        None \<Rightarrow> []
      | Some colon \<Rightarrow> prefix @ take colon line @ ''='' @ drop (colon + 1) line @ [newline])"

definition write_snapshot :: "string \<Rightarrow> string \<Rightarrow> string" where
  "write_snapshot prefix snapshot = concat (map (snapshot_line prefix) (getlines snapshot))"

definition demo_state_text :: "string \<Rightarrow> string \<Rightarrow> string \<Rightarrow> string \<Rightarrow> string \<Rightarrow> string" where
  "demo_state_text sid title phase before after =
     ''SCENARIO_ID='' @ sid @ [newline] @ ''TITLE='' @ title @ [newline] @ ''PHASE='' @ phase @ [newline]
     @ write_snapshot ''BEFORE_'' before @ write_snapshot ''AFTER_'' after"

definition publish_state ::
  "'w user_os \<Rightarrow> string \<Rightarrow> string \<Rightarrow> string \<Rightarrow> string \<Rightarrow> string \<Rightarrow> 'w harness \<Rightarrow> 'w harness" where
  "publish_state os sid title phase before after h =
     (if can_write os ''/tmp/demo_state'' (world h)
      then h\<lparr>world := write_file os ''/tmp/demo_state'' (demo_state_text sid title phase before after) (world h)\<rparr>
      else h)"

definition read_status :: "'w user_os \<Rightarrow> 'w \<Rightarrow> string" where
  "read_status os w =
     (case proc_read os ''/proc/safety_mem_status'' w of Expected s \<Rightarrow> s | Unexpected _ \<Rightarrow> [])"

definition pause :: "'w user_os \<Rightarrow> int \<Rightarrow> 'w harness \<Rightarrow> 'w harness" where
  "pause os ms h = h\<lparr>world := sleep_ms os ms (world h)\<rparr>"

definition say :: "string list \<Rightarrow> 'w harness \<Rightarrow> 'w harness" where
  "say ls h = h\<lparr>console := console h @ ls\<rparr>"

section \<open>The runner\<close>

text \<open>
  A scenario: its title and its three operations. \<open>run\<close> is \<open>None\<close> if it does not return.
\<close>

record 'w scenario_ops =
  sc_name :: string
  sc_setup :: "'w harness \<Rightarrow> (unit, string) expected \<times> 'w harness"
  sc_run :: "'w harness \<Rightarrow> (scenario_result \<times> 'w harness) option"
  sc_teardown :: "'w harness \<Rightarrow> 'w harness"

datatype run_outcome = Process_exit int | Finished scenario_result

definition result_text :: "scenario_result \<Rightarrow> string" where
  "result_text r =
     (if result_status r = Passed then ''PASSED'' else ''VIOLATION DETECTED / BLOCKED'')"

text \<open>What the runner publishes and prints before setup, before the action and after it.\<close>

definition announce_setup :: "'w user_os \<Rightarrow> 'w scenario_ops \<Rightarrow> string \<Rightarrow> 'w harness \<Rightarrow> 'w harness" where
  "announce_setup os sc sid h =
     say [''[+] Running '' @ sc_name sc @ ''...''] (publish_state os sid (sc_name sc) ''SETUP'' [] [] h)"

definition announce_run ::
  "'w user_os \<Rightarrow> 'w scenario_ops \<Rightarrow> string \<Rightarrow> string \<Rightarrow> 'w harness \<Rightarrow> 'w harness" where
  "announce_run os sc sid before h =
     pause os (int kMonitorSnapshotSettleTime) (publish_state os sid (sc_name sc) ''BEFORE'' before [] h)"

definition report_result ::
  "'w user_os \<Rightarrow> 'w scenario_ops \<Rightarrow> string \<Rightarrow> string \<Rightarrow> scenario_result \<Rightarrow> 'w harness \<Rightarrow> 'w harness" where
  "report_result os sc sid before result h =
     (let after = read_status os (world h);
          h1 = publish_state os sid (sc_name sc) ''AFTER'' before after h
      in pause os (int kResultDisplayTime)
           (say ((''    Result: '' @ result_text result)
                 # (if error_message result \<noteq> [] then [''    Detail: '' @ error_message result] else [])) h1))"

definition run_scenario ::
  "'w user_os \<Rightarrow> 'w scenario_ops \<Rightarrow> string \<Rightarrow> 'w harness \<Rightarrow> (run_outcome \<times> 'w harness) option" where
  "run_scenario os sc sid h =
     (case cleanup_on_signal os h of
        Inl (code, h') \<Rightarrow> Some (Process_exit code, h')
      | Inr h0 \<Rightarrow>
          (case sc_setup sc (announce_setup os sc sid h0) of
             (Unexpected e, h2) \<Rightarrow>
               Some (Finished \<lparr>result_status = Error, metrics = no_metrics, error_message = e\<rparr>,
                     say [''[-] Setup failed: '' @ e] h2)
           | (Expected _, h2) \<Rightarrow>
               let before = read_status os (world h2)
               in (case sc_run sc (announce_run os sc sid before h2) of
                     None \<Rightarrow> None
                   | Some (result, h4) \<Rightarrow>
                       Some (Finished result, sc_teardown sc (report_result os sc sid before result h4)))))"

lemma publish_state_sel [simp]:
  "loaded_modules (publish_state os sid title phase b a h) = loaded_modules h"
  "g_active_loaders (publish_state os sid title phase b a h) = g_active_loaders h"
  "g_signal_received (publish_state os sid title phase b a h) = g_signal_received h"
  by (simp_all add: publish_state_def)

lemma pause_say_sel [simp]:
  "loaded_modules (pause os n h) = loaded_modules h" "loaded_modules (say ls h) = loaded_modules h"
  "g_active_loaders (pause os n h) = g_active_loaders h" "g_active_loaders (say ls h) = g_active_loaders h"
  "g_signal_received (pause os n h) = g_signal_received h"
  "g_signal_received (say ls h) = g_signal_received h" "world (say ls h) = world h"
  "world (pause os n h) = sleep_ms os n (world h)"
  by (simp_all add: pause_def say_def)

lemma announce_sel [simp]:
  "loaded_modules (announce_setup os sc sid h) = loaded_modules h"
  "loaded_modules (announce_run os sc sid b h) = loaded_modules h"
  "loaded_modules (report_result os sc sid b r h) = loaded_modules h"
  "g_active_loaders (announce_setup os sc sid h) = g_active_loaders h"
  "g_active_loaders (announce_run os sc sid b h) = g_active_loaders h"
  "g_active_loaders (report_result os sc sid b r h) = g_active_loaders h"
  "g_signal_received (announce_setup os sc sid h) = g_signal_received h"
  "g_signal_received (announce_run os sc sid b h) = g_signal_received h"
  "g_signal_received (report_result os sc sid b r h) = g_signal_received h"
  by (simp_all add: announce_setup_def announce_run_def report_result_def Let_def)

text \<open>A finished run, step by step.\<close>

lemma run_scenario_cases:
  assumes "run_scenario os ops sid h = Some (Finished res, h')"
  obtains (setup_failed) e h2 where "sc_setup ops (announce_setup os ops sid h) = (Unexpected e, h2)"
      "res = \<lparr>result_status = Error, metrics = no_metrics, error_message = e\<rparr>"
      "h' = say [''[-] Setup failed: '' @ e] h2" "g_signal_received h = 0"
  | (ran) h2 h4 where "sc_setup ops (announce_setup os ops sid h) = (Expected (), h2)"
      "sc_run ops (announce_run os ops sid (read_status os (world h2)) h2) = Some (res, h4)"
      "h' = sc_teardown ops (report_result os ops sid (read_status os (world h2)) res h4)"
      "g_signal_received h = 0"
proof -
  from assms have sig: "g_signal_received h = 0"
    by (auto simp: run_scenario_def cleanup_on_signal_def split: if_splits)
  obtain r h2 where s: "sc_setup ops (announce_setup os ops sid h) = (r, h2)" by fastforce
  show thesis
  proof (cases r)
    case (Unexpected e)
    with assms s sig show thesis
      by (intro setup_failed [of e h2]) (simp_all add: run_scenario_def cleanup_on_signal_def)
  next
    case (Expected u)
    with assms s sig show thesis
      by (auto simp: run_scenario_def cleanup_on_signal_def Let_def split: option.splits intro: ran)
  qed
qed

lemma run_scenario_returns:
  assumes "g_signal_received h = 0" "\<And>h. sc_run ops h \<noteq> None"
  shows "\<exists>r h'. run_scenario os ops sid h = Some (Finished r, h')"
proof -
  obtain s h2 where s: "sc_setup ops (announce_setup os ops sid h) = (s, h2)" by fastforce
  obtain q h4 where "sc_run ops (announce_run os ops sid (read_status os (world h2)) h2) = Some (q, h4)"
    using assms(2) by fastforce
  with s assms(1) show ?thesis
    by (cases s) (simp_all add: run_scenario_def cleanup_on_signal_def Let_def)
qed

section \<open>The scenario contract\<close>

text \<open>
  What the runner relies on: a scenario works on its own loader \<open>i\<close>, keeps the registry invariant,
  and its teardown empties that loader.
\<close>

definition loader_frame :: "nat \<Rightarrow> 'w harness \<Rightarrow> 'w harness \<Rightarrow> bool" where
  "loader_frame i h h' \<longleftrightarrow> (\<forall>j. j \<noteq> i \<longrightarrow> loaded_modules h' j = loaded_modules h j)
     \<and> (loader_inv h \<longrightarrow> loader_inv h') \<and> g_signal_received h' = g_signal_received h"

lemma loader_frame_trans: "loader_frame i h h1 \<Longrightarrow> loader_frame i h1 h2 \<Longrightarrow> loader_frame i h h2"
  by (simp add: loader_frame_def)

lemma loader_frame_same:
  assumes "loaded_modules h' = loaded_modules h" "g_active_loaders h' = g_active_loaders h"
    and "g_signal_received h' = g_signal_received h"
  shows "loader_frame i h h'"
  using assms by (simp add: loader_frame_def loader_inv_def)

locale scenario =
  fixes os :: "'w user_os"
    and i :: nat
    and ops :: "'w scenario_ops"
  assumes setup_frame: "sc_setup ops h = (r, h') \<Longrightarrow> loader_frame i h h'"
    and run_frame: "sc_run ops h = Some (res, h') \<Longrightarrow> loader_frame i h h'"
    and teardown_frame: "loader_frame i h (sc_teardown ops h)"
    and teardown_empties: "loaded_modules (sc_teardown ops h) i = []"
begin

lemma run_scenario_frame:
  assumes "run_scenario os ops sid h = Some (Finished res, h')"
  shows "loader_frame i h h'"
  using assms
proof (cases rule: run_scenario_cases)
  case (setup_failed e h2)
  have "loader_frame i h (announce_setup os ops sid h)" "loader_frame i h2 h'"
    by (rule loader_frame_same; simp add: setup_failed)+
  with setup_frame [OF setup_failed(1)] show ?thesis by (blast intro: loader_frame_trans)
next
  case (ran h2 h4)
  let ?b = "read_status os (world h2)"
  have "loader_frame i h (announce_setup os ops sid h)" "loader_frame i h2 (announce_run os ops sid ?b h2)"
    "loader_frame i h4 (report_result os ops sid ?b res h4)"
    by (rule loader_frame_same; simp)+
  with setup_frame [OF ran(1)] run_frame [OF ran(2)] teardown_frame show ?thesis
    unfolding ran(3) by (blast intro: loader_frame_trans)
qed

lemma completed_run_cleans:
  assumes "run_scenario os ops sid h = Some (Finished res, h')"
    and "\<forall>e. fst (sc_setup ops (announce_setup os ops sid h)) \<noteq> Unexpected e"
  shows "loaded_modules h' i = []"
  using assms(1)
  by (cases rule: run_scenario_cases) (use assms(2) teardown_empties in auto)

end

end
