(* ===== verification/Scenarios.thy ===== *)
theory Scenarios
  imports Scenario
begin

text \<open>
  \<open>src/userspace/harness/scenarios\<close>: the five scenarios. Each loads its modules, acts through procfs
  and judges the outcome from the text of the status files. Their verdicts are functions of the
  texts read; all five are instances of the locale \<open>scenario\<close>. The polling loop of scenario G is a
  partial function, and its termination is proved from the clock.
\<close>

section \<open>Shared steps\<close>

definition write_command :: "'w user_os \<Rightarrow> string \<Rightarrow> string \<Rightarrow> 'w harness \<Rightarrow> 'w harness" where
  "write_command os path text h =
     (if can_write os path (world h) then h\<lparr>world := write_file os path text (world h)\<rparr> else h)"

text \<open>A successful read whose text satisfies a test.\<close>

definition reads :: "(string, string) expected \<Rightarrow> (string \<Rightarrow> bool) \<Rightarrow> bool" where
  "reads r P \<longleftrightarrow> (case r of Expected s \<Rightarrow> P s | Unexpected _ \<Rightarrow> False)"

section \<open>Scenario B\<close>

definition scenario_b_setup ::
  "'w user_os \<Rightarrow> nat \<Rightarrow> 'w harness \<Rightarrow> (unit, string) expected \<times> 'w harness" where
  "scenario_b_setup os i h = load_sequence os i
     [(''modules/ctx_monitor.ko'', []), (''modules/safety_mem.ko'', []), (''modules/mutex_threads.ko'', [])] h"

definition scenario_b_verdict :: "u64 \<Rightarrow> (string, string) expected \<Rightarrow> scenario_result" where
  "scenario_b_verdict latency content =
     (if reads content (\<lambda>s. str_contains s kCorruptSentinelStatus \<or> str_contains s ''CORRUPTED'')
      then scenario_result_of Passed latency latency 0 []
      else scenario_result_of Failed latency 0 0 ''Rogue write failed to corrupt memory'')"

definition scenario_b_run ::
  "'w user_os \<Rightarrow> nat \<Rightarrow> 'w harness \<Rightarrow> (scenario_result \<times> 'w harness) option" where
  "scenario_b_run os i h =
     (case load_module os i ''modules/rogue_thread.ko'' kRogueWriteModuleParams h of
        (Unexpected e, h1) \<Rightarrow>
          Some (\<lparr>result_status = Error, metrics = no_metrics, error_message = e\<rparr>, h1)
      | (Expected _, h1) \<Rightarrow>
          let h2 = pause os (int kThreadAttackObservationTime) h1;
              content = proc_read os ''/proc/safety_mem_status'' (world h2)
          in Some (scenario_b_verdict (elapsed_ns os (world h) (world h2)) content, h2))"

section \<open>Scenario D\<close>

definition scenario_d_setup ::
  "'w user_os \<Rightarrow> nat \<Rightarrow> 'w harness \<Rightarrow> (unit, string) expected \<times> 'w harness" where
  "scenario_d_setup os i h =
     (case load_sequence os i [(''modules/ctx_monitor.ko'', []), (''modules/safety_mem.ko'', []),
             (''modules/mutex_threads.ko'', []), (''modules/bad_driver.ko'', [])] h of
        (Unexpected e, h1) \<Rightarrow> (Unexpected e, h1)
      | (Expected _, h1) \<Rightarrow>
          (Expected (), write_command os ''/proc/safety_mem_status'' kEnableProtectionCommand h1))"

definition scenario_d_verdict :: "u64 \<Rightarrow> (string, string) expected \<Rightarrow> scenario_result" where
  "scenario_d_verdict latency content =
     (if reads content (\<lambda>s. str_contains s kLinearBypassStatus \<or> str_contains s ''CORRUPTED''
           \<or> \<not> str_contains s (''value_via_phys: '' @ kSafetySentinelStatus))
      then scenario_result_of Passed latency latency 0 []
      else scenario_result_of Failed latency 0 0
             ''Linear map bypass did not display expected value divergence'')"

definition scenario_d_run ::
  "'w user_os \<Rightarrow> 'w harness \<Rightarrow> (scenario_result \<times> 'w harness) option" where
  "scenario_d_run os h =
     (let h1 = pause os (int kAttackSettleTime) (write_command os ''/proc/bad_driver_ts'' kLinearMapAttackCommand h);
          content = proc_read os ''/proc/safety_mem_status'' (world h1)
      in Some (scenario_d_verdict (elapsed_ns os (world h) (world h1)) content, h1))"

section \<open>Scenario E\<close>

text \<open>The dash of the source text is the three bytes of its UTF-8 encoding.\<close>

definition em_dash :: string where "em_dash = [CHR 0xE2, CHR 0x80, CHR 0x94]"

definition scenario_e_setup ::
  "'w user_os \<Rightarrow> nat \<Rightarrow> 'w harness \<Rightarrow> (unit, string) expected \<times> 'w harness" where
  "scenario_e_setup os i h = load_sequence os i
     [(''modules/ctx_monitor.ko'', []), (''modules/safety_mem.ko'', []), (''modules/smmu_guard.ko'', []),
      (''modules/bad_driver.ko'', [])] h"

definition scenario_e_verdict ::
  "u64 \<Rightarrow> (string, string) expected \<Rightarrow> (string, string) expected \<Rightarrow> scenario_result" where
  "scenario_e_verdict latency content smmu_log =
     (let memory_corrupted =
            reads content (\<lambda>s. str_contains s kLinearBypassStatus \<or> str_contains s ''CORRUPTED'');
          smmu_silent = (\<not> reads smmu_log (\<lambda>s. str_contains s ''FAULT''))
      in if memory_corrupted \<and> smmu_silent
         then scenario_result_of Passed latency latency 0
           ''CPU write via linear map SUCCEEDED despite SMMU being active. SMMU only guards bus masters.''
         else if \<not> memory_corrupted
         then scenario_result_of Failed latency 0 0
           ''Expected memory corruption via CPU linear map write, but memory was not corrupted''
         else scenario_result_of Failed latency 0 0
           (''SMMU unexpectedly fired a fault on a CPU write '' @ em_dash @ '' this should not happen''))"

definition scenario_e_run ::
  "'w user_os \<Rightarrow> 'w harness \<Rightarrow> (scenario_result \<times> 'w harness) option" where
  "scenario_e_run os h =
     (let h1 = pause os (int kAttackSettleTime) (write_command os ''/proc/bad_driver_ts'' kLinearMapAttackCommand h);
          content = proc_read os ''/proc/safety_mem_status'' (world h1);
          smmu_log = proc_read os ''/proc/smmu_guard_log'' (world h1)
      in Some (scenario_e_verdict (elapsed_ns os (world h) (world h1)) content smmu_log, h1))"

section \<open>Scenario F\<close>

definition scenario_f_setup ::
  "'w user_os \<Rightarrow> nat \<Rightarrow> 'w harness \<Rightarrow> (unit, string) expected \<times> 'w harness" where
  "scenario_f_setup os i h =
     (case load_sequence os i [(''modules/ctx_monitor.ko'', []), (''modules/safety_mem.ko'', []),
             (''modules/smmu_guard.ko'', []), (''modules/mutex_threads.ko'', []),
             (''modules/bad_driver.ko'', [])] h of
        (Unexpected e, h1) \<Rightarrow> (Unexpected e, h1)
      | (Expected _, h1) \<Rightarrow>
          let h2 = write_command os ''/proc/safety_mem_status'' kEnableProtectionCommand h1;
              status = proc_read os ''/proc/safety_mem_status'' (world h2)
          in if reads status (\<lambda>s. str_contains s kProtectionEnabledStatus
                                \<and> str_contains s kVmallocReadOnlyStatus)
             then (Expected (), h2)
             else (Unexpected
               ''Scenario F setup aborted: vmalloc attack target was not verified read-only'', h2))"

definition log_shows_fault :: "(string, string) expected \<Rightarrow> bool" where
  "log_shows_fault r = reads r (\<lambda>s. str_contains s ''FAULT'' \<or> str_contains s ''BLOCKED'')"

definition scenario_f_verdict ::
  "u64 \<Rightarrow> (string, string) expected \<Rightarrow> (string, string) expected \<Rightarrow> (string, string) expected
     \<Rightarrow> scenario_result" where
  "scenario_f_verdict latency mon_log smmu_log status =
     (if reads status (\<lambda>s. str_contains s (''value_via_vmalloc: '' @ kSafetySentinelStatus)
                         \<and> str_contains s (''value_via_phys: '' @ kSafetySentinelStatus))
      then scenario_result_of Passed latency latency kIllustrativeTlbFlushLatencyNs
             (if log_shows_fault mon_log \<or> log_shows_fault smmu_log
              then ''Attack blocked and recorded by a protection monitor''
              else ''Attack target remained read-only; safety value was preserved'')
      else scenario_result_of Failed latency 0 0
             ''Safety value changed after a write to the verified read-only attack target'')"

definition scenario_f_run ::
  "'w user_os \<Rightarrow> 'w harness \<Rightarrow> (scenario_result \<times> 'w harness) option" where
  "scenario_f_run os h =
     (let h1 = pause os (int kAttackSettleTime) (write_command os ''/proc/bad_driver_ts'' kVmallocAttackCommand h)
      in Some (scenario_f_verdict (elapsed_ns os (world h) (world h1))
                 (proc_read os ''/proc/ctx_monitor_log'' (world h1))
                 (proc_read os ''/proc/smmu_guard_log'' (world h1))
                 (proc_read os ''/proc/safety_mem_status'' (world h1)), h1))"

section \<open>Scenario G\<close>

definition parse_counter :: "string \<Rightarrow> string \<Rightarrow> nat option" where
  "parse_counter status field =
     (case str_find status field of
        None \<Rightarrow> None
      | Some field_pos \<Rightarrow>
          (case find_first_not_of status ('' '' @ [CHR 0x09]) (field_pos + length field) of
             None \<Rightarrow> None
           | Some value_begin \<Rightarrow>
               let value_text = (case find_first_of status [CHR 0x0D, newline] value_begin of
                                   None \<Rightarrow> drop value_begin status
                                 | Some value_end \<Rightarrow> substr status value_begin (value_end - value_begin))
               in (case from_chars 10 (2 ^ 64) value_text of
                     (Errc_ok, Some v, []) \<Rightarrow> Some v
                   | _ \<Rightarrow> None)))"

definition scenario_g_setup ::
  "'w user_os \<Rightarrow> nat \<Rightarrow> 'w harness \<Rightarrow> (unit, string) expected \<times> 'w harness" where
  "scenario_g_setup os i h = load_sequence os i
     [(''modules/ctx_monitor.ko'', []), (''modules/safety_mem.ko'', []), (''modules/mutex_threads.ko'', [])] h"

text \<open>The polling loop: the counter it saw or the last read error, and the world it stopped in.\<close>

partial_function (option) poll_metadata ::
  "'w user_os \<Rightarrow> int \<Rightarrow> string \<Rightarrow> 'w \<Rightarrow> ((nat + string) \<times> 'w) option" where
  "poll_metadata os deadline last_read_error w =
     (if now_ns os w < deadline
      then (case proc_read os kRogueStatusPath w of
              Expected s \<Rightarrow>
                (case parse_counter s kMetadataAttackCountField of
                   None \<Rightarrow> poll_metadata os deadline last_read_error (sleep_ms os (int kAttackStatusPollInterval) w)
                 | Some n \<Rightarrow>
                     if n > 0 then Some (Inl n, w)
                     else poll_metadata os deadline last_read_error (sleep_ms os (int kAttackStatusPollInterval) w))
            | Unexpected e \<Rightarrow> poll_metadata os deadline e (sleep_ms os (int kAttackStatusPollInterval) w))
      else Some (Inr last_read_error, w))"

definition scenario_g_verdict :: "u64 \<Rightarrow> nat + string \<Rightarrow> scenario_result" where
  "scenario_g_verdict latency seen =
     (case seen of
        Inl n \<Rightarrow> scenario_result_of Passed latency latency 0
          (''Observed '' @ dec_nat n @ '' mutex-owner metadata corruption(s) via '' @ kRogueStatusPath)
      | Inr e \<Rightarrow> scenario_result_of Failed latency 0 0
          (if e = [] then ''No mutex metadata corruption was observed before the timeout''
           else ''Could not verify mutex metadata corruption: '' @ e))"

definition scenario_g_run ::
  "'w user_os \<Rightarrow> nat \<Rightarrow> 'w harness \<Rightarrow> (scenario_result \<times> 'w harness) option" where
  "scenario_g_run os i h =
     (case load_module os i ''modules/rogue_thread.ko'' kRogueMetadataModuleParams h of
        (Unexpected e, h1) \<Rightarrow>
          Some (\<lparr>result_status = Error, metrics = no_metrics, error_message = e\<rparr>, h1)
      | (Expected _, h1) \<Rightarrow>
          (case poll_metadata os (now_ns os (world h) + int kMetadataAttackObservationTime * 1000000) []
                  (world h1) of
             None \<Rightarrow> None
           | Some (seen, w) \<Rightarrow>
               Some (scenario_g_verdict (elapsed_ns os (world h) w) seen, h1\<lparr>world := w\<rparr>)))"

section \<open>The scenario objects\<close>

definition scenario_b_teardown :: "'w user_os \<Rightarrow> nat \<Rightarrow> 'w harness \<Rightarrow> 'w harness" where
  "scenario_b_teardown os i = unload_all os i"

definition scenario_d_teardown :: "'w user_os \<Rightarrow> nat \<Rightarrow> 'w harness \<Rightarrow> 'w harness" where
  "scenario_d_teardown os i = unload_all os i"

definition scenario_e_teardown :: "'w user_os \<Rightarrow> nat \<Rightarrow> 'w harness \<Rightarrow> 'w harness" where
  "scenario_e_teardown os i = unload_all os i"

definition scenario_f_teardown :: "'w user_os \<Rightarrow> nat \<Rightarrow> 'w harness \<Rightarrow> 'w harness" where
  "scenario_f_teardown os i = unload_all os i"

definition scenario_g_teardown :: "'w user_os \<Rightarrow> nat \<Rightarrow> 'w harness \<Rightarrow> 'w harness" where
  "scenario_g_teardown os i = unload_all os i"

definition scenario_b :: "'w user_os \<Rightarrow> nat \<Rightarrow> 'w scenario_ops" where
  "scenario_b os i = \<lparr>sc_name = ''Scenario B: Mutex + Rogue Thread'',
     sc_setup = scenario_b_setup os i, sc_run = scenario_b_run os i, sc_teardown = scenario_b_teardown os i\<rparr>"

definition scenario_d :: "'w user_os \<Rightarrow> nat \<Rightarrow> 'w scenario_ops" where
  "scenario_d os i = \<lparr>sc_name = ''Scenario D: DMA Linear Map Bypass'',
     sc_setup = scenario_d_setup os i, sc_run = scenario_d_run os, sc_teardown = scenario_d_teardown os i\<rparr>"

definition scenario_e :: "'w user_os \<Rightarrow> nat \<Rightarrow> 'w scenario_ops" where
  "scenario_e os i = \<lparr>sc_name = ''Scenario E: SMMU Active '' @ em_dash @ '' CPU Write Bypasses SMMU'',
     sc_setup = scenario_e_setup os i, sc_run = scenario_e_run os, sc_teardown = scenario_e_teardown os i\<rparr>"

definition scenario_f :: "'w user_os \<Rightarrow> nat \<Rightarrow> 'w scenario_ops" where
  "scenario_f os i = \<lparr>sc_name = ''Scenario F: Full CTX + SMMU Isolation'',
     sc_setup = scenario_f_setup os i, sc_run = scenario_f_run os, sc_teardown = scenario_f_teardown os i\<rparr>"

definition scenario_g :: "'w user_os \<Rightarrow> nat \<Rightarrow> 'w scenario_ops" where
  "scenario_g os i = \<lparr>sc_name = ''Scenario G: Mutex Metadata Attack'',
     sc_setup = scenario_g_setup os i, sc_run = scenario_g_run os i, sc_teardown = scenario_g_teardown os i\<rparr>"

section \<open>The contract holds for all five\<close>

lemma load_module_frame: "load_module os i path params h = (r, h') \<Longrightarrow> loader_frame i h h'"
proof -
  assume a: "load_module os i path params h = (r, h')"
  from a have "(\<forall>j. j \<noteq> i \<longrightarrow> loaded_modules h' j = loaded_modules h j)
      \<and> g_signal_received h' = g_signal_received h"
    by (cases rule: load_module_cases) simp_all
  with loader_inv_load [OF _ a] show ?thesis by (simp add: loader_frame_def)
qed

lemma load_then_same:
  assumes "load_module os i path params h = (r, h1)" "loaded_modules h2 = loaded_modules h1"
    and "g_active_loaders h2 = g_active_loaders h1" "g_signal_received h2 = g_signal_received h1"
  shows "loader_frame i h h2"
  using loader_frame_trans [OF load_module_frame [OF assms(1)] loader_frame_same [OF assms(2-4)]] .

lemma load_sequence_frame: "load_sequence os i ps h = (r, h') \<Longrightarrow> loader_frame i h h'"
proof (induction ps arbitrary: h)
  case Nil
  then show ?case by (simp add: loader_frame_def)
next
  case (Cons p ps)
  obtain path params where p: "p = (path, params)" by fastforce
  obtain r1 h1 where one: "load_module os i path params h = (r1, h1)" by fastforce
  note f1 = load_module_frame [OF one]
  show ?case
  proof (cases r1)
    case (Expected u)
    with Cons.prems one p have "load_sequence os i ps h1 = (r, h')" by simp
    from loader_frame_trans [OF f1 Cons.IH [OF this]] show ?thesis .
  next
    case (Unexpected e)
    with Cons.prems one p f1 show ?thesis by simp
  qed
qed

declare load_sequence.simps [simp del]

lemma write_command_sel [simp]:
  "loaded_modules (write_command os p t h) = loaded_modules h"
  "g_active_loaders (write_command os p t h) = g_active_loaders h"
  "g_signal_received (write_command os p t h) = g_signal_received h"
  by (simp_all add: write_command_def)

lemma write_command_frame: "loader_frame i h (write_command os p t h)"
  by (rule loader_frame_same) simp_all

lemma unload_all_frame: "loader_frame i h (unload_all os i h)"
  by (simp add: loader_frame_def loader_inv_unload_all) (simp add: unload_all_def)

lemmas scenario_teardowns = scenario_b_teardown_def scenario_d_teardown_def scenario_e_teardown_def
  scenario_f_teardown_def scenario_g_teardown_def

lemmas scenario_objects = scenario_b_def scenario_d_def scenario_e_def scenario_f_def scenario_g_def
  scenario_teardowns

interpretation scen_b: scenario os i "scenario_b os i" for os i
proof unfold_locales
  fix h h' r res
  show "loader_frame i h h'" if "sc_setup (scenario_b os i) h = (r, h')"
    using that by (auto simp: scenario_objects scenario_b_setup_def intro: load_sequence_frame)
  show "loader_frame i h h'" if "sc_run (scenario_b os i) h = Some (res, h')"
    using that
    by (auto simp: scenario_objects scenario_b_run_def Let_def split: prod.splits expected.splits
        elim!: load_then_same)
qed (simp_all add: scenario_objects unload_all_frame)

interpretation scen_d: scenario os i "scenario_d os i" for os i
proof unfold_locales
  fix h h' r res
  show "loader_frame i h h'" if "sc_setup (scenario_d os i) h = (r, h')"
    using that by (auto simp: scenario_objects scenario_d_setup_def split: prod.splits expected.splits
        intro: load_sequence_frame loader_frame_trans [OF load_sequence_frame write_command_frame])
  show "loader_frame i h h'" if "sc_run (scenario_d os i) h = Some (res, h')"
    using that by (auto simp: scenario_objects scenario_d_run_def Let_def intro!: loader_frame_same)
qed (simp_all add: scenario_objects unload_all_frame)

interpretation scen_e: scenario os i "scenario_e os i" for os i
proof unfold_locales
  fix h h' r res
  show "loader_frame i h h'" if "sc_setup (scenario_e os i) h = (r, h')"
    using that by (auto simp: scenario_objects scenario_e_setup_def intro: load_sequence_frame)
  show "loader_frame i h h'" if "sc_run (scenario_e os i) h = Some (res, h')"
    using that by (auto simp: scenario_objects scenario_e_run_def Let_def intro!: loader_frame_same)
qed (simp_all add: scenario_objects unload_all_frame)

interpretation scen_f: scenario os i "scenario_f os i" for os i
proof unfold_locales
  fix h h' r res
  show "loader_frame i h h'" if "sc_setup (scenario_f os i) h = (r, h')"
    using that by (auto simp: scenario_objects scenario_f_setup_def Let_def
        split: prod.splits expected.splits if_splits
        intro: load_sequence_frame loader_frame_trans [OF load_sequence_frame write_command_frame])
  show "loader_frame i h h'" if "sc_run (scenario_f os i) h = Some (res, h')"
    using that by (auto simp: scenario_objects scenario_f_run_def Let_def intro!: loader_frame_same)
qed (simp_all add: scenario_objects unload_all_frame)

interpretation scen_g: scenario os i "scenario_g os i" for os i
proof unfold_locales
  fix h h' r res
  show "loader_frame i h h'" if "sc_setup (scenario_g os i) h = (r, h')"
    using that by (auto simp: scenario_objects scenario_g_setup_def intro: load_sequence_frame)
  show "loader_frame i h h'" if "sc_run (scenario_g os i) h = Some (res, h')"
    using that
    by (auto simp: scenario_objects scenario_g_run_def Let_def split: prod.splits expected.splits option.splits
        elim!: load_then_same)
qed (simp_all add: scenario_objects unload_all_frame)

section \<open>What a run of any scenario guarantees\<close>

lemma scenario_all:
  assumes "ops \<in> {scenario_b os i, scenario_d os i, scenario_e os i, scenario_f os i, scenario_g os i}"
  shows "scenario i ops"
  using assms scen_b.scenario_axioms scen_d.scenario_axioms scen_e.scenario_axioms
    scen_f.scenario_axioms scen_g.scenario_axioms by auto

text \<open>
  C24: whichever of the five scenarios the runner finishes, the other scenarios' modules are
  untouched and the loader registry stays sound; if setup succeeded the scenario's own loader ends
  empty, and if setup failed the result is an error that carries setup's message.
\<close>

theorem run_scenario_contract:
  assumes "ops \<in> {scenario_b os i, scenario_d os i, scenario_e os i, scenario_f os i, scenario_g os i}"
    and "run_scenario os ops sid h = Some (Finished res, h')" "loader_inv h"
  shows "(\<forall>j. j \<noteq> i \<longrightarrow> loaded_modules h' j = loaded_modules h j) \<and> loader_inv h'
    \<and> (case fst (sc_setup ops (announce_setup os ops sid h)) of
         Expected _ \<Rightarrow> loaded_modules h' i = []
       | Unexpected e \<Rightarrow> result_status res = Error \<and> error_message res = e)"
proof -
  have c: "scenario i ops" using assms(1) by (rule scenario_all)
  from scenario.run_scenario_frame [OF c assms(2)] assms(3)
  have "(\<forall>j. j \<noteq> i \<longrightarrow> loaded_modules h' j = loaded_modules h j) \<and> loader_inv h'"
    by (simp add: loader_frame_def)
  moreover have "case fst (sc_setup ops (announce_setup os ops sid h)) of
         Expected _ \<Rightarrow> loaded_modules h' i = []
       | Unexpected e \<Rightarrow> result_status res = Error \<and> error_message res = e"
    using assms(2)
  proof (cases rule: run_scenario_cases)
    case (setup_failed e h2)
    then show ?thesis by simp
  next
    case (ran h2 h4)
    then show ?thesis using scenario.teardown_empties [OF c] by simp
  qed
  ultimately show ?thesis by blast
qed

lemma ref_load_sequence:
  "\<exists>h'. load_sequence ref_user_os i ps h = (Expected (), h')"
proof (induction ps arbitrary: h)
  case (Cons p ps)
  obtain path params where p: "p = (path, params)" by fastforce
  obtain h1 where "load_module ref_user_os i path params h = (Expected (), h1)"
    by (cases "is_loaded i (path_stem path) h")
      (simp_all add: load_module_def resolve_module_def ref_user_os_def Let_def)
  with Cons.IH [of h1] show ?case by (simp add: p load_sequence.simps)
qed (simp add: load_sequence.simps)

theorem run_scenario_contract_witness:
  "\<exists>res h'. run_scenario ref_user_os (scenario_e ref_user_os 2) ''E'' (harness_start ([], 0))
      = Some (Finished res, h') \<and> loaded_modules h' 2 = []"
proof -
  let ?sc = "scenario_e ref_user_os 2" and ?h = "harness_start ([], 0)"
  obtain h2 where s: "sc_setup ?sc (announce_setup ref_user_os ?sc ''E'' ?h) = (Expected (), h2)"
  proof -
    have "sc_setup ?sc = scenario_e_setup ref_user_os 2" by (simp add: scenario_e_def)
    with that show thesis using ref_load_sequence unfolding scenario_e_setup_def by metis
  qed
  obtain res h' where r: "run_scenario ref_user_os ?sc ''E'' ?h = Some (Finished res, h')"
    using s by (simp add: run_scenario_def cleanup_on_signal_def harness_start_def
        scenario_objects scenario_e_run_def Let_def)
  from run_scenario_contract [OF _ r loader_inv_start, of 2] s r show ?thesis by auto
qed

section \<open>Scenario G ends\<close>

text \<open>A sleep takes at least its duration.\<close>

definition clock_ok :: "'w user_os \<Rightarrow> bool" where
  "clock_ok os \<longleftrightarrow> (\<forall>n w. now_ns os w + n * 1000000 \<le> now_ns os (sleep_ms os n w))"

lemma poll_metadata_spec:
  assumes "clock_ok os"
  shows "\<exists>seen w'. poll_metadata os deadline e w = Some (seen, w')
    \<and> (\<forall>n. seen = Inl n \<longrightarrow> (\<exists>s. proc_read os kRogueStatusPath w' = Expected s
         \<and> parse_counter s kMetadataAttackCountField = Some n \<and> 0 < n))"
proof (induction "nat (deadline - now_ns os w)" arbitrary: e w rule: less_induct)
  case less
  show ?case
  proof (cases "now_ns os w < deadline")
    case True
    let ?w = "sleep_ms os (int kAttackStatusPollInterval) w"
    have "now_ns os w < now_ns os ?w"
      using assms [unfolded clock_ok_def, rule_format, of w "int kAttackStatusPollInterval"]
      by (simp add: kAttackStatusPollInterval_def)
    then have "nat (deadline - now_ns os ?w) < nat (deadline - now_ns os w)" using True by simp
    from less.hyps [OF this] True show ?thesis
      by (subst poll_metadata.simps) (auto split: expected.splits option.splits simp del: proc_read_Expected)
  qed (subst poll_metadata.simps, simp)
qed

text \<open>
  Scenario G always ends and judges by what it saw: if a sleep lasts at least its time, its run
  returns; it passes only with a positive counter read from the rogue thread's status, and fails or
  reports an error otherwise.
\<close>

theorem scenario_g_terminates:
  assumes "clock_ok os"
  shows "\<exists>res h'. scenario_g_run os i h = Some (res, h')
    \<and> result_status res \<in> {Passed, Failed, Error}
    \<and> (result_status res = Passed \<longrightarrow>
         (\<exists>s n. proc_read os kRogueStatusPath (world h') = Expected s
            \<and> parse_counter s kMetadataAttackCountField = Some n \<and> 0 < n))"
proof -
  obtain r h1 where l: "load_module os i ''modules/rogue_thread.ko'' kRogueMetadataModuleParams h = (r, h1)"
    by fastforce
  let ?d = "now_ns os (world h) + int kMetadataAttackObservationTime * 1000000"
  obtain seen w where p: "poll_metadata os ?d [] (world h1) = Some (seen, w)"
    and saw: "\<forall>n. seen = Inl n \<longrightarrow> (\<exists>s. proc_read os kRogueStatusPath w = Expected s
      \<and> parse_counter s kMetadataAttackCountField = Some n \<and> 0 < n)"
    using poll_metadata_spec [OF assms, of ?d "[]" "world h1"] by blast
  show ?thesis
  proof (cases r)
    case (Expected u)
    with l p saw show ?thesis
      by (cases seen) (auto simp: scenario_g_run_def scenario_g_verdict_def scenario_result_of_def)
  next
    case (Unexpected e)
    with l show ?thesis by (auto simp: scenario_g_run_def)
  qed
qed

theorem scenario_g_terminates_witness:
  "\<exists>res h'. scenario_g_run ref_user_os 4 (harness_start ([], 0)) = Some (res, h')"
proof -
  have "clock_ok ref_user_os" by (simp add: clock_ok_def ref_user_os_def)
  from scenario_g_terminates [OF this, of 4 "harness_start ([], 0)"] show ?thesis by blast
qed

end
