(* ===== verification/Demo_System.thy ===== *)
theory Demo_System
  imports Status_Text Procfs Scenarios
begin

text \<open>
  Kernel and harness together. The harness's operating system is connected to the modules' models:
  a read of a procfs file returns what the module's show function prints in the current kernel
  state, a write runs its write handler. On that system the verdicts of scenarios D, E and F are
  related to what really happened in memory, and scenario G's counter to the rogue thread's.
\<close>

section \<open>procfs\<close>

text \<open>
  Where a world keeps the state of the modules. \<open>procfs_ok\<close> says that the files of userspace's world
  are the files of the modules: a read gives what the file's show function prints, a write to the
  attack driver's file runs its handler at time \<open>now\<close>; the log buffers can be allocated.
\<close>

type_synonym ('w, 'm) procfs = "'w \<Rightarrow> 'm module_states"

abbreviation kernel_of :: "('w, 'm) procfs \<Rightarrow> 'w \<Rightarrow> 'm kstate" where
  "kernel_of P w \<equiv> ms_kernel (P w)"

abbreviation driver_of :: "('w, 'm) procfs \<Rightarrow> 'w \<Rightarrow> bad_driver_state" where
  "driver_of P w \<equiv> ms_driver (P w)"

abbreviation guard_of :: "('w, 'm) procfs \<Rightarrow> 'w \<Rightarrow> smmu_guard_state" where
  "guard_of P w \<equiv> ms_guard (P w)"

definition procfs_ok ::
  "'w user_os \<Rightarrow> 'm kernel_mm \<Rightarrow> mutex_api \<Rightarrow> kernel_lib \<Rightarrow> u64 \<Rightarrow> ('w, 'm) procfs \<Rightarrow> bool" where
  "procfs_ok os K M L now P \<longleftrightarrow>
     (\<forall>w cur path mode ops. proc_file K M L cur now True path = Some (mode, ops) \<longrightarrow>
        proc_read os path w = Expected (snd (proc_open ops (P w))))
     \<and> (\<forall>w t h. proc_write (bad_driver_proc_ops K M L now) = Some h \<longrightarrow>
        (\<exists>ret. h True t (P w) = Inr (ret, P (write_file os ''/proc/bad_driver_ts'' t w))))
     \<and> (\<forall>w. can_write os ''/proc/bad_driver_ts'' w)"

text \<open>A sleep during which nobody else touches the modules.\<close>

definition quiet :: "'w user_os \<Rightarrow> ('w, 'm) procfs \<Rightarrow> bool" where
  "quiet os P \<longleftrightarrow> (\<forall>n w. kernel_of P (sleep_ms os n w) = kernel_of P w
     \<and> driver_of P (sleep_ms os n w) = driver_of P w \<and> guard_of P (sleep_ms os n w) = guard_of P w)"

text \<open>A sleep during which other code may run but at most restores the safety word.\<close>

definition word_of :: "'m kernel_mm \<Rightarrow> 'm kstate \<Rightarrow> u32 \<times> u32" where
  "word_of K k = (nofault_value K (g_vmalloc_addr (sm k)) (mach k), nofault_value K (g_virt_addr (sm k)) (mach k))"

definition restoring :: "'w user_os \<Rightarrow> 'm kernel_mm \<Rightarrow> ('w, 'm) procfs \<Rightarrow> bool" where
  "restoring os K P \<longleftrightarrow> (\<forall>n w. word_of K (kernel_of P (sleep_ms os n w))
     \<in> {word_of K (kernel_of P w), (SAFETY_SENTINEL, SAFETY_SENTINEL)})"

lemma procfs_okD:
  assumes "procfs_ok os K M L now P"
  shows "proc_read os ''/proc/safety_mem_status'' w = Expected (snd (safety_mem_proc_show K M L (kernel_of P w)))"
    "proc_read os ''/proc/smmu_guard_log'' w = Expected (snd (smmu_guard_proc_show L True (guard_of P w)))"
    "can_write os ''/proc/bad_driver_ts'' w"
    "snd (bad_driver_proc_write K M L now True t (kernel_of P w) (driver_of P w))
       = (kernel_of P (write_file os ''/proc/bad_driver_ts'' t w),
          driver_of P (write_file os ''/proc/bad_driver_ts'' t w))"
    "guard_of P (write_file os ''/proc/bad_driver_ts'' t w) = guard_of P w"
proof -
  have read: "proc_read os path w = Expected (snd (proc_open ops (P w)))"
    if "proc_file K M L 0 now True path = Some (mode, ops)" for path mode ops
    using assms that unfolding procfs_ok_def by blast
  show "proc_read os ''/proc/safety_mem_status'' w = Expected (snd (safety_mem_proc_show K M L (kernel_of P w)))"
    "proc_read os ''/proc/smmu_guard_log'' w = Expected (snd (smmu_guard_proc_show L True (guard_of P w)))"
    using read [OF proc_paths(1)] read [OF proc_paths(3)]
    by (simp_all add: proc_ops_defs proc_open_defs del: proc_read_Expected)
  show "can_write os ''/proc/bad_driver_ts'' w" using assms unfolding procfs_ok_def by blast
  obtain ret k b where r: "bad_driver_proc_write K M L now True t (kernel_of P w) (driver_of P w) = (ret, k, b)"
    by (metis prod_cases3)
  obtain h where h: "proc_write (bad_driver_proc_ops K M L now) = Some h"
    "h True t (P w) = Inr (ret, (P w)\<lparr>ms_kernel := k, ms_driver := b\<rparr>)"
    using r by (simp add: bad_driver_proc_ops_def)
  have "\<exists>ret'. h True t (P w) = Inr (ret', P (write_file os ''/proc/bad_driver_ts'' t w))"
    using assms h(1) unfolding procfs_ok_def by blast
  then have "P (write_file os ''/proc/bad_driver_ts'' t w) = (P w)\<lparr>ms_kernel := k, ms_driver := b\<rparr>"
    using h(2) by auto
  with r show "snd (bad_driver_proc_write K M L now True t (kernel_of P w) (driver_of P w))
       = (kernel_of P (write_file os ''/proc/bad_driver_ts'' t w),
          driver_of P (write_file os ''/proc/bad_driver_ts'' t w))"
    "guard_of P (write_file os ''/proc/bad_driver_ts'' t w) = guard_of P w"
    by simp_all
qed

section \<open>Scenario F\<close>

text \<open>A command of the harness reaches the attack it names.\<close>

lemma attack_command:
  assumes "kernel_lib_ok L" "n < 10" "attack_of_number n = Some mode"
  shows "bad_driver_proc_write K M L now True (dec_nat n) k b
    = (int (length (dec_nat n)), snd (execute_attack K M now mode k b))"
proof -
  have "length (dec_nat n) \<le> 1" unfolding dec_nat_def by (rule length_num_str) (use assms(2) in simp_all)
  then have "length ([] @ dec_nat n @ []) < DEMO_COMMAND_BUFFER_SIZE"
    by (simp add: DEMO_COMMAND_BUFFER_SIZE_def)
  from proc_write_number [OF assms(1) _ _ _ this, of K M now k b] assms(2,3) show ?thesis by simp
qed

lemma harness_commands: "kVmallocAttackCommand = dec_nat 1" "kLinearMapAttackCommand = dec_nat 3"
  by (simp_all add: kVmallocAttackCommand_def kLinearMapAttackCommand_def dec_nat_def num_str.simps
      digit_lower_def)

text \<open>
  C6: scenario F's verdict is sound. If its setup accepts the system, then the vmalloc alias really
  is not writable; and if the safety word is intact at that moment and other code at most restores
  it, the attack of the run cannot change it and the run passes. All the harness looks at is text.
\<close>

theorem scenario_f_sound:
  assumes "procfs_ok os K M L now P" "restoring os K P"
    and "kernel_mm_ok K" "kernel_lib_ok L"
    and "scenario_f_setup os i h = (Expected (), h2)"
    and "g_vmalloc_addr (sm (kernel_of P (world h2))) \<noteq> 0"
    and "word_of K (kernel_of P (world h2)) = (SAFETY_SENTINEL, SAFETY_SENTINEL)"
  shows "\<not> is_writable (safety_mem_walk_pgtable K (mach (kernel_of P (world h2)))
             (g_vmalloc_addr (sm (kernel_of P (world h2)))))
    \<and> (\<exists>res h3. scenario_f_run os h2 = Some (res, h3) \<and> result_status res = Passed
         \<and> word_of K (kernel_of P (world h3)) = (SAFETY_SENTINEL, SAFETY_SENTINEL))"
proof -
  let ?w = "world h2" and ?w1 = "write_file os ''/proc/bad_driver_ts'' kVmallocAttackCommand (world h2)"
  let ?w2 = "sleep_ms os (int kAttackSettleTime) ?w1"
  note p = procfs_okD [OF assms(1)]
  from assms(5) have "str_contains (snd (safety_mem_proc_show K M L (kernel_of P ?w))) kVmallocReadOnlyStatus"
    by (auto simp: scenario_f_setup_def Let_def reads_def p(1) simp del: proc_read_Expected
        split: prod.splits expected.splits if_splits)
  then have ro: "\<not> is_writable (safety_mem_walk_pgtable K (mach (kernel_of P ?w))
      (g_vmalloc_addr (sm (kernel_of P ?w))))"
    using status_tests(2) [OF assms(4)] by blast
  obtain ret s' b' where a: "execute_attack K M now BAD_DRIVER_ATTACK_VMALLOC (kernel_of P ?w) (driver_of P ?w)
      = (ret, s', b')"
    by (metis prod_cases3)
  have "s' = kernel_of P ?w"
    using driver.blocked [OF assms(3) a] ro assms(6) by simp
  moreover have "bad_driver_proc_write K M L now True kVmallocAttackCommand (kernel_of P ?w) (driver_of P ?w)
      = (1, s', b')"
    using attack_command [OF assms(4), of 1 BAD_DRIVER_ATTACK_VMALLOC K M now] a
    by (simp add: harness_commands attack_of_number_def) (simp add: dec_nat_def num_str.simps)
  ultimately have "kernel_of P ?w1 = kernel_of P ?w"
    using p(4) [of kVmallocAttackCommand ?w] by simp
  then have w2: "word_of K (kernel_of P ?w2) = (SAFETY_SENTINEL, SAFETY_SENTINEL)"
    using assms(2,7) unfolding restoring_def by (metis insertE singletonD)
  let ?t = "snd (safety_mem_proc_show K M L (kernel_of P ?w2))"
  have "str_contains ?t (''value_via_vmalloc: '' @ kSafetySentinelStatus)"
    "str_contains ?t (''value_via_phys: '' @ kSafetySentinelStatus)"
    using w2 status_tests(3,4) [OF assms(4), where v = SAFETY_SENTINEL]
    unfolding word_of_def printed_sentinels(1) by blast+
  then have "\<exists>res. scenario_f_run os h2 = Some (res, (write_command os ''/proc/bad_driver_ts''
       kVmallocAttackCommand h2)\<lparr>world := ?w2\<rparr>) \<and> result_status res = Passed"
    by (simp add: scenario_f_run_def write_command_def p(3) pause_def scenario_f_verdict_def
        reads_def p(1) scenario_result_of_def Let_def del: proc_read_Expected)
  with ro w2 show ?thesis by auto
qed

text \<open>
  A concrete system: a world is the state of the modules, and every file is served from the table.
  Every module file exists and every command succeeds.
\<close>

definition ref_demo_os :: "ref_machine module_states user_os" where
  "ref_demo_os = \<lparr>file_exists = (\<lambda>p w. True),
     read_file = (\<lambda>p w. Read_text
       (case proc_file ref_kernel ref_mutex ref_lib 8 5 True p of
          None \<Rightarrow> [] | Some (mode, ops) \<Rightarrow> snd (proc_open ops w))),
     can_write = (\<lambda>p w. True),
     write_file = (\<lambda>p t w.
       case proc_file ref_kernel ref_mutex ref_lib 8 5 True p of
         None \<Rightarrow> w
       | Some (mode, ops) \<Rightarrow>
           (case proc_write ops of
              None \<Rightarrow> w | Some h \<Rightarrow> (case h True t w of Inl _ \<Rightarrow> w | Inr (ret, w') \<Rightarrow> w'))),
     system_call = (\<lambda>c w. (0, w)), sleep_ms = (\<lambda>n w. w), now_ns = (\<lambda>w. 0), command_log = (\<lambda>w. [])\<rparr>"

definition ref_procfs :: "(ref_machine module_states, ref_machine) procfs" where
  "ref_procfs = (\<lambda>w. w)"

lemma ref_procfs_ok:
  "procfs_ok ref_demo_os ref_kernel ref_mutex ref_lib 5 ref_procfs" "quiet ref_demo_os ref_procfs"
  "restoring ref_demo_os ref_kernel ref_procfs"
proof -
  have "proc_read ref_demo_os path w = Expected (snd (proc_open ops w))"
    if "proc_file ref_kernel ref_mutex ref_lib cur 5 True path = Some (mode, ops)" for w cur path mode ops
    using proc_file_cur [OF that, of 8] by (auto simp: ref_demo_os_def)
  moreover have "\<exists>ret. h True t w = Inr (ret, write_file ref_demo_os ''/proc/bad_driver_ts'' t w)"
    if "proc_write (bad_driver_proc_ops ref_kernel ref_mutex ref_lib 5) = Some h" for w t h
    using that by (auto simp: ref_demo_os_def proc_paths bad_driver_proc_ops_def split: prod.splits)
  ultimately show "procfs_ok ref_demo_os ref_kernel ref_mutex ref_lib 5 ref_procfs"
    unfolding procfs_ok_def ref_procfs_def by (simp add: ref_demo_os_def del: proc_read_Expected)
qed (simp_all add: quiet_def restoring_def ref_procfs_def ref_demo_os_def)

lemma ref_demo_loads:
  "\<exists>h'. load_sequence ref_demo_os i ps h = (Expected (), h') \<and> world h' = world h"
proof (induction ps arbitrary: h)
  case (Cons p ps)
  obtain path params where p: "p = (path, params)" by fastforce
  obtain h1 where "load_module ref_demo_os i path params h = (Expected (), h1)" "world h1 = world h"
    by (cases "is_loaded i (path_stem path) h")
      (simp_all add: load_module_def resolve_module_def ref_demo_os_def Let_def)
  with Cons.IH [of h1] show ?case by (simp add: p load_sequence.simps)
qed (simp add: load_sequence.simps)

text \<open>A system with protection on: the vmalloc alias closed, the direct alias open.\<close>

definition ref_demo_world :: "ref_machine module_states" where
  "ref_demo_world = modules_loaded (ref_state (\<lambda>a. a = 0x2000) True False 1) (rogue_started 0 CORRUPT_SENTINEL)"

lemma ref_protect_again:
  "\<exists>k'. safety_mem_proc_write ref_kernel ref_mutex ref_lib 8 True kEnableProtectionCommand
      (ref_state (\<lambda>a. a = 0x2000) True False 1) = Inr (7, k')
    \<and> g_ctx_protected (sm k') = 1 \<and> same_addrs (sm (ref_state (\<lambda>a. a = 0x2000) True False 1)) (sm k')
    \<and> mach k' = ref_machine_of (\<lambda>a. a = 0x2000) True False SAFETY_SENTINEL"
proof -
  have m: "ref_set_memory False 0x2000 1 (ref_machine_of (\<lambda>a. a = 0x2000) True False SAFETY_SENTINEL)
      = (0, ref_machine_of (\<lambda>a. a = 0x2000) True False SAFETY_SENTINEL)"
    "ref_set_memory False 0x1000 1 (ref_machine_of (\<lambda>a. a = 0x2000) True False SAFETY_SENTINEL)
      = (- EINVAL, ref_machine_of (\<lambda>a. a = 0x2000) True False SAFETY_SENTINEL)"
    by (simp_all add: ref_set_memory_def) (auto simp: ref_machine_of_def fun_eq_iff)
  have "trim_with c_isspace (takeWhile (\<lambda>c. c \<noteq> CHR 0x00) ''protect'') = ''protect''"
    by (simp add: trim_with_def c_isspace_def)
  then show ?thesis
    by (simp add: safety_mem_proc_write_def kernel_lib_okD(1) [OF ref_lib_ok] kEnableProtectionCommand_def
        command_defs DEMO_COMMAND_BUFFER_SIZE_def safety_mem_set_protection_def enable_protection_def
        set_owner_def same_addrs_def m Let_def) (intro exI [of _ False], simp)
qed

theorem scenario_f_sound_witness:
  "\<exists>h2 res h3. scenario_f_setup ref_demo_os 3 (harness_start ref_demo_world) = (Expected (), h2)
     \<and> scenario_f_run ref_demo_os h2 = Some (res, h3) \<and> result_status res = Passed"
proof -
  obtain h1 where l: "load_sequence ref_demo_os 3 [(''modules/ctx_monitor.ko'', []), (''modules/safety_mem.ko'', []),
      (''modules/smmu_guard.ko'', []), (''modules/mutex_threads.ko'', []), (''modules/bad_driver.ko'', [])]
      (harness_start ref_demo_world) = (Expected (), h1)" "world h1 = ref_demo_world"
    using ref_demo_loads by (metis harness_start_def harness.select_convs(1))
  obtain k' where k: "safety_mem_proc_write ref_kernel ref_mutex ref_lib 8 True kEnableProtectionCommand
      (ref_state (\<lambda>a. a = 0x2000) True False 1) = Inr (7, k')"
    and kp: "g_ctx_protected (sm k') = 1" "same_addrs (sm (ref_state (\<lambda>a. a = 0x2000) True False 1)) (sm k')"
      "mach k' = ref_machine_of (\<lambda>a. a = 0x2000) True False SAFETY_SENTINEL"
    using ref_protect_again by blast
  define h2 where "h2 = h1\<lparr>world := modules_loaded k' (rogue_started 0 CORRUPT_SENTINEL)\<rparr>"
  have wr: "write_command ref_demo_os ''/proc/safety_mem_status'' kEnableProtectionCommand h1 = h2"
    using k l(2) by (simp add: write_command_def ref_demo_os_def h2_def ref_demo_world_def modules_loaded_def proc_paths
        safety_mem_proc_ops_def)
  have ok: "str_contains (snd (safety_mem_proc_show ref_kernel ref_mutex ref_lib k')) kProtectionEnabledStatus"
    "str_contains (snd (safety_mem_proc_show ref_kernel ref_mutex ref_lib k')) kVmallocReadOnlyStatus"
    using status_tests(1,2) [OF ref_lib_ok, of ref_kernel ref_mutex k'] kp
    by (simp_all add: same_addrs_def dec_int_def dec_nat_def num_str.simps digit_lower_def starts_with_def)
  have s: "scenario_f_setup ref_demo_os 3 (harness_start ref_demo_world) = (Expected (), h2)"
    using l ok procfs_okD(1) [OF ref_procfs_ok(1), of "world h2"]
    by (simp add: scenario_f_setup_def wr reads_def Let_def del: proc_read_Expected)
      (simp add: ref_procfs_def h2_def modules_loaded_def)
  have v: "g_vmalloc_addr (sm (kernel_of ref_procfs (world h2))) \<noteq> 0"
    "word_of ref_kernel (kernel_of ref_procfs (world h2)) = (SAFETY_SENTINEL, SAFETY_SENTINEL)"
    using kp by (simp_all add: ref_procfs_def h2_def modules_loaded_def same_addrs_def word_of_def nofault_value_def
        copy_from_nofault [OF ref_kernel_ok] ref_load_def ref_phys_def)
  from scenario_f_sound [OF ref_procfs_ok(1,3) ref_kernel_ok ref_lib_ok s v] s show ?thesis by blast
qed

section \<open>Scenarios D and E\<close>

lemma str_contains_suffix: "str_contains s (a @ p) \<Longrightarrow> str_contains s p"
  unfolding str_contains_iff by (metis append.assoc)



section \<open>Scenario G\<close>

lemma dec_int_head: "dec_int i \<noteq> []" "hd (dec_int i) \<notin> {CHR '' '', CHR 0x09}"
  "\<forall>c \<in> set (dec_int i). c \<notin> {CHR 0x0D, newline} \<and> c \<noteq> CHR ''m''"
proof -
  have d: "is_digit 10 c \<Longrightarrow> c \<notin> {CHR '' '', CHR 0x09, CHR 0x0D, newline, CHR ''m''}" for c
    by (auto simp: is_digit_def char_digit_def split: if_splits)
  have n: "\<forall>c \<in> set (dec_nat n). is_digit 10 c" "dec_nat n \<noteq> []" for n
    using num_str_digits [OF good_digits_std(1), of n] by (simp_all add: dec_nat_def)
  show "dec_int i \<noteq> []" using n(2) by (simp add: dec_int_def)
  show "hd (dec_int i) \<notin> {CHR '' '', CHR 0x09}"
    using d n by (auto simp: dec_int_def dest!: bspec [OF _ hd_in_set])
  show "\<forall>c \<in> set (dec_int i). c \<notin> {CHR 0x0D, newline} \<and> c \<noteq> CHR ''m''"
    using d n(1) by (auto simp: dec_int_def)
qed

lemma parse_counter_at:
  assumes "str_find text fld = Some (length a)" "text = a @ fld @ '' '' @ dec_int i @ newline # b"
  shows "parse_counter text fld = (if i < 0 then None else if nat i < 2 ^ 64 then Some (nat i) else None)"
proof -
  note h = dec_int_head [of i]
  let ?s = "'' '' @ dec_int i @ newline # b" and ?n = "length a + length fld"
  have d: "drop ?n text = ?s" "length text = ?n + length ?s" using assms(2) by simp_all
  have "takeWhile (\<lambda>c. c \<in> set ('' '' @ [CHR 0x09])) ?s = '' ''"
    using h(1,2) by (cases "dec_int i") auto
  then have v: "find_first_not_of text ('' '' @ [CHR 0x09]) ?n = Some (?n + 1)"
    using d by (simp add: find_first_not_of_def Let_def)
  have d1: "drop (?n + 1) text = dec_int i @ newline # b" using d(1) by (simp add: assms(2))
  have "takeWhile (\<lambda>c. c \<notin> set [CHR 0x0D, newline]) (dec_int i @ newline # b) = dec_int i"
    using h(3) by (intro takeWhile_append_stop) auto
  then have e: "find_first_of text [CHR 0x0D, newline] (?n + 1) = Some (?n + 1 + length (dec_int i))"
    using d(2) d1 by (simp add: find_first_of_def Let_def)
  have s: "substr text (?n + 1) (length (dec_int i)) = dec_int i"
    unfolding substr_def d1 by simp
  have "parse_counter text fld = (case from_chars 10 (2 ^ 64) (dec_int i) of
      (Errc_ok, Some v, []) \<Rightarrow> Some v | _ \<Rightarrow> None)"
    using assms(1) v e s by (simp add: parse_counter_def Let_def)
  also have "\<dots> = (if i < 0 then None else if nat i < 2 ^ 64 then Some (nat i) else None)"
  proof (cases "i < 0")
    case True
    then show ?thesis by (simp add: dec_int_def from_chars_def is_digit_def char_digit_def)
  next
    case False
    then have dn: "dec_int i = dec_nat (nat i)" by (simp add: dec_int_def)
    have tw: "takeWhile (is_digit 10) (dec_nat (nat i)) = dec_nat (nat i)"
      using num_str_digits [OF good_digits_std(1), of "nat i"]
      by (simp only: takeWhile_eq_all_conv dec_nat_def)
    have "from_chars 10 (2 ^ 64) (dec_nat (nat i)) = (if 2 ^ 64 \<le> nat i
        then (Errc_result_out_of_range, None, []) else (Errc_ok, Some (nat i), []))"
      unfolding from_chars_def tw
      by (simp add: Let_def dec_nat_def digits_value_num_str)
    then show ?thesis using False unfolding dn by simp
  qed
  finally show ?thesis .
qed

text \<open>
  Scenario G reads the rogue thread's counter back exactly. From the status text of any state of
  the rogue module, the harness's parser returns the number of metadata attacks while the signed
  32-bit counter is not negative, and nothing once it has wrapped.
\<close>

theorem rogue_counter_roundtrip:
  "parse_counter (snd (rogue_status_show r)) kMetadataAttackCountField
     = (if sint (metadata_attack_counter r) < 0 then None
        else Some (unat (metadata_attack_counter r)))"
proof -
  let ?i = "sint (metadata_attack_counter r)" and ?f = kMetadataAttackCountField
  let ?b = "''ode: '' @ dec_nat (unat (attack_mode r)) @ newline # ''unsynchronized_write_count: ''
    @ dec_int (sint (unsynchronized_write_counter r)) @ [newline]"
  let ?z = "?f @ '' '' @ dec_int ?i @ [newline]"
  have eq: "snd (rogue_status_show r) = ''attack_'' @ CHR ''m'' # ?b @ ?z"
    by (simp add: rogue_status_show_def kMetadataAttackCountField_def)
  have f: "?f \<noteq> []" "hd ?f = CHR ''m''" "\<not> starts_with (CHR ''m'' # ?b @ ?z) ?f" "starts_with ?z ?f"
    by (simp_all add: kMetadataAttackCountField_def starts_with_def)
  have "CHR ''m'' \<notin> set (dec_nat n)" for n
    using dec_int_head(3) [of "int n"] by (auto simp: dec_int_def)
  then have m: "CHR ''m'' \<notin> set ?b" using dec_int_head(3) by auto
  have "str_find ?z ?f = Some 0" using f(4) by (cases ?z) (simp_all add: kMetadataAttackCountField_def)
  then have "str_find (?b @ ?z) ?f = Some (length ?b)"
    using str_find_skip [OF f(1), of ?b ?z] f(2) m by simp
  then have "str_find (CHR ''m'' # ?b @ ?z) ?f = Some (Suc (length ?b))" using f(3) by simp
  then have "str_find (snd (rogue_status_show r)) ?f = Some (length (''attack_'' @ CHR ''m'' # ?b))"
    unfolding eq using str_find_skip [OF f(1), of "''attack_''"] f(2) by simp
  then have "parse_counter (snd (rogue_status_show r)) ?f
      = (if ?i < 0 then None else if nat ?i < 2 ^ 64 then Some (nat ?i) else None)"
    by (rule parse_counter_at) (simp add: eq)
  moreover have "nat ?i < 2 ^ 64" using sint_less [of "metadata_attack_counter r"] by simp
  moreover have "nat ?i = unat (metadata_attack_counter r)" if "0 \<le> ?i"
  proof -
    have "?i < 2 ^ 32" using sint_less [of "metadata_attack_counter r"] by simp
    then have "uint (metadata_attack_counter r) = ?i"
      using that by (simp add: uint_sint take_bit_int_eq_self)
    then show ?thesis by (metis nat_uint_eq)
  qed
  ultimately show ?thesis by (cases "?i < 0") (simp_all add: not_less)
qed

lemma rogue_file_counter:
  assumes "procfs_ok os K M L now P" "proc_read os kRogueStatusPath w = Expected s"
  shows "parse_counter s kMetadataAttackCountField
    = (if sint (metadata_attack_counter (ms_rogue (P w))) < 0 then None
       else Some (unat (metadata_attack_counter (ms_rogue (P w)))))"
proof -
  have "proc_read os kRogueStatusPath w = Expected (snd (proc_open rogue_proc_ops (P w)))"
    using assms(1) proc_paths(5) unfolding procfs_ok_def by blast
  with assms(2) have "s = snd (rogue_status_show (ms_rogue (P w)))"
    by (simp add: rogue_proc_ops_def del: proc_read_Expected)
  then show ?thesis by (simp only: rogue_counter_roundtrip)
qed

lemma positive_counter: "0 < unat (c :: u32) \<Longrightarrow> \<not> sint c < 0 \<Longrightarrow> 0 < sint c"
  by (metis linorder_neqE_linordered_idom signed_0 signed_word_eqI unsigned_0 less_irrefl)

lemma poll_sees_counter:
  assumes "procfs_ok os K M L now P" "now_ns os w < deadline" "0 < sint (metadata_attack_counter (ms_rogue (P w)))"
  shows "poll_metadata os deadline e w = Some (Inl (unat (metadata_attack_counter (ms_rogue (P w)))), w)"
proof -
  have r: "proc_read os kRogueStatusPath w = Expected (snd (proc_open rogue_proc_ops (P w)))"
    using assms(1) proc_paths(5) unfolding procfs_ok_def by blast
  have "unat (metadata_attack_counter (ms_rogue (P w))) \<noteq> 0" using assms(3) by (auto simp: unat_eq_0)
  with rogue_file_counter [OF assms(1) r] assms(2,3) show ?thesis
    by (subst poll_metadata.simps) (simp add: r del: proc_read_Expected)
qed

text \<open>
  C22: scenario G's verdict is sound and its run ends. If a sleep lasts at least its time and the rogue
  thread's status file is served by its module, the run returns; it passes only when the thread has
  really cleared the mutex owner, its signed counter being positive, and then its message states exactly
  that count. If the counter is already positive when the module has been loaded, it passes at once.
\<close>

theorem scenario_g_sound:
  assumes "procfs_ok os K M L now P" "clock_ok os"
  shows "\<exists>res h'. scenario_g_run os i h = Some (res, h') \<and> result_status res \<in> {Passed, Failed, Error}
    \<and> (let c = metadata_attack_counter (ms_rogue (P (world h'))) in
         result_status res = Passed \<longrightarrow> 0 < sint c
           \<and> error_message res = ''Observed '' @ dec_nat (unat c)
               @ '' mutex-owner metadata corruption(s) via '' @ kRogueStatusPath)
    \<and> (\<forall>u h1. load_module os i ''modules/rogue_thread.ko'' kRogueMetadataModuleParams h = (Expected u, h1)
         \<and> now_ns os (world h1) < now_ns os (world h) + int kMetadataAttackObservationTime * 1000000
         \<and> 0 < sint (metadata_attack_counter (ms_rogue (P (world h1)))) \<longrightarrow> result_status res = Passed)"
proof -
  obtain r h1 where l: "load_module os i ''modules/rogue_thread.ko'' kRogueMetadataModuleParams h = (r, h1)"
    by fastforce
  let ?d = "now_ns os (world h) + int kMetadataAttackObservationTime * 1000000"
  obtain seen w where p: "poll_metadata os ?d [] (world h1) = Some (seen, w)"
    and saw: "\<forall>n. seen = Inl n \<longrightarrow> (\<exists>s. proc_read os kRogueStatusPath w = Expected s
      \<and> parse_counter s kMetadataAttackCountField = Some n \<and> 0 < n)"
    using poll_metadata_spec [OF assms(2), of ?d "[]" "world h1"] by blast
  show ?thesis
  proof (cases r)
    case ok: (Expected u)
    show ?thesis
    proof (cases seen)
      case (Inl n)
      then obtain s where "proc_read os kRogueStatusPath w = Expected s"
        and n: "parse_counter s kMetadataAttackCountField = Some n" "0 < n"
        using saw by blast
      from n rogue_file_counter [OF assms(1) this(1)]
      have "n = unat (metadata_attack_counter (ms_rogue (P w)))" "0 < sint (metadata_attack_counter (ms_rogue (P w)))"
        using positive_counter by (simp_all split: if_splits)
      with l ok p Inl show ?thesis
        by (simp add: scenario_g_run_def scenario_g_verdict_def scenario_result_of_def Let_def)
    next
      case (Inr e)
      have "\<not> (now_ns os (world h1) < ?d \<and> 0 < sint (metadata_attack_counter (ms_rogue (P (world h1)))))"
        using poll_sees_counter [OF assms(1), of "world h1" ?d "[]"] p Inr by auto
      with l ok p Inr show ?thesis
        by (auto simp: scenario_g_run_def scenario_g_verdict_def scenario_result_of_def)
    qed
  next
    case (Unexpected e)
    with l show ?thesis by (simp add: scenario_g_run_def)
  qed
qed

text \<open>The same system with a clock that advances while sleeping.\<close>

definition clock_demo_os :: "(ref_machine module_states \<times> int) user_os" where
  "clock_demo_os = \<lparr>file_exists = (\<lambda>p w. True), read_file = (\<lambda>p w. read_file ref_demo_os p (fst w)),
     can_write = (\<lambda>p w. True), write_file = (\<lambda>p t w. (write_file ref_demo_os p t (fst w), snd w)),
     system_call = (\<lambda>c w. (0, w)), sleep_ms = (\<lambda>n w. (fst w, snd w + n * 1000000)), now_ns = snd,
     command_log = (\<lambda>w. [])\<rparr>"

lemma clock_demo_ok: "procfs_ok clock_demo_os ref_kernel ref_mutex ref_lib 5 fst" "clock_ok clock_demo_os"
proof -
  have "file_exists ref_demo_os p w" for p w by (simp add: ref_demo_os_def)
  then have "proc_read clock_demo_os p w = proc_read ref_demo_os p (fst w)" for p w
    by (simp add: proc_read_def clock_demo_os_def)
  with ref_procfs_ok(1) show "procfs_ok clock_demo_os ref_kernel ref_mutex ref_lib 5 fst"
    unfolding procfs_ok_def ref_procfs_def by (simp add: clock_demo_os_def del: proc_read_Expected)
  show "clock_ok clock_demo_os" by (simp add: clock_ok_def clock_demo_os_def)
qed

theorem scenario_g_sound_witness:
  "\<exists>res h'. scenario_g_run clock_demo_os 4 (harness_start (ref_demo_world\<lparr>ms_rogue :=
        (rogue_started 1 CORRUPT_SENTINEL)\<lparr>metadata_attack_counter := 1\<rparr>\<rparr>, 0)) = Some (res, h')
     \<and> result_status res = Passed"
proof -
  let ?h = "harness_start (ref_demo_world\<lparr>ms_rogue := (rogue_started 1 CORRUPT_SENTINEL)\<lparr>metadata_attack_counter := 1\<rparr>\<rparr>, 0)"
  have "\<exists>h1. load_module clock_demo_os 4 ''modules/rogue_thread.ko'' kRogueMetadataModuleParams ?h = (Expected (), h1)
      \<and> world h1 = world ?h"
    by (simp add: load_module_def resolve_module_def clock_demo_os_def harness_start_def is_loaded_def Let_def)
  with scenario_g_sound [OF clock_demo_ok, of 4 ?h] show ?thesis
    by (fastforce simp: harness_start_def clock_demo_os_def kMetadataAttackObservationTime_def rogue_started_def)
qed

end
