(* ===== verification/Fine_System.thy ===== *)
theory Fine_System
  imports Mutex_Threads Locked_Paths
begin

text \<open>
  The cooperative system at its finest grain: threads A and B of mutex_threads.c with the authorized
  write and the permission toggle of safety_mem.c as step functions, interleaved access by access.
  The system is an instance of \<open>simulation\<close>: it refines the abstract lock, in which one task at a
  time is inside and only that task changes the word.
\<close>

section \<open>The whole cooperative system\<close>

text \<open>
  Threads A and B, a task that makes authorized writes and a task that toggles the protection, each
  one access at a time; a finished call can be followed by another with any argument.
\<close>

type_synonym 'm fine_config = "'m kstate \<times> mutex_threads_state \<times> write_call \<times> toggle_call"

inductive fine_step :: "'m kernel_mm \<Rightarrow> mutex_api \<Rightarrow> 'm fine_config \<Rightarrow> 'm fine_config \<Rightarrow> bool" for K M where
  run_a: "safety_thread_a_fn K M stop (k, t) = Some (k', t') \<Longrightarrow> fine_step K M (k, t, w, p) (k', t', w, p)"
| run_b: "coop_thread_b_fn K M stop (k, t) = Some (k', t') \<Longrightarrow> fine_step K M (k, t, w, p) (k', t', w, p)"
| run_write: "safe_write_step K M (k, w) = Some (k', w') \<Longrightarrow> fine_step K M (k, t, w, p) (k', t, w', p)"
| run_toggle: "set_protection_step K M (k, p) = Some (k', p') \<Longrightarrow> fine_step K M (k, t, w, p) (k', t, w, p')"
| next_write: "w_pc w = W_Done \<Longrightarrow>
    fine_step K M (k, t, w, p) (k, t, safe_write_called (w_task w) val, p)"
| next_toggle: "p_pc p = P_Done \<Longrightarrow>
    fine_step K M (k, t, w, p) (k, t, w, set_protection_called (p_task p) en)"

text \<open>Four distinct tasks; whoever is in a critical section owns the mutex; a locked mutex has a user.\<close>

definition fine_locks :: "mutex_api \<Rightarrow> 'm fine_config \<Rightarrow> bool" where
  "fine_locks M = (\<lambda>(k, t, w, p). mutex_ok M
     \<and> distinct [task_a t, task_b t, w_task w, p_task p]
     \<and> is_task (task_a t) \<and> is_task (task_b t) \<and> is_task (w_task w) \<and> is_task (p_task p)
     \<and> (a_holds t \<longrightarrow> owned_by M (task_a t) k) \<and> (b_holds t \<longrightarrow> owned_by M (task_b t) k)
     \<and> (w_holds w \<longrightarrow> owned_by M (w_task w) k) \<and> (p_holds p \<longrightarrow> owned_by M (p_task p) k)
     \<and> (mutex_is_locked M (owner_of k) \<longrightarrow> a_holds t \<or> b_holds t \<or> w_holds w \<or> p_holds p))"

definition fine_inv :: "'m kernel_mm \<Rightarrow> mutex_api \<Rightarrow> 'm fine_config \<Rightarrow> bool" where
  "fine_inv K M = (\<lambda>(k, t, w, p). fine_locks M (k, t, w, p)
     \<and> (a_pc t \<in> {A_Hold, A_ReadCurrent} \<longrightarrow> read_buf K k = Some (initial_val t))
     \<and> (a_pc t = A_Check \<longrightarrow> current_val t = initial_val t)
     \<and> violation_counter t = 0)"

lemma fine_locks_exclusive:
  assumes "fine_locks M (k, t, w, p)"
  shows "\<not> (a_holds t \<and> b_holds t)" "\<not> (a_holds t \<and> w_holds w)" "\<not> (a_holds t \<and> p_holds p)"
    "\<not> (b_holds t \<and> w_holds w)" "\<not> (b_holds t \<and> p_holds p)" "\<not> (w_holds w \<and> p_holds p)"
  using assms by (auto simp: fine_locks_def owned_by_def)

text \<open>A step of one client: its own claim, and everybody else's.\<close>

lemma fine_locks_a:
  assumes "fine_locks M (k, t, w, p)" "safety_thread_a_fn K M stop (k, t) = Some (k', t')"
  shows "fine_locks M (k', t', w, p)"
proof -
  note inv = assms(1) [unfolded fine_locks_def, simplified]
  have "owned_by M x k'" if "owned_by M x k" "x \<noteq> task_a t" for x
    using thread_a.others_undisturbed [OF _ _ assms(2) _ that] inv by blast
  moreover have "b_holds t' = b_holds t"
    using a_step_frame [OF assms(2)] by (simp add: b_holds_def)
  ultimately show ?thesis
    using thread_a.ownership_kept [OF _ _ assms(2)] thread_a.someone_inside [OF _ _ assms(2)]
    a_step_frame [OF assms(2)] inv
    unfolding fine_locks_def by auto
qed

lemma fine_locks_b:
  assumes "fine_locks M (k, t, w, p)" "coop_thread_b_fn K M stop (k, t) = Some (k', t')"
  shows "fine_locks M (k', t', w, p)"
proof -
  note inv = assms(1) [unfolded fine_locks_def, simplified]
  have "owned_by M x k'" if "owned_by M x k" "x \<noteq> task_b t" for x
    using thread_b.others_undisturbed [OF _ _ assms(2) _ that] inv by blast
  moreover have "a_holds t' = a_holds t"
    using b_step_frame [OF assms(2)] by (simp add: a_holds_def)
  ultimately show ?thesis
    using thread_b.ownership_kept [OF _ _ assms(2)] thread_b.someone_inside [OF _ _ assms(2)]
    b_step_frame [OF assms(2)] inv
    unfolding fine_locks_def by auto
qed

lemma fine_locks_write:
  assumes "fine_locks M (k, t, w, p)" "safe_write_step K M (k, w) = Some (k', w')"
  shows "fine_locks M (k', t, w', p)"
proof -
  note inv = assms(1) [unfolded fine_locks_def, simplified]
  have "owned_by M x k'" if "owned_by M x k" "x \<noteq> w_task w" for x
    using writer.others_undisturbed [OF _ _ assms(2) _ that] inv by blast
  with writer.ownership_kept [OF _ _ assms(2)] writer.someone_inside [OF _ _ assms(2)]
    writer.tid_kept [OF assms(2)] inv
  show ?thesis unfolding fine_locks_def by auto
qed

lemma fine_locks_toggle:
  assumes "fine_locks M (k, t, w, p)" "set_protection_step K M (k, p) = Some (k', p')"
  shows "fine_locks M (k', t, w, p')"
proof -
  note inv = assms(1) [unfolded fine_locks_def, simplified]
  have "owned_by M x k'" if "owned_by M x k" "x \<noteq> p_task p" for x
    using toggler.others_undisturbed [OF _ _ assms(2) _ that] inv by blast
  with toggler.ownership_kept [OF _ _ assms(2)] toggler.someone_inside [OF _ _ assms(2)]
    toggler.tid_kept [OF assms(2)] inv
  show ?thesis unfolding fine_locks_def by auto
qed

lemma fine_locks_step: "fine_locks M c \<Longrightarrow> fine_step K M c c' \<Longrightarrow> fine_locks M c'"
proof (erule fine_step.cases)
  fix k t w p val assume "fine_locks M c" "c = (k, t, w, p)" "w_pc w = W_Done"
    "c' = (k, t, safe_write_called (w_task w) val, p)"
  then show "fine_locks M c'" by (simp add: fine_locks_def safe_write_called_def w_holds_def)
next
  fix k t w p en assume "fine_locks M c" "c = (k, t, w, p)" "p_pc p = P_Done"
    "c' = (k, t, w, set_protection_called (p_task p) en)"
  then show "fine_locks M c'" by (simp add: fine_locks_def set_protection_called_def p_holds_def)
qed (blast intro: fine_locks_a fine_locks_b fine_locks_write fine_locks_toggle)+

text \<open>While thread A is inside, nobody else's step changes the word.\<close>

lemma fine_word_stable:
  assumes "fine_locks M (k, t, w, p)" "fine_step K M (k, t, w, p) (k', t', w', p')" "a_holds t"
  shows "read_buf K k' = read_buf K k"
proof -
  note inv = assms(1) [unfolded fine_locks_def, simplified]
  have own: "owned_by M (task_a t) k" using inv assms(3) by blast
  from assms(2) show ?thesis
  proof (cases rule: fine_step.cases)
    case (run_a stop)
    then show ?thesis using a_step_frame by (fastforce simp: read_buf_def)
  next
    case (run_b stop)
    then show ?thesis using thread_b.others_undisturbed [OF _ _ _ _ own, of t] inv by blast
  next
    case run_write
    then show ?thesis using writer.others_undisturbed [OF _ _ _ _ own, of w] inv by blast
  next
    case run_toggle
    then show ?thesis using toggler.others_undisturbed [OF _ _ _ _ own, of p] inv by blast
  qed simp_all
qed

text \<open>Only thread A's steps move its program counter, its locals and its counter.\<close>

lemma fine_step_thread_a:
  assumes "fine_step K M (k, t, w, p) (k', t', w', p')"
  obtains stop where "safety_thread_a_fn K M stop (k, t) = Some (k', t')"
  | "a_pc t' = a_pc t" "initial_val t' = initial_val t" "current_val t' = current_val t"
    "violation_counter t' = violation_counter t"
  using assms by (cases rule: fine_step.cases) (blast dest: b_step_frame)+

lemma fine_inv_step:
  assumes "fine_inv K M (k, t, w, p)" "fine_step K M (k, t, w, p) (k', t', w', p')"
  shows "fine_inv K M (k', t', w', p')"
proof -
  note inv = assms(1) [unfolded fine_inv_def, simplified]
  have locks: "fine_locks M (k', t', w', p')" using fine_locks_step assms(2) inv by blast
  have word: "a_holds t \<Longrightarrow> read_buf K k' = read_buf K k" using fine_word_stable [OF _ assms(2)] inv by blast
  from assms(2) show ?thesis
  proof (cases rule: fine_step_thread_a)
    case (1 stop)
    have "read_buf K k' = read_buf K k" using a_step_frame [OF 1] by (simp add: read_buf_def)
    with a_step_values [OF 1] inv locks show ?thesis unfolding fine_inv_def by auto
  next
    case 2
    with word inv locks show ?thesis by (auto simp: fine_inv_def a_holds_def)
  qed
qed

interpretation fine_system: simulation "fine_step K M" "fine_inv K M" lock_spec_step
  "\<lambda>c. lock_view_of K M (fst c)" for K M
proof
  fix c c' assume i: "fine_inv K M c" and s: "fine_step K M c c'"
  obtain k t w p k' t' w' p' where c: "c = (k, t, w, p)" "c' = (k', t', w', p')" by (metis prod_cases4)
  show "fine_inv K M c'" using fine_inv_step i s c by blast
  have inv: "fine_locks M (k, t, w, p)" using i c by (simp add: fine_inv_def)
  note inv = inv [unfolded fine_locks_def, simplified]
  from s [unfolded c] show "lock_view_of K M (fst c') = lock_view_of K M (fst c)
    \<or> lock_spec_step (lock_view_of K M (fst c)) (lock_view_of K M (fst c'))"
    unfolding c fst_conv
  proof (cases rule: fine_step.cases)
    case (run_a stop)
    then show "lock_view_of K M k' = lock_view_of K M k \<or> lock_spec_step (lock_view_of K M k) (lock_view_of K M k')"
      using thread_a.refines_lock inv by blast
  next
    case (run_b stop)
    then show "lock_view_of K M k' = lock_view_of K M k \<or> lock_spec_step (lock_view_of K M k) (lock_view_of K M k')"
      using thread_b.refines_lock inv by blast
  next
    case run_write
    then show "lock_view_of K M k' = lock_view_of K M k \<or> lock_spec_step (lock_view_of K M k) (lock_view_of K M k')"
      using writer.refines_lock inv by blast
  next
    case run_toggle
    then show "lock_view_of K M k' = lock_view_of K M k \<or> lock_spec_step (lock_view_of K M k) (lock_view_of K M k')"
      using toggler.refines_lock inv by blast
  qed simp_all
qed

text \<open>The configuration just after the module and the two calls were started.\<close>

definition fine_started :: "'m kstate \<Rightarrow> u64 \<Rightarrow> u64 \<Rightarrow> u64 \<Rightarrow> u32 \<Rightarrow> u64 \<Rightarrow> bool \<Rightarrow> 'm fine_config" where
  "fine_started k ta tb tw val tp en =
     (k, mutex_threads_started ta tb, safe_write_called tw val, set_protection_called tp en)"

lemma fine_inv_started:
  assumes "mutex_ok M" "list_all is_task [ta, tb, tw, tp]" "distinct [ta, tb, tw, tp]" "mutex_free M k"
  shows "fine_inv K M (fine_started k ta tb tw val tp en)"
  using assms
  by (simp add: fine_inv_def fine_locks_def fine_started_def mutex_threads_started_def mutex_free_def
      safe_write_called_def set_protection_called_def a_holds_def b_holds_def w_holds_def p_holds_def)

text \<open>
  C11: the cooperative system is safe access by access. Threads A and B, a task making authorized
  writes and a task toggling the protection interleave between any two of their accesses. In every
  reachable configuration at most one of the four is in its critical section, that one owns the
  mutex, the mutex is free exactly when none is, and the safety thread has counted no violation.
\<close>

theorem fine_system_safe:
  assumes "mutex_ok M" "list_all is_task [ta, tb, tw, tp]" "distinct [ta, tb, tw, tp]" "mutex_free M k"
    and "(fine_step K M)\<^sup>*\<^sup>* (fine_started k ta tb tw val tp en) (k', t, w, p)"
  shows "length (filter id [a_holds t, b_holds t, w_holds w, p_holds p]) \<le> 1
    \<and> (mutex_free M k' \<longleftrightarrow> \<not> (a_holds t \<or> b_holds t \<or> w_holds w \<or> p_holds p))
    \<and> (a_holds t \<longrightarrow> owned_by M (task_a t) k') \<and> (b_holds t \<longrightarrow> owned_by M (task_b t) k')
    \<and> (w_holds w \<longrightarrow> owned_by M (w_task w) k') \<and> (p_holds p \<longrightarrow> owned_by M (p_task p) k')
    \<and> violation_counter t = 0"
proof -
  have i: "fine_inv K M (k', t, w, p)"
    using fine_system.reachable [OF assms(5) fine_inv_started [OF assms(1-4)]] .
  then have l: "fine_locks M (k', t, w, p)" by (simp add: fine_inv_def)
  have "length (filter id [a_holds t, b_holds t, w_holds w, p_holds p]) \<le> 1"
    using fine_locks_exclusive [OF l]
    by (cases "a_holds t"; cases "b_holds t"; cases "w_holds w"; cases "p_holds p") simp_all
  with i l show ?thesis by (auto simp: fine_inv_def fine_locks_def mutex_free_def owned_by_def)
qed

text \<open>
  C3: the system refines the abstract lock. Seen as who owns the mutex and what the shared word
  reads, every run of the four is a run of the abstract lock from a free lock, and from every
  reachable configuration each single access either changes nothing in that view or is one abstract
  step: entering a free lock, leaving it with the word unchanged, or writing while inside.
\<close>

theorem fine_system_refines_lock:
  assumes "mutex_ok M" "list_all is_task [ta, tb, tw, tp]" "distinct [ta, tb, tw, tp]" "mutex_free M k"
    and "(fine_step K M)\<^sup>*\<^sup>* (fine_started k ta tb tw val tp en) c"
  shows "lock_spec_step\<^sup>*\<^sup>* (None, read_buf K k) (lock_view_of K M (fst c))
    \<and> (\<forall>c'. fine_step K M c c' \<longrightarrow> lock_view_of K M (fst c') = lock_view_of K M (fst c)
         \<or> lock_spec_step (lock_view_of K M (fst c)) (lock_view_of K M (fst c')))"
proof -
  note start = fine_inv_started [OF assms(1-4), of K val en]
  have "lock_view_of K M (fst (fine_started k ta tb tw val tp en)) = (None, read_buf K k)"
    using assms(4) by (simp add: fine_started_def mutex_free_def lock_view_free)
  with fine_system.refines [OF assms(5) start] fine_system.simulates [OF fine_system.reachable [OF assms(5) start]]
  show ?thesis by simp
qed

lemma four_tasks: "list_all is_task [8, 16, 24, 32]" "distinct [8, 16, 24, 32 :: u64]"
  by (simp_all add: is_task_def DEMO_MUTEX_OWNER_FLAGS_MASK_def)

lemma ref_first_lock:
  "(fine_step ref_kernel ref_mutex)\<^sup>*\<^sup>* (fine_started (ref_state (\<lambda>a. True) True True 0) 8 16 24 7 32 True)
     (set_owner 24 (ref_state (\<lambda>a. True) True True 0), mutex_threads_started 8 16,
      (safe_write_called 24 7)\<lparr>w_pc := W_Test\<rparr>, set_protection_called 32 True)"
  unfolding fine_started_def
  by (intro r_into_rtranclp fine_step.run_write) (simp add: safe_write_step_def safe_write_called_def)

theorem fine_system_safe_witness:
  "owned_by ref_mutex 24 (set_owner 24 (ref_state (\<lambda>a. True) True True 0))"
  using fine_system_safe [OF ref_mutex_ok four_tasks _ ref_first_lock]
  by (simp add: w_holds_def safe_write_called_def)

theorem fine_system_refines_lock_witness:
  "lock_spec_step\<^sup>*\<^sup>* (None, Some SAFETY_SENTINEL) (Some 24, Some SAFETY_SENTINEL)"
proof -
  have "lock_view_of ref_kernel ref_mutex (set_owner 24 (ref_state (\<lambda>a. True) True True 0))
      = (Some 24, Some SAFETY_SENTINEL)"
    using owner_task_id [of 24] four_tasks(1)
    by (simp add: lock_view_of_def read_buf_def ref_load_def ref_phys_def)
  moreover have "read_buf ref_kernel (ref_state (\<lambda>a. True) True True 0) = Some SAFETY_SENTINEL"
    by (simp add: read_buf_def ref_load_def ref_phys_def)
  ultimately show ?thesis
    using fine_system_refines_lock [OF ref_mutex_ok four_tasks _ ref_first_lock] by simp
qed

end
