(* ===== verification/Thread_Stop.thy ===== *)
theory Thread_Stop
  imports Rogue_Thread
begin

text \<open>
  Sleeping and stopping of the three threads of \<open>src/kernel/mutex_threads\<close>: the module parameters that
  say how long each \<open>msleep_interruptible\<close> lasts, and \<open>kthread_stop\<close>, which asks a thread to leave
  its loop, cuts its sleep short and waits for it. A thread asked to stop has a bounded number of
  steps left, and what it waits for decides whether it takes them.
\<close>

section \<open>Module parameters\<close>

record thread_params =
  thread_a_delay_ms :: u32
  thread_b_delay_ms :: u32
  hold_duration_ms :: u32

definition default_thread_params :: thread_params where
  "default_thread_params = \<lparr>thread_a_delay_ms = MUTEX_THREAD_A_PERIOD_MS,
     thread_b_delay_ms = MUTEX_THREAD_B_PERIOD_MS, hold_duration_ms = MUTEX_HOLD_DURATION_MS\<rparr>"

record rogue_params =
  param_attack_mode :: u32
  param_corrupt_val :: u32
  interval_ms :: u32

definition default_rogue_params :: rogue_params where
  "default_rogue_params = \<lparr>param_attack_mode = 0, param_corrupt_val = CORRUPT_SENTINEL,
     interval_ms = ROGUE_WRITE_INTERVAL_MS\<rparr>"

text \<open>The thread as \<open>insmod\<close> with these parameters starts it.\<close>

definition rogue_loaded :: "rogue_params \<Rightarrow> rogue_state" where
  "rogue_loaded p = rogue_started (param_attack_mode p) (param_corrupt_val p)"

text \<open>How long the step at a program point sleeps, in milliseconds, when nothing wakes the thread.\<close>

definition a_pause :: "thread_params \<Rightarrow> mutex_threads_state \<Rightarrow> nat" where
  "a_pause p t = (case a_pc t of A_Hold \<Rightarrow> unat (hold_duration_ms p)
     | A_Sleep \<Rightarrow> unat (thread_a_delay_ms p) | _ \<Rightarrow> 0)"

definition b_pause :: "thread_params \<Rightarrow> mutex_threads_state \<Rightarrow> nat" where
  "b_pause p t = (case b_pc t of B_Sleep \<Rightarrow> unat (thread_b_delay_ms p) | _ \<Rightarrow> 0)"

definition c_pause :: "rogue_params \<Rightarrow> rogue_state \<Rightarrow> nat" where
  "c_pause p r = (case c_pc r of C_Sleep \<Rightarrow> unat (interval_ms p) | _ \<Rightarrow> 0)"

text \<open>A run of a thread with the time it slept.\<close>

fun run_timed :: "nat \<Rightarrow> ('c \<Rightarrow> 'c option) \<Rightarrow> ('c \<Rightarrow> nat) \<Rightarrow> 'c \<Rightarrow> ('c \<times> nat) option" where
  "run_timed 0 f pause c = Some (c, 0)"
| "run_timed (Suc n) f pause c = (case f c of None \<Rightarrow> None
     | Some c' \<Rightarrow> map_option (map_prod id ((+) (pause c))) (run_timed n f pause c'))"

lemma run_timed_steps: "map_option fst (run_timed n f pause c) = run_steps n f c"
  by (induction n arbitrary: c) (simp_all add: option.map_comp comp_def split: option.split)

text \<open>
  The period of the safety thread. From the top of its loop, with the mutex free and the word
  readable, an undisturbed round of thread A takes eight steps and sleeps exactly the hold time plus
  the delay (550 ms with the default parameters), and it spends the hold time, and nothing but it,
  owning the mutex: after the first three steps it has slept 0 ms and owns it, after the fourth the
  hold time and owns it still, and after the seventh it has given it back.
\<close>

theorem thread_a_period:
  assumes "mutex_ok M" "is_task (task_a t)" "a_pc t = A_Top" "mutex_free M k" "read_buf K k = Some v"
  shows "\<exists>c3 c4 c7 c8. run_timed 3 (safety_thread_a_fn K M False) (a_pause p \<circ> snd) (k, t) = Some (c3, 0)
    \<and> run_timed 4 (safety_thread_a_fn K M False) (a_pause p \<circ> snd) (k, t) = Some (c4, unat (hold_duration_ms p))
    \<and> run_timed 7 (safety_thread_a_fn K M False) (a_pause p \<circ> snd) (k, t) = Some (c7, unat (hold_duration_ms p))
    \<and> run_timed 8 (safety_thread_a_fn K M False) (a_pause p \<circ> snd) (k, t)
        = Some (c8, unat (hold_duration_ms p) + unat (thread_a_delay_ms p))
    \<and> owned_by M (task_a t) (fst c3) \<and> owned_by M (task_a t) (fst c4)
    \<and> mutex_free M (fst c7) \<and> a_pc (snd c8) = A_Top"
proof -
  obtain ow where ow: "mutex_lock M (task_a t) (owner_of k) = Some ow" "mutex_is_locked M ow" "owner_task ow = task_a t"
    using mutex_free_lock [OF assms(1,2)] assms(4) by (metis mutex_free_def)
  have rd: "read_buf K (set_owner x k) = Some v" for x
    using assms(5) by (simp add: read_buf_def split: if_splits)
  note go = eval_nat_numeral safety_thread_a_fn_def a_pause_def assms(3) mutex_trylock_eq [OF assms(1)] ow(1) rd
  show ?thesis
    by (simp add: go owned_by_def ow(2,3) mutex_free_def assms(1))
qed

theorem thread_a_period_witness:
  "\<exists>c. run_timed 8 (safety_thread_a_fn ref_kernel ref_mutex False) (a_pause default_thread_params \<circ> snd)
      (ref_state (\<lambda>a. True) True True 0, (mutex_threads_started 8 16)\<lparr>a_pc := A_Top\<rparr>) = Some (c, 550)"
proof -
  have "read_buf ref_kernel (ref_state (\<lambda>a. True) True True 0) = Some SAFETY_SENTINEL"
    by (simp add: read_buf_def ref_load_def ref_phys_def)
  from thread_a_period [OF ref_mutex_ok _ _ _ this, of "(mutex_threads_started 8 16)\<lparr>a_pc := A_Top\<rparr>"
      default_thread_params]
  show ?thesis by (auto simp: mutex_threads_started_def default_thread_params_def period_defs)
qed

section \<open>Stopping a thread\<close>

text \<open>The steps a stopped thread has left at most, from each point.\<close>

definition a_left :: "mutex_threads_state \<Rightarrow> nat" where
  "a_left t = (case a_pc t of A_Done \<Rightarrow> 0 | A_Oops \<Rightarrow> 0 | A_Top \<Rightarrow> 1 | A_Start \<Rightarrow> 2 | A_Sleep \<Rightarrow> 2
     | A_Unlock \<Rightarrow> 3 | A_Check \<Rightarrow> 4 | A_ReadCurrent \<Rightarrow> 5 | A_Hold \<Rightarrow> 6 | A_ReadInitial \<Rightarrow> 7
     | A_Lock \<Rightarrow> 8 | A_TryLock \<Rightarrow> 9)"

definition b_left :: "mutex_threads_state \<Rightarrow> nat" where
  "b_left t = (case b_pc t of B_Done \<Rightarrow> 0 | B_Oops \<Rightarrow> 0 | B_Top \<Rightarrow> 1 | B_Start \<Rightarrow> 2 | B_Sleep \<Rightarrow> 2
     | B_Unlock \<Rightarrow> 3 | B_Write \<Rightarrow> 4 | B_Lock \<Rightarrow> 5)"

definition c_left :: "rogue_state \<Rightarrow> nat" where
  "c_left r = (case c_pc r of C_Done \<Rightarrow> 0 | C_Oops \<Rightarrow> 0 | C_Top \<Rightarrow> 1 | C_Start \<Rightarrow> 2 | C_Sleep \<Rightarrow> 2
     | C_Clear \<Rightarrow> 3 | C_Attack \<Rightarrow> 4)"

text \<open>
  Thread A alone after the stop request: B is outside, the word can be read, and a locked mutex is its
  own. Thread B alone after A has returned: the word can be written, and a locked mutex is its own.
\<close>

definition a_stop_inv :: "'m kernel_mm \<Rightarrow> mutex_api \<Rightarrow> 'm mt_config \<Rightarrow> bool" where
  "a_stop_inv K M = (\<lambda>(k, t). kernel_mm_ok K \<and> mutex_ok M \<and> lock_inv M (k, t) \<and> word_open K k
     \<and> \<not> b_holds t \<and> a_pc t \<noteq> A_Oops \<and> (mutex_is_locked M (owner_of k) \<longrightarrow> a_holds t))"

definition b_stop_inv :: "'m kernel_mm \<Rightarrow> mutex_api \<Rightarrow> 'm mt_config \<Rightarrow> bool" where
  "b_stop_inv K M = (\<lambda>(k, t). kernel_mm_ok K \<and> mutex_ok M \<and> lock_inv M (k, t) \<and> word_open K k
     \<and> a_pc t = A_Done \<and> b_pc t \<noteq> B_Oops \<and> (mutex_is_locked M (owner_of k) \<longrightarrow> b_holds t))"

lemma word_open_readable:
  assumes "kernel_mm_ok K" "word_open K k"
  obtains v where "read_buf K k = Some v"
  using assms load32_Some_iff [OF assms(1), of "safety_buf_ptr (sm k)" "mach k"]
  unfolding word_open_def read_buf_def by auto

lemma a_asked_shrinks: "safety_thread_a_fn K M True (k, t) = Some (k', t') \<Longrightarrow> a_left t' < a_left t"
  by (cases "a_pc t"; auto simp: safety_thread_a_fn_def a_left_def split: option.splits prod.splits if_splits)

lemma b_asked_shrinks:
  "coop_thread_b_fn K M stop (k, t) = Some (k', t') \<Longrightarrow>
    a_left t' = a_left t \<and> (stop \<longrightarrow> b_left t' < b_left t)"
  by (cases "b_pc t"; auto simp: coop_thread_b_fn_def a_left_def b_left_def split: option.splits if_splits)

lemma a_no_oops:
  assumes "kernel_mm_ok K" "word_open K k" "safety_thread_a_fn K M stop (k, t) = Some (k', t')" "a_pc t \<noteq> A_Oops"
  shows "a_pc t' \<noteq> A_Oops"
proof -
  obtain v where "read_buf K k = Some v" using word_open_readable assms(1,2) by blast
  then show ?thesis using assms(3,4)
    by (cases "a_pc t"; auto simp: safety_thread_a_fn_def split: option.splits prod.splits if_splits)
qed

lemma a_stop_step:
  assumes "a_stop_inv K M (k, t)" "safety_thread_a_fn K M stop (k, t) = Some (k', t')"
  shows "a_stop_inv K M (k', t')" and "stop \<Longrightarrow> a_left t' < a_left t"
proof -
  note inv = assms(1) [unfolded a_stop_inv_def prod.case]
  note fr = a_step_frame [OF assms(2)]
  have "a_pc t' \<noteq> A_Oops" using a_no_oops [OF _ _ assms(2)] inv by blast
  moreover have "mutex_is_locked M (owner_of k') \<longrightarrow> a_holds t'"
    using thread_a.someone_inside [OF _ _ assms(2)] inv by (auto simp: lock_inv_def)
  moreover have "word_open K k'" using inv fr by (simp add: word_open_def)
  ultimately show "a_stop_inv K M (k', t')"
    using inv fr lock_inv_a_step [OF _ _ assms(2)] by (simp add: a_stop_inv_def b_holds_def)
  show "stop \<Longrightarrow> a_left t' < a_left t" using a_asked_shrinks assms(2) by simp
qed

lemma b_word_open:
  assumes "kernel_mm_ok K" "word_open K k" "coop_thread_b_fn K M stop (k, t) = Some (k', t')" "b_pc t \<noteq> B_Oops"
  shows "word_open K k' \<and> b_pc t' \<noteq> B_Oops"
proof -
  have "store32 K (safety_buf_ptr (sm k)) SAFETY_SENTINEL (mach k) \<noteq> None"
    using store32_None_iff [OF assms(1)] assms(2) unfolding word_open_def by blast
  then show ?thesis using assms
    by (cases "b_pc t"; auto simp: coop_thread_b_fn_def word_open_def mm_rules split: option.splits if_splits)
qed

lemma b_stop_step:
  assumes "b_stop_inv K M (k, t)" "coop_thread_b_fn K M stop (k, t) = Some (k', t')"
  shows "b_stop_inv K M (k', t')" and "stop \<Longrightarrow> b_left t' < b_left t"
proof -
  note inv = assms(1) [unfolded b_stop_inv_def prod.case]
  have "mutex_is_locked M (owner_of k') \<longrightarrow> b_holds t'"
    using thread_b.someone_inside [OF _ _ assms(2)] inv by (auto simp: lock_inv_def)
  then show "b_stop_inv K M (k', t')"
    using inv b_step_frame [OF assms(2)] b_word_open [OF _ _ assms(2)] lock_inv_b_step(1) [OF _ _ assms(2)]
    by (simp add: b_stop_inv_def)
  show "stop \<Longrightarrow> b_left t' < b_left t" using b_asked_shrinks [OF assms(2)] by blast
qed

lemma left_bounds: "a_left t \<le> 9" "b_left t \<le> 5"
  by (simp_all add: a_left_def b_left_def split: a_point.splits b_point.splits)

interpretation stop_a: finite_work "\<lambda>c c'. safety_thread_a_fn K M True c = Some c'" "a_stop_inv K M" "a_left \<circ> snd"
  for K M
proof
  fix c c' assume i: "a_stop_inv K M c" and s: "safety_thread_a_fn K M True c = Some c'"
  obtain k t k' t' where c: "c = (k, t)" "c' = (k', t')" by (meson surj_pair)
  show "a_stop_inv K M c'" "(a_left \<circ> snd) c' < (a_left \<circ> snd) c"
    using a_stop_step [OF i [unfolded c] s [unfolded c]] c by simp_all
qed

interpretation stop_b: finite_work "\<lambda>c c'. coop_thread_b_fn K M True c = Some c'" "b_stop_inv K M" "b_left \<circ> snd"
  for K M
proof
  fix c c' assume i: "b_stop_inv K M c" and s: "coop_thread_b_fn K M True c = Some c'"
  obtain k t k' t' where c: "c = (k, t)" "c' = (k', t')" by (meson surj_pair)
  show "b_stop_inv K M c'" "(b_left \<circ> snd) c' < (b_left \<circ> snd) c"
    using b_stop_step [OF i [unfolded c] s [unfolded c]] c by simp_all
qed

text \<open>Where a stopped thread has no step left, it has returned.\<close>

lemma a_stopped:
  assumes "a_stop_inv K M (k, t)" "\<nexists>c'. safety_thread_a_fn K M True (k, t) = Some c'"
  shows "a_pc t = A_Done \<and> mutex_free M k"
proof -
  have ok: "mutex_ok M" "is_task (task_a t)" and ne: "a_pc t \<noteq> A_Oops"
    and own: "mutex_is_locked M (owner_of k) \<longrightarrow> a_holds t"
    using assms(1) by (simp_all add: a_stop_inv_def lock_inv_def)
  have "a_pc t = A_Done \<or> a_pc t = A_Lock \<and> mutex_lock M (task_a t) (owner_of k) = None"
    using ne assms(2)
    by (cases "a_pc t"; auto simp: safety_thread_a_fn_def split: option.splits prod.splits if_splits)
  then show ?thesis using own mutex_lock_None_iff [OF ok] by (auto simp: a_holds_def mutex_free_def)
qed

lemma b_stopped:
  assumes "b_stop_inv K M (k, t)" "\<nexists>c'. coop_thread_b_fn K M True (k, t) = Some c'"
  shows "b_pc t = B_Done \<and> mutex_free M k"
proof -
  have ok: "mutex_ok M" "is_task (task_b t)" and ne: "b_pc t \<noteq> B_Oops"
    and own: "mutex_is_locked M (owner_of k) \<longrightarrow> b_holds t"
    using assms(1) by (simp_all add: b_stop_inv_def lock_inv_def)
  have "b_pc t = B_Done \<or> b_pc t = B_Lock \<and> mutex_lock M (task_b t) (owner_of k) = None"
    using ne assms(2)
    by (cases "b_pc t"; auto simp: coop_thread_b_fn_def split: option.splits if_splits)
  then show ?thesis using own mutex_lock_None_iff [OF ok] by (auto simp: b_holds_def mutex_free_def)
qed

lemma a_runs_out:
  assumes "a_stop_inv K M c"
  obtains n k t where "n \<le> 9" "run_steps n (safety_thread_a_fn K M True) c = Some (k, t)"
    "a_stop_inv K M (k, t)" "a_pc t = A_Done \<and> mutex_free M k"
proof -
  obtain k t where s: "(\<lambda>c c'. safety_thread_a_fn K M True c = Some c')\<^sup>*\<^sup>* c (k, t)" "a_stop_inv K M (k, t)"
    "\<nexists>c'. safety_thread_a_fn K M True (k, t) = Some c'"
    using stop_a.runs_to_end [OF assms] by (metis surj_pair)
  obtain n where "n \<le> (a_left \<circ> snd) c" "((\<lambda>c c'. safety_thread_a_fn K M True c = Some c') ^^ n) c (k, t)"
    using stop_a.bounded_steps [OF s(1) assms] .
  with that s(2) a_stopped [OF s(2,3)] left_bounds [of "snd c"] show thesis
    unfolding run_steps_relpow comp_apply by (meson le_trans)
qed

lemma b_runs_out:
  assumes "b_stop_inv K M c"
  obtains n k t where "n \<le> 5" "run_steps n (coop_thread_b_fn K M True) c = Some (k, t)"
    "b_stop_inv K M (k, t)" "b_pc t = B_Done \<and> mutex_free M k"
proof -
  obtain k t where s: "(\<lambda>c c'. coop_thread_b_fn K M True c = Some c')\<^sup>*\<^sup>* c (k, t)" "b_stop_inv K M (k, t)"
    "\<nexists>c'. coop_thread_b_fn K M True (k, t) = Some c'"
    using stop_b.runs_to_end [OF assms] by (metis surj_pair)
  obtain n where "n \<le> (b_left \<circ> snd) c" "((\<lambda>c c'. coop_thread_b_fn K M True c = Some c') ^^ n) c (k, t)"
    using stop_b.bounded_steps [OF s(1) assms] .
  with that s(2) b_stopped [OF s(2,3)] left_bounds [of "snd c"] show thesis
    unfolding run_steps_relpow comp_apply by (meson le_trans)
qed

text \<open>Thread B leaves its critical section within two steps, stop request or not.\<close>

lemma b_leaves:
  assumes "kernel_mm_ok K" "mutex_ok M" "lock_inv M (k, t)" "word_open K k" "b_holds t" "b_pc t \<noteq> B_Oops"
  obtains n k' t' where "n \<le> 2" "run_steps n (coop_thread_b_fn K M stop) (k, t) = Some (k', t')"
    "\<not> b_holds t'" "mutex_free M k'" "lock_inv M (k', t')" "word_open K k'" "a_pc t' = a_pc t"
proof -
  note finish = that
  have leave: thesis if j: "j \<le> 1" "run_steps j (coop_thread_b_fn K M stop) (k, t) = Some (k1, t1)"
      "b_pc t1 = B_Unlock" "lock_inv M (k1, t1)" "word_open K k1" "a_pc t1 = a_pc t" for j k1 t1
  proof -
    let ?k = "set_owner (mutex_unlock M (task_b t1) (owner_of k1)) k1" and ?t = "t1\<lparr>b_pc := B_Sleep\<rparr>"
    have s: "coop_thread_b_fn K M stop (k1, t1) = Some (?k, ?t)" using j(3) by (simp add: coop_thread_b_fn_def)
    then have "run_steps (j + 1) (coop_thread_b_fn K M stop) (k, t) = Some (?k, ?t)"
      using j(2) by (simp only: run_steps_add) simp
    moreover have "\<not> b_holds ?t" "mutex_free M ?k" "word_open K ?k" "a_pc ?t = a_pc t"
      using assms(2) j(5,6) by (simp_all add: b_holds_def mutex_free_def word_open_def)
    ultimately show thesis
      using finish [of "j + 1"] j(1) lock_inv_b_step(1) [OF assms(2) j(4) s] by simp
  qed
  show thesis
  proof (cases "b_pc t = B_Write")
    case True
    obtain m where "store32 K (safety_buf_ptr (sm k)) SAFETY_SENTINEL (mach k) = Some m"
      using store32_Some_iff [OF assms(1)] assms(4) unfolding word_open_def by blast
    then obtain k1 t1 where s: "coop_thread_b_fn K M stop (k, t) = Some (k1, t1)" "b_pc t1 = B_Unlock"
      using True assms(4) by (simp add: coop_thread_b_fn_def word_open_def)
    then show thesis
      using leave [of 1 k1 t1] b_step_frame(3) [OF s(1)] b_word_open [OF assms(1,4) s(1) assms(6)]
        lock_inv_b_step(1) [OF assms(2,3) s(1)] by simp
  next
    case False
    then have "b_pc t = B_Unlock" using assms(5,6) by (auto simp: b_holds_def)
    then show thesis using leave [of 0 k t] assms(3,4) by simp
  qed
qed

section \<open>Removing the module\<close>

text \<open>
  What runs while \<open>mutex_threads_exit\<close> is executed: thread A has been asked to stop, and thread B is
  asked once A has returned.
\<close>

inductive exit_step :: "'m kernel_mm \<Rightarrow> mutex_api \<Rightarrow> 'm mt_config \<Rightarrow> 'm mt_config \<Rightarrow> bool" for K M where
  a_asked: "safety_thread_a_fn K M True c = Some c' \<Longrightarrow> exit_step K M c c'"
| b_asked: "coop_thread_b_fn K M (a_pc (snd c) = A_Done) c = Some c' \<Longrightarrow> exit_step K M c c'"

definition exit_inv :: "'m kernel_mm \<Rightarrow> mutex_api \<Rightarrow> 'm mt_config \<Rightarrow> bool" where
  "exit_inv K M = (\<lambda>(k, t). kernel_mm_ok K \<and> mutex_ok M \<and> lock_inv M (k, t) \<and> word_open K k
     \<and> a_pc t \<noteq> A_Oops \<and> b_pc t \<noteq> B_Oops \<and> (mutex_is_locked M (owner_of k) \<longrightarrow> a_holds t \<or> b_holds t))"

lemma exit_inv_a_step:
  assumes "exit_inv K M (k, t)" "safety_thread_a_fn K M stop (k, t) = Some (k', t')"
  shows "exit_inv K M (k', t')"
proof -
  note inv = assms(1) [unfolded exit_inv_def prod.case] and fr = a_step_frame [OF assms(2)]
  have "mutex_is_locked M (owner_of k') \<longrightarrow> a_holds t' \<or> b_holds t'"
    using thread_a.someone_inside [OF _ _ assms(2)] inv fr by (auto simp: lock_inv_def b_holds_def)
  moreover have "word_open K k'" using inv fr by (simp add: word_open_def)
  ultimately show ?thesis
    using inv fr lock_inv_a_step [OF _ _ assms(2)] a_no_oops [OF _ _ assms(2)] by (simp add: exit_inv_def)
qed

lemma exit_inv_b_step:
  assumes "exit_inv K M (k, t)" "coop_thread_b_fn K M stop (k, t) = Some (k', t')"
  shows "exit_inv K M (k', t')"
proof -
  note inv = assms(1) [unfolded exit_inv_def prod.case] and fr = b_step_frame [OF assms(2)]
  have "mutex_is_locked M (owner_of k') \<longrightarrow> a_holds t' \<or> b_holds t'"
    using thread_b.someone_inside [OF _ _ assms(2)] inv fr by (auto simp: lock_inv_def a_holds_def)
  then show ?thesis
    using inv fr lock_inv_b_step(1) [OF _ _ assms(2)] b_word_open [OF _ _ assms(2)] by (simp add: exit_inv_def)
qed

interpretation exiting: state_machine "exit_step K M" "exit_inv K M" for K M
proof
  fix c c' assume i: "exit_inv K M c" and s: "exit_step K M c c'"
  obtain k t k' t' where c: "c = (k, t)" "c' = (k', t')" by (meson surj_pair)
  from s i show "exit_inv K M c'"
    unfolding c by (cases rule: exit_step.cases) (auto intro: exit_inv_a_step exit_inv_b_step)
qed

lemma exit_step_runs:
  "run_steps n (safety_thread_a_fn K M True) c = Some c' \<Longrightarrow> (exit_step K M ^^ n) c c'"
  "run_steps n (coop_thread_b_fn K M (a_pc (snd c) = A_Done)) c = Some c' \<Longrightarrow> (exit_step K M ^^ n) c c'"
proof (induction n arbitrary: c)
  case (Suc n)
  {
    case 1
    then obtain u where u: "safety_thread_a_fn K M True c = Some u"
      "run_steps n (safety_thread_a_fn K M True) u = Some c'"
      by (auto split: option.splits)
    from a_asked [OF u(1)] Suc.IH(1) [OF u(2)] show ?case by (rule relpowp_Suc_I2)
  next
    case 2
    then obtain u where u: "coop_thread_b_fn K M (a_pc (snd c) = A_Done) c = Some u"
      "run_steps n (coop_thread_b_fn K M (a_pc (snd c) = A_Done)) u = Some c'"
      by (auto split: option.splits)
    have "a_pc (snd u) = a_pc (snd c)"
      using u(1) b_step_frame(3) by (metis surjective_pairing)
    with u(2) Suc.IH(2) [of u] have "(exit_step K M ^^ n) u c'" by simp
    with b_asked [OF u(1)] show ?case by (rule relpowp_Suc_I2)
  }
qed auto

lemma exit_finishes:
  assumes "exit_inv K M (k, t)"
  shows "\<exists>n c'. n \<le> 16 \<and> (exit_step K M ^^ n) (k, t) c'
    \<and> a_pc (snd c') = A_Done \<and> b_pc (snd c') = B_Done \<and> mutex_free M (fst c')"
proof -
  note inv = assms [unfolded exit_inv_def prod.case]
  obtain i c1 where i: "i \<le> 2" "run_steps i (coop_thread_b_fn K M (a_pc t = A_Done)) (k, t) = Some c1"
    "a_stop_inv K M c1"
  proof (cases "b_holds t")
    case True
    obtain n k' t' where "n \<le> 2" "run_steps n (coop_thread_b_fn K M (a_pc t = A_Done)) (k, t) = Some (k', t')"
      "\<not> b_holds t'" "mutex_free M k'" "lock_inv M (k', t')" "word_open K k'" "a_pc t' = a_pc t"
      using b_leaves [OF _ _ _ _ True, of K M k "a_pc t = A_Done"] inv by blast
    then show ?thesis using that [of n "(k', t')"] inv by (auto simp: a_stop_inv_def mutex_free_def)
  next
    case False
    then show ?thesis using that [of 0 "(k, t)"] inv by (auto simp: a_stop_inv_def)
  qed
  obtain j k2 t2 where j: "j \<le> 9" "run_steps j (safety_thread_a_fn K M True) c1 = Some (k2, t2)"
    and e2: "a_stop_inv K M (k2, t2)" "a_pc t2 = A_Done \<and> mutex_free M k2"
    by (rule a_runs_out [OF i(3)])
  have "(exit_step K M ^^ i) (k, t) c1" by (rule exit_step_runs(2)) (use i(2) in simp)
  then have r2: "(exit_step K M ^^ (i + j)) (k, t) (k2, t2)"
    using exit_step_runs(1) [OF j(2)] unfolding relpowp_add by (rule relcomppI)
  have "exit_inv K M (k2, t2)"
    using exiting.reachable [OF _ assms] r2 by (meson relpowp_imp_rtranclp)
  then have "b_stop_inv K M (k2, t2)"
    using e2 by (auto simp: exit_inv_def b_stop_inv_def mutex_free_def)
  then obtain n k3 t3 where n: "n \<le> 5" "run_steps n (coop_thread_b_fn K M True) (k2, t2) = Some (k3, t3)"
    and e3: "b_stop_inv K M (k3, t3)" "b_pc t3 = B_Done \<and> mutex_free M k3"
    by (rule b_runs_out)
  have "(exit_step K M ^^ n) (k2, t2) (k3, t3)" by (rule exit_step_runs(2)) (use n(2) e2(2) in simp)
  with r2 have "(exit_step K M ^^ (i + j + n)) (k, t) (k3, t3)"
    by (simp only: relpowp_add [of "i + j" n]) (rule relcomppI)
  moreover have "a_pc t3 = A_Done" using e3 by (simp add: b_stop_inv_def)
  ultimately show ?thesis using i(1) j(1) n(1) e3(2) by (intro exI [of _ "i + j + n"] exI [of _ "(k3, t3)"]) simp
qed

text \<open>
  C21: removing mutex_threads returns. The exit function starts from a configuration that keeps the
  lock invariant, in which no thread has faulted, the mutex is not held by a third party and the word
  can be written. However the two threads interleave from there, no \<open>kthread_stop\<close> waits in vain: at
  every moment both threads can still return within sixteen steps, with the mutex free. Thread A
  has at most nine steps left from its stop request and each of its steps uses one up, which B
  cannot undo; once A has returned, the same holds of B and five.
\<close>

theorem mutex_threads_exit_returns:
  assumes "kernel_mm_ok K" "mutex_ok M" "lock_inv M (k, t)" "word_open K k"
    and "a_pc t \<noteq> A_Oops" "b_pc t \<noteq> B_Oops" "mutex_is_locked M (owner_of k) \<longrightarrow> a_holds t \<or> b_holds t"
    and "(exit_step K M)\<^sup>*\<^sup>* (k, t) c"
  shows "(\<exists>n c'. n \<le> 16 \<and> (exit_step K M ^^ n) c c'
      \<and> a_pc (snd c') = A_Done \<and> b_pc (snd c') = B_Done \<and> mutex_free M (fst c'))
    \<and> a_left (snd c) \<le> 9 \<and> b_left (snd c) \<le> 5
    \<and> (\<forall>c'. safety_thread_a_fn K M True c = Some c' \<longrightarrow> a_left (snd c') < a_left (snd c))
    \<and> (\<forall>c' stop. coop_thread_b_fn K M stop c = Some c' \<longrightarrow> a_left (snd c') = a_left (snd c)
         \<and> (stop \<longrightarrow> b_left (snd c') < b_left (snd c)))"
proof -
  obtain k1 t1 where c: "c = (k1, t1)" by fastforce
  have "exit_inv K M (k1, t1)"
    using exiting.reachable [OF assms(8)] assms(1-7) by (simp add: exit_inv_def c)
  from exit_finishes [OF this] left_bounds [of t1] show ?thesis
    unfolding c by (auto dest: a_asked_shrinks b_asked_shrinks)
qed

theorem mutex_threads_exit_returns_witness:
  "\<exists>n c'. n \<le> 16 \<and> (exit_step ref_kernel ref_mutex ^^ n)
        (ref_state (\<lambda>a. True) True True 0, mutex_threads_started 8 16) c'
     \<and> a_pc (snd c') = A_Done \<and> b_pc (snd c') = B_Done"
proof -
  have "is_task 16" by (simp add: is_task_def DEMO_MUTEX_OWNER_FLAGS_MASK_def)
  then have "lock_inv ref_mutex (ref_state (\<lambda>a. True) True True 0, mutex_threads_started 8 16)"
    by (simp add: lock_inv_def mutex_threads_started_def a_holds_def b_holds_def)
  from mutex_threads_exit_returns [OF ref_kernel_ok ref_mutex_ok this _ _ _ _ rtranclp.rtrancl_refl] show ?thesis
    by (fastforce simp: mutex_threads_started_def)
qed

section \<open>Stopping the rogue thread\<close>

text \<open>Thread C waits for nobody: it returns within four steps of the stop request, or faults.\<close>

interpretation stop_c: finite_work "\<lambda>c c'. rogue_thread_c_fn K M True c = Some c'" "\<lambda>_. True" "c_left \<circ> snd"
  for K M
proof unfold_locales
  fix c c' assume "rogue_thread_c_fn K M True c = Some c'"
  then show "(c_left \<circ> snd) c' < (c_left \<circ> snd) c"
    by (cases c; cases "c_pc (snd c)"; auto simp: rogue_thread_c_fn_def c_left_def split: option.splits if_splits)
qed simp

lemma rogue_thread_stops:
  "\<exists>n k' r'. n \<le> 4 \<and> run_steps n (rogue_thread_c_fn K M True) (k, r) = Some (k', r') \<and> c_pc r' \<in> {C_Done, C_Oops}"
proof -
  obtain k' r' where s: "(\<lambda>c c'. rogue_thread_c_fn K M True c = Some c')\<^sup>*\<^sup>* (k, r) (k', r')"
    "\<nexists>c'. rogue_thread_c_fn K M True (k', r') = Some c'"
    using stop_c.runs_to_end [of K M "(k, r)"] by auto
  obtain n where "n \<le> (c_left \<circ> snd) (k, r)"
    "((\<lambda>c c'. rogue_thread_c_fn K M True c = Some c') ^^ n) (k, r) (k', r')"
    using stop_c.bounded_steps [OF s(1)] by blast
  moreover have "c_left r \<le> 4" by (simp add: c_left_def split: c_point.splits)
  moreover have "c_pc r' \<in> {C_Done, C_Oops}"
    using s(2) by (cases "c_pc r'"; auto simp: rogue_thread_c_fn_def split: option.splits if_splits)
  ultimately show ?thesis unfolding run_steps_relpow by (metis comp_apply le_trans snd_conv)
qed

end
