(* ===== verification/Harness_Main.thy ===== *)
theory Harness_Main
  imports Scenarios
begin

text \<open>
  \<open>src/userspace/harness/main.cpp\<close>: the presenter harness. Command line, execution plan, the runs,
  and the destructors of the five scenario objects when \<open>main\<close> returns. The objects' loaders are
  numbered in the order of their construction, B 0 to G 4.
\<close>

section \<open>The program\<close>

definition harness_usage :: "string \<Rightarrow> string list" where
  "harness_usage prog =
     [''ARM64 Linux 6.6 Safety Isolation Demo -- Presenter Harness'',
      ''Usage: '' @ prog @ '' [options]'', [],
      ''Options:'',
      ''  --scenario <id>        Run specific scenario (B, D, E, F, G, or all). Default: all core (B, D, E, F)'',
      ''  --start-at <id>        Start the full sequence at scenario <id> (e.g. D)'',
      ''  -h, --help             Display this help message'']"

text \<open>The argument loop: \<open>None\<close> when help was asked for, else the two option values.\<close>

fun harness_args :: "string list \<Rightarrow> string \<Rightarrow> string \<Rightarrow> (string \<times> string) option" where
  "harness_args [] scenario_id start_at_id = Some (scenario_id, start_at_id)"
| "harness_args [a] scenario_id start_at_id =
     (if a = ''-h'' \<or> a = ''--help'' then None else Some (scenario_id, start_at_id))"
| "harness_args (a # v # rest) scenario_id start_at_id =
     (if a = ''--scenario'' then harness_args rest v start_at_id
      else if a = ''--start-at'' then harness_args rest scenario_id v
      else if a = ''-h'' \<or> a = ''--help'' then None
      else harness_args (v # rest) scenario_id start_at_id)"

text \<open>The chain of conditions of \<open>main\<close>, as the list of scenarios it runs.\<close>

definition harness_plan :: "string \<Rightarrow> string \<Rightarrow> string list" where
  "harness_plan scenario_id start_at_id =
     (let active0 = (start_at_id = []);
          run_b = (scenario_id = ''B'' \<or> scenario_id = ''all'' \<and> (active0 \<or> start_at_id = ''B''));
          active = (active0 \<or> run_b)
      in (if run_b then [''B''] else [])
         @ (if scenario_id = ''D'' \<or> scenario_id = ''all'' \<and> (active \<or> start_at_id = ''D'') then [''D''] else [])
         @ (if scenario_id = ''E'' \<or> scenario_id = ''all'' \<and> (active \<or> start_at_id = ''E'') then [''E''] else [])
         @ (if scenario_id = ''F'' \<or> scenario_id = ''all'' \<and> (active \<or> start_at_id = ''F'') then [''F''] else [])
         @ (if scenario_id = ''G'' then [''G''] else []))"

definition scenario_of :: "'w user_os \<Rightarrow> string \<Rightarrow> 'w scenario_ops" where
  "scenario_of os sid =
     (if sid = ''B'' then scenario_b os 0 else if sid = ''D'' then scenario_d os 1
      else if sid = ''E'' then scenario_e os 2 else if sid = ''F'' then scenario_f os 3
      else scenario_g os 4)"

text \<open>Running the plan; \<open>Some (Some code, h)\<close> when a run ended the process.\<close>

fun run_plan :: "'w user_os \<Rightarrow> string list \<Rightarrow> 'w harness \<Rightarrow> (int option \<times> 'w harness) option" where
  "run_plan os [] h = Some (None, h)"
| "run_plan os (sid # sids) h =
     (case run_scenario os (scenario_of os sid) sid h of
        None \<Rightarrow> None
      | Some (Process_exit code, h') \<Rightarrow> Some (Some code, h')
      | Some (Finished _, h') \<Rightarrow> run_plan os sids h')"

definition destroy_scenarios :: "'w user_os \<Rightarrow> 'w harness \<Rightarrow> 'w harness" where
  "destroy_scenarios os h = fold (destroy_loader os) [4, 3, 2, 1, 0] h"

definition harness_main :: "'w user_os \<Rightarrow> string list \<Rightarrow> 'w harness \<Rightarrow> (int \<times> 'w harness) option" where
  "harness_main os argv h =
     (case harness_args (tl argv) ''all'' [] of
        None \<Rightarrow> Some (0, say (harness_usage (hd argv)) h)
      | Some (scenario_id, start_at_id) \<Rightarrow>
          (case run_plan os (harness_plan scenario_id start_at_id) h of
             None \<Rightarrow> None
           | Some (Some code, h') \<Rightarrow> Some (code, h')
           | Some (None, h') \<Rightarrow>
               Some (0, destroy_scenarios os
                  (say [[], ''[+] Presenter Harness scenario sequence complete.''] h'))))"

section \<open>The plan\<close>


section \<open>Nothing stays loaded\<close>

definition loader_of :: "string \<Rightarrow> nat" where
  "loader_of sid =
     (if sid = ''B'' then 0 else if sid = ''D'' then 1 else if sid = ''E'' then 2
      else if sid = ''F'' then 3 else 4)"

lemma scenario_of_loader: "scenario (loader_of sid) (scenario_of os sid)"
  by (rule scenario_all [where os = os]) (simp add: scenario_of_def loader_of_def)

lemma loader_of_bound: "loader_of sid \<le> 4"
  by (simp add: loader_of_def)

text \<open>Only the five loaders own modules, and the registry is sound.\<close>

definition five_loaders :: "'w harness \<Rightarrow> bool" where
  "five_loaders h \<longleftrightarrow> loader_inv h \<and> (\<forall>j > 4. loaded_modules h j = [])"

lemma five_loaders_run:
  assumes "run_scenario os (scenario_of os sid) sid h = Some (Finished r, h')" "five_loaders h"
  shows "five_loaders h'"
proof -
  have "loader_frame (loader_of sid) h h'"
    using scenario.run_scenario_frame [OF scenario_of_loader assms(1)] .
  with loader_of_bound [of sid] assms(2) show ?thesis by (auto simp: five_loaders_def loader_frame_def)
qed

lemma run_scenario_exit:
  assumes "run_scenario os sc sid h = Some (Process_exit code, h')" "loader_inv h"
  shows "loaded_modules h' i = []"
proof -
  have "cleanup_on_signal os h = Inl (code, h')"
    using assms(1) by (auto simp: run_scenario_def Let_def split: sum.splits prod.splits
        expected.splits option.splits)
  then show ?thesis
    using assms(2) by (auto simp: cleanup_on_signal_def fold_unload_all loader_inv_def split: if_splits)
qed

lemma run_plan_outcome:
  assumes "run_plan os sids h = Some (r, h')" "five_loaders h"
  shows "case r of None \<Rightarrow> five_loaders h' | Some code \<Rightarrow> \<forall>i. loaded_modules h' i = []"
  using assms
proof (induction sids arbitrary: h)
  case (Cons sid sids)
  show ?case
  proof (cases "run_scenario os (scenario_of os sid) sid h")
    case None
    with Cons.prems(1) show ?thesis by simp
  next
    case (Some q)
    obtain out h1 where q: "q = (out, h1)" by fastforce
    show ?thesis
    proof (cases out)
      case (Process_exit code)
      with Cons.prems Some q show ?thesis
        using run_scenario_exit [of os "scenario_of os sid" sid h code h1]
        by (auto simp: five_loaders_def)
    next
      case (Finished res)
      with Cons.prems Some q show ?thesis
        using five_loaders_run [of os sid h res h1] Cons.IH [of h1] by simp
    qed
  qed
qed simp

lemma destroy_scenarios_empty:
  assumes "five_loaders h"
  shows "loaded_modules (destroy_scenarios os h) i = []"
proof (cases "i \<le> 4")
  case True
  then have "i = 0 \<or> i = 1 \<or> i = 2 \<or> i = 3 \<or> i = 4" by auto
  then show ?thesis
    by (auto simp: destroy_scenarios_def destroy_loader_def unregister_instance_def)
next
  case False
  with assms show ?thesis
    by (simp add: five_loaders_def destroy_scenarios_def destroy_loader_def unregister_instance_def)
qed

text \<open>
  C8: however the harness ends, it leaves no module behind: for every command line, if \<open>main\<close>
  returns (after the plan, after a failed setup along the way, or after printing help) or the
  process exits on a signal with status 128 plus the signal, no loader owns a module any more.
\<close>

theorem harness_main_unloads_everything:
  assumes "harness_main os argv (harness_start w) = Some (code, h')"
  shows "\<forall>i. loaded_modules h' i = []"
proof -
  have start: "five_loaders (harness_start w)" by (simp add: five_loaders_def) (simp add: harness_start_def)
  show ?thesis
  proof (cases "harness_args (tl argv) ''all'' []")
    case None
    with assms show ?thesis by (auto simp: harness_main_def harness_start_def)
  next
    case (Some opts)
    obtain sid st where o: "opts = (sid, st)" by fastforce
    obtain r h1 where p: "run_plan os (harness_plan sid st) (harness_start w) = Some (r, h1)"
      using assms Some o by (auto simp: harness_main_def split: option.splits)
    from run_plan_outcome [OF p start] assms Some o p show ?thesis
      by (cases r) (auto simp: harness_main_def destroy_scenarios_empty five_loaders_def loader_inv_def)
  qed
qed

theorem harness_main_unloads_everything_witness:
  "\<exists>h'. harness_main ref_user_os [''harness'', ''--scenario'', ''D''] (harness_start ([], 0)) = Some (0, h')
      \<and> (\<forall>i. loaded_modules h' i = [])"
proof -
  have "\<exists>r h1. run_scenario ref_user_os (scenario_d ref_user_os 1) ''D'' (harness_start ([], 0))
      = Some (Finished r, h1)"
    by (rule run_scenario_returns) (simp_all add: harness_start_def scenario_d_def scenario_d_run_def Let_def)
  then obtain h' where r: "harness_main ref_user_os [''harness'', ''--scenario'', ''D'']
      (harness_start ([], 0)) = Some (0, h')"
    by (auto simp: harness_main_def harness_plan_def scenario_of_def)
  from harness_main_unloads_everything [OF r] r show ?thesis by blast
qed

end
