(* ===== verification/Memory_Region.thy ===== *)
theory Memory_Region
  imports Cxx_Text Expected
begin

text \<open>
  \<open>src/userspace/common/memory_region.hpp\<close>: the RAII view of physical memory through
  \<open>/dev/mem\<close>. The operating system (page size, opening the device, mapping and unmapping, the
  volatile 32-bit accesses through a mapping) is a parameter over a world \<open>'w\<close>; \<open>phys_word\<close> reads
  the physical memory of a world. Results: the page arithmetic of \<open>map\<close> covers exactly the
  requested bytes, every error path is reported, and nothing stays mapped.
\<close>

section \<open>The operating system\<close>

record 'w devmem_os =
  sysconf_pagesize :: int
  open_error :: "string \<Rightarrow> bool \<Rightarrow> 'w \<Rightarrow> string option"
  mmap_phys :: "u64 \<Rightarrow> bool \<Rightarrow> u64 \<Rightarrow> 'w \<Rightarrow> string + u64 \<times> 'w"
  munmap :: "u64 \<Rightarrow> u64 \<Rightarrow> 'w \<Rightarrow> 'w"
  peek32 :: "u64 \<Rightarrow> 'w \<Rightarrow> u32"
  poke32 :: "u64 \<Rightarrow> u32 \<Rightarrow> 'w \<Rightarrow> 'w"
  phys_word :: "'w \<Rightarrow> u64 \<Rightarrow> u32"
  live_maps :: "'w \<Rightarrow> (u64 \<times> u64) list"

text \<open>
  What a mapping does: it is a non-null pointer through which the words of the mapped range are
  read, and written when it is writable; mapping and unmapping change no physical memory.
\<close>

definition devmem_os_ok :: "'w devmem_os \<Rightarrow> bool" where
  "devmem_os_ok os \<longleftrightarrow>
     (\<forall>len wr base w p w'. mmap_phys os len wr base w = Inr (p, w') \<longrightarrow>
        p \<noteq> 0 \<and> p \<noteq> - 1 \<and> live_maps os w' = (p, len) # live_maps os w \<and> phys_word os w' = phys_word os w
        \<and> (\<forall>off. unat off + 4 \<le> unat len \<longrightarrow> peek32 os (p + off) w' = phys_word os w' (base + off))
        \<and> (wr \<longrightarrow> (\<forall>off v. unat off + 4 \<le> unat len \<longrightarrow>
             phys_word os (poke32 os (p + off) v w') (base + off) = v
             \<and> live_maps os (poke32 os (p + off) v w') = live_maps os w')))
     \<and> (\<forall>p len w. phys_word os (munmap os p len w) = phys_word os w
          \<and> live_maps os (munmap os p len w) = remove1 (p, len) (live_maps os w))"

text \<open>POSIX page sizes are powers of two; a failed query is not positive.\<close>

definition page_size_ok :: "'w devmem_os \<Rightarrow> bool" where
  "page_size_ok os \<longleftrightarrow> sysconf_pagesize os \<le> 0 \<or> (\<exists>p \<le> 32. sysconf_pagesize os = 2 ^ p)"

section \<open>The view\<close>

definition kDefaultPageSize :: u64 where "kDefaultPageSize = 4096"

datatype memory_access_mode = ReadOnly | ReadWrite

text \<open>The owning pointer with its deleter's length, and the three numbers of the view.\<close>

record physical_memory_view =
  mapping_ptr :: u64
  mapping_len :: u64
  view_phys_addr :: u64
  view_size :: u64
  offset_in_page :: u64

definition empty_view :: physical_memory_view where
  "empty_view = \<lparr>mapping_ptr = 0, mapping_len = 0, view_phys_addr = 0, view_size = 0, offset_in_page = 0\<rparr>"

definition make_view :: "u64 \<times> u64 \<Rightarrow> u64 \<Rightarrow> u64 \<Rightarrow> u64 \<Rightarrow> physical_memory_view" where
  "make_view = (\<lambda>(p, len) phys sz off.
     \<lparr>mapping_ptr = p, mapping_len = len, view_phys_addr = phys, view_size = sz, offset_in_page = off\<rparr>)"

definition MAP_FAILED :: u64 where "MAP_FAILED = - 1"

definition MmapDeleter :: "'w devmem_os \<Rightarrow> physical_memory_view \<Rightarrow> 'w \<Rightarrow> 'w" where
  "MmapDeleter os v w =
     (if mapping_ptr v \<noteq> 0 \<and> mapping_ptr v \<noteq> MAP_FAILED \<and> mapping_len v > 0
      then munmap os (mapping_ptr v) (mapping_len v) w else w)"

definition effective_page_size :: "'w devmem_os \<Rightarrow> u64" where
  "effective_page_size os =
     (if sysconf_pagesize os \<le> 0 then kDefaultPageSize else of_int (sysconf_pagesize os))"

definition map_view ::
  "'w devmem_os \<Rightarrow> u64 \<Rightarrow> u64 \<Rightarrow> memory_access_mode \<Rightarrow> string \<Rightarrow> 'w
     \<Rightarrow> (physical_memory_view, string) expected \<times> 'w" where
  "map_view os phys sz mode dev_path w =
     (if sz = 0 then (Unexpected ''Cannot map physical memory region of 0 size.'', w)
      else
        let page_size = effective_page_size os;
            page_base = phys AND NOT (page_size - 1);
            page_offset = phys AND (page_size - 1);
            map_length = page_offset + sz;
            writable = (mode = ReadWrite)
        in (case open_error os dev_path writable w of
              Some e \<Rightarrow> (Unexpected (''Failed to open '' @ dev_path @ '': '' @ e), w)
            | None \<Rightarrow>
                (case mmap_phys os map_length writable page_base w of
                   Inl e \<Rightarrow> (Unexpected (''mmap failed for phys_addr 0x'' @ dec_nat (unat phys)
                                       @ '': '' @ e), w)
                 | Inr (p, w') \<Rightarrow>
                     (Expected (make_view (p, map_length) phys sz page_offset), w'))))"

definition view_is_valid :: "physical_memory_view \<Rightarrow> bool" where
  "view_is_valid v \<longleftrightarrow> mapping_ptr v \<noteq> 0"

text \<open>
  The defaulted move operations: the owning pointer moves, its deleter and the numbers are copied. The
  results are the target and what is left of the source; assignment first releases the old mapping.
\<close>

definition move_view :: "physical_memory_view \<Rightarrow> physical_memory_view \<times> physical_memory_view" where
  "move_view v = (v, v\<lparr>mapping_ptr := 0\<rparr>)"

definition move_assign_view ::
  "'w devmem_os \<Rightarrow> physical_memory_view \<Rightarrow> physical_memory_view \<Rightarrow> 'w
     \<Rightarrow> physical_memory_view \<times> physical_memory_view \<times> 'w" where
  "move_assign_view os target source w = (source, source\<lparr>mapping_ptr := 0\<rparr>, MmapDeleter os target w)"

text \<open>The span of \<open>view()\<close> and \<open>mutable_view()\<close>: start and length, empty for an invalid view.\<close>

definition view_span :: "physical_memory_view \<Rightarrow> (u64 \<times> u64) option" where
  "view_span v =
     (if mapping_ptr v = 0 then None else Some (mapping_ptr v + offset_in_page v, view_size v))"

definition view_mutable_span :: "physical_memory_view \<Rightarrow> (u64 \<times> u64) option" where
  "view_mutable_span v =
     (if mapping_ptr v = 0 then None else Some (mapping_ptr v + offset_in_page v, view_size v))"

text \<open>\<open>read_at\<close> and \<open>write_at\<close> at the 32-bit type the program uses.\<close>

definition read_at :: "'w devmem_os \<Rightarrow> physical_memory_view \<Rightarrow> u64 \<Rightarrow> 'w \<Rightarrow> u32" where
  "read_at os v off w =
     (if mapping_ptr v = 0 then 0 else peek32 os (mapping_ptr v + offset_in_page v + off) w)"

definition write_at :: "'w devmem_os \<Rightarrow> physical_memory_view \<Rightarrow> u32 \<Rightarrow> u64 \<Rightarrow> 'w \<Rightarrow> 'w" where
  "write_at os v val off w =
     (if mapping_ptr v = 0 then w else poke32 os (mapping_ptr v + offset_in_page v + off) val w)"

section \<open>Page arithmetic\<close>

lemma mask_split:
  fixes a m :: u64
  shows "(a AND NOT m) + (a AND m) = a" "(a AND NOT m) AND m = 0"
proof -
  have "(a AND NOT m) + (a AND m) = (a AND NOT m) OR (a AND m)"
    by (rule disjunctive_add) (simp add: bit_simps)
  also have "\<dots> = a" by (rule bit_eqI) (auto simp: bit_simps)
  finally show "(a AND NOT m) + (a AND m) = a" .
  show "(a AND NOT m) AND m = 0" by (rule bit_eqI) (simp add: bit_simps)
qed

lemma page_size_power:
  assumes "page_size_ok os"
  obtains p where "p \<le> 32" "effective_page_size os = 2 ^ p"
proof (cases "sysconf_pagesize os \<le> 0")
  case True
  then show ?thesis using that [of 12] by (simp add: effective_page_size_def kDefaultPageSize_def)
next
  case False
  then show ?thesis using assms that by (auto simp: page_size_ok_def effective_page_size_def)
qed

lemma page_offset_bound:
  assumes "page_size_ok os"
  shows "unat (a AND (effective_page_size os - 1)) < unat (effective_page_size os)"
    and "unat (effective_page_size os) \<le> 2 ^ 32"
proof -
  obtain p where p: "p \<le> 32" "effective_page_size os = 2 ^ p" using page_size_power [OF assms] .
  have pw: "(2::nat) ^ p \<le> 2 ^ 32" using p(1) by (intro power_increasing) auto
  have "unat (of_nat (2 ^ p) :: u64) = 2 ^ p"
    using pw by (simp only: unat_of_nat) (simp add: take_bit_nat_eq_self)
  then have u: "unat (2 ^ p :: u64) = 2 ^ p" by simp
  have "a AND (2 ^ p - 1) = take_bit p a" by (simp add: take_bit_eq_mask mask_eq_exp_minus_1)
  then show "unat (a AND (effective_page_size os - 1)) < unat (effective_page_size os)"
    using p u by (simp add: unsigned_take_bit_eq)
  show "unat (effective_page_size os) \<le> 2 ^ 32" using u p pw by simp
qed

lemma page_offset_add:
  assumes "page_size_ok os" "unat sz < 2 ^ 63"
  shows "unat ((a AND (effective_page_size os - 1)) + sz)
       = unat (a AND (effective_page_size os - 1)) + unat sz"
proof -
  have "unat (a AND (effective_page_size os - 1)) + unat sz < 2 ^ 64"
    using page_offset_bound(1) [OF assms(1), of a] page_offset_bound(2) [OF assms(1)] assms(2) by simp
  then show ?thesis by (simp add: unat_word_ariths)
qed

section \<open>What mapping guarantees\<close>

lemma map_view_mapped:
  assumes "map_view os phys sz mode dev w = (Expected v, w')"
  shows "mmap_phys os (mapping_len v) (mode = ReadWrite) (phys AND NOT (effective_page_size os - 1)) w
      = Inr (mapping_ptr v, w')"
    and "offset_in_page v = phys AND (effective_page_size os - 1)"
    and "mapping_len v = (phys AND (effective_page_size os - 1)) + sz" "view_size v = sz" "sz \<noteq> 0"
  using assms
  by (auto simp: map_view_def make_view_def Let_def split: if_splits option.splits sum.splits prod.splits)

text \<open>
  C26: the page arithmetic of \<open>PhysicalMemoryView::map\<close>. For every address and every size below
  \<open>2^63\<close>, a successful map asks the kernel for a page-aligned base and a length that cover exactly
  the requested bytes: base plus offset is the address, the offset is less than a page, the length
  is offset plus size without wrap-around, and the span the view hands out is the requested size
  starting at the mapping plus that offset. A size of 0 is refused before the device is opened.
\<close>

theorem map_geometry:
  assumes "page_size_ok os" "unat sz < 2 ^ 63"
    and "map_view os phys sz mode dev w = (r, w')"
  shows "if sz = 0 then (\<exists>e. r = Unexpected e) \<and> w' = w
    else (\<forall>v. r = Expected v \<longrightarrow>
      (\<exists>base. mmap_phys os (mapping_len v) (mode = ReadWrite) base w = Inr (mapping_ptr v, w')
         \<and> base + offset_in_page v = phys \<and> base AND (effective_page_size os - 1) = 0
         \<and> unat (offset_in_page v) < unat (effective_page_size os)
         \<and> unat (mapping_len v) = unat (offset_in_page v) + unat sz
         \<and> (mapping_ptr v \<noteq> 0 \<longrightarrow> view_span v = Some (mapping_ptr v + offset_in_page v, sz))))
      \<and> (\<forall>e. r = Unexpected e \<longrightarrow> w' = w)"
proof (cases "sz = 0")
  case True
  with assms(3) show ?thesis by (auto simp: map_view_def)
next
  case False
  let ?m = "effective_page_size os - 1"
  have "\<exists>base. mmap_phys os (mapping_len v) (mode = ReadWrite) base w = Inr (mapping_ptr v, w')
      \<and> base + offset_in_page v = phys \<and> base AND ?m = 0
      \<and> unat (offset_in_page v) < unat (effective_page_size os)
      \<and> unat (mapping_len v) = unat (offset_in_page v) + unat sz
      \<and> (mapping_ptr v \<noteq> 0 \<longrightarrow> view_span v = Some (mapping_ptr v + offset_in_page v, sz))"
    if "r = Expected v" for v
  proof -
    note mapped = map_view_mapped [OF assms(3) [unfolded that]]
    show ?thesis
      using mapped mask_split [of phys ?m] page_offset_bound(1) [OF assms(1)] page_offset_add [OF assms(1,2)]
      by (auto simp: view_span_def intro!: exI [of _ "phys AND NOT ?m"])
  qed
  moreover have "w' = w" if "r = Unexpected e" for e
    using assms(3) that False
    by (auto simp: map_view_def Let_def split: option.splits sum.splits prod.splits)
  ultimately show ?thesis using False by auto
qed

text \<open>A world with flat physical memory where every mapping succeeds at a fixed distance.\<close>

record ref_world =
  rw_mem :: "u64 \<Rightarrow> u32"
  rw_maps :: "(u64 \<times> u64) list"
  rw_base :: u64

definition ref_devmem :: "ref_world devmem_os" where
  "ref_devmem = \<lparr>sysconf_pagesize = 4096, open_error = (\<lambda>d wr w. None),
     mmap_phys = (\<lambda>len wr base w. Inr (0x7000, w\<lparr>rw_maps := (0x7000, len) # rw_maps w, rw_base := base\<rparr>)),
     munmap = (\<lambda>p len w. w\<lparr>rw_maps := remove1 (p, len) (rw_maps w)\<rparr>),
     peek32 = (\<lambda>p w. rw_mem w (rw_base w + (p - 0x7000))),
     poke32 = (\<lambda>p v w. w\<lparr>rw_mem := (rw_mem w)(rw_base w + (p - 0x7000) := v)\<rparr>),
     phys_word = rw_mem, live_maps = rw_maps\<rparr>"

lemma ref_devmem_ok [simp]: "devmem_os_ok ref_devmem" "page_size_ok ref_devmem"
proof -
  show "devmem_os_ok ref_devmem" by (simp add: devmem_os_ok_def ref_devmem_def)
  show "page_size_ok ref_devmem"
    unfolding page_size_ok_def by (intro disjI2 exI [of _ 12]) (simp add: ref_devmem_def)
qed

theorem map_geometry_witness:
  "\<exists>v w'. map_view ref_devmem 0x40001234 4 ReadOnly ''/dev/mem'' \<lparr>rw_mem = \<lambda>_. 0, rw_maps = [], rw_base = 0\<rparr>
      = (Expected v, w') \<and> unat (mapping_len v) = unat (offset_in_page v) + 4"
proof -
  obtain v w' where r: "map_view ref_devmem 0x40001234 4 ReadOnly ''/dev/mem''
      \<lparr>rw_mem = \<lambda>_. 0, rw_maps = [], rw_base = 0\<rparr> = (Expected v, w')"
    by (simp add: map_view_def ref_devmem_def Let_def)
  from map_geometry [OF ref_devmem_ok(2) _ r] r show ?thesis by auto
qed

section \<open>Ownership\<close>

text \<open>A mapping has one owner: what is left of a moved view releases nothing.\<close>

lemma moved_from_releases_nothing:
  "MmapDeleter os (snd (move_view v)) w = w" "\<not> view_is_valid (snd (move_view v))"
  "view_span (snd (move_view v)) = None" "MmapDeleter os empty_view w = w"
  by (simp_all add: MmapDeleter_def move_view_def view_is_valid_def view_span_def empty_view_def)

text \<open>A view that was mapped, moved and assigned over an empty one is released exactly once.\<close>

lemma view_released_once:
  assumes "devmem_os_ok os" "page_size_ok os" "unat sz < 2 ^ 63" "map_view os phys sz mode dev w = (Expected v, w')"
    and "move_view v = (v1, rest1)" "move_assign_view os empty_view v1 w' = (v2, rest2, w2)"
  shows "live_maps os (MmapDeleter os rest1 (MmapDeleter os rest2 (MmapDeleter os v2 w2))) = live_maps os w"
proof -
  note mapped = map_view_mapped [OF assms(4)]
  have "unat (mapping_len v) = unat (phys AND (effective_page_size os - 1)) + unat sz"
    using page_offset_add [OF assms(2,3)] mapped(3) by simp
  then have "mapping_len v \<noteq> 0" using mapped(5) by (auto simp: unat_eq_0)
  moreover have "mapping_ptr v \<noteq> 0" "mapping_ptr v \<noteq> MAP_FAILED"
    "live_maps os w' = (mapping_ptr v, mapping_len v) # live_maps os w"
    "live_maps os (munmap os p l u) = remove1 (p, l) (live_maps os u)" for p l u
    using assms(1) mapped(1) by (auto simp: devmem_os_ok_def MAP_FAILED_def)
  ultimately show ?thesis
    using assms(5,6)
    by (auto simp: move_view_def move_assign_view_def MmapDeleter_def empty_view_def word_neq_0_conv)
qed

end
