(* ===== verification/Devmem.thy ===== *)
theory Devmem
  imports Memory_Region Demo_Constants
begin

text \<open>
  \<open>src/userspace/devmem\<close>: the physical memory inspector. Number parsing, the read, write and watch
  operations of \<open>phys_view.cpp\<close> over the views of \<open>Memory_Region\<close> (the destructor of the view runs
  before each returns), and the command line of \<open>main.cpp\<close> with its output and exit codes. A watch
  is driven by what it observes: at each turn the stop flag and the world at the read.
\<close>

section \<open>Parsing\<close>

text \<open>\<open>s.c_str()\<close>: the text up to the first NUL.\<close>

definition c_str :: "string \<Rightarrow> string" where
  "c_str s = takeWhile (\<lambda>c. c \<noteq> CHR 0x00) s"

definition parse_address :: "string \<Rightarrow> (u64, string) expected" where
  "parse_address s =
     (if s = [] then Unexpected ''Empty address string''
      else case strtoull0 (c_str s) of
          (val, rest) \<Rightarrow> if rest \<noteq> Some [] then Unexpected (''Invalid physical address: '' @ s)
                        else Expected val)"

definition parse_value32 :: "string \<Rightarrow> (u32, string) expected" where
  "parse_value32 s =
     (if s = [] then Unexpected ''Empty value string''
      else case strtoull0 (c_str s) of
          (val, rest) \<Rightarrow> if rest \<noteq> Some [] then Unexpected (''Invalid 32-bit hex value: '' @ s)
                        else Expected (ucast val))"

section \<open>Physical reads and writes\<close>

definition read_phys :: "'w devmem_os \<Rightarrow> u64 \<Rightarrow> 'w \<Rightarrow> (u32, string) expected \<times> 'w" where
  "read_phys os phys w =
     (case map_view os phys 4 ReadOnly ''/dev/mem'' w of
        (Unexpected e, w') \<Rightarrow> (Unexpected e, w')
      | (Expected v, w') \<Rightarrow> (Expected (read_at os v 0 w'), MmapDeleter os v w'))"

definition write_phys :: "'w devmem_os \<Rightarrow> u64 \<Rightarrow> u32 \<Rightarrow> 'w \<Rightarrow> (unit, string) expected \<times> 'w" where
  "write_phys os phys val w =
     (case map_view os phys 4 ReadWrite ''/dev/mem'' w of
        (Unexpected e, w') \<Rightarrow> (Unexpected e, w')
      | (Expected v, w') \<Rightarrow> (Expected (), MmapDeleter os v (write_at os v val 0 w')))"

definition read_phys_32 :: "'w devmem_os \<Rightarrow> u64 \<Rightarrow> 'w \<Rightarrow> (u32, string) expected \<times> 'w" where
  "read_phys_32 os phys w = read_phys os phys w"

definition write_phys_32 :: "'w devmem_os \<Rightarrow> u64 \<Rightarrow> u32 \<Rightarrow> 'w \<Rightarrow> (unit, string) expected \<times> 'w" where
  "write_phys_32 os phys val w = write_phys os phys val w"

section \<open>Watching\<close>

definition kDefaultWatchInterval :: int where "kDefaultWatchInterval = 100"

record watch_options =
  watch_phys_addr :: u64
  watch_interval :: int
  single_shot :: bool

definition hex_8 :: "u32 \<Rightarrow> string" where
  "hex_8 v = pad0 8 (hex_upper (unat v))"

definition changed_line :: "u64 \<Rightarrow> u32 \<Rightarrow> u32 \<Rightarrow> string" where
  "changed_line phys old new =
     [CHR 0x1B] @ ''[1;31m[CHANGED]'' @ [CHR 0x1B] @ ''[0m 0x'' @ hex_upper (unat phys) @ '': 0x''
     @ hex_8 old @ '' -> 0x'' @ hex_8 new"

text \<open>
  The loop: per turn the loaded stop flag and the world after the sleep. The result is the lines
  printed and whether the loop ended within the observations.
\<close>

fun watch_loop ::
  "'w devmem_os \<Rightarrow> physical_memory_view \<Rightarrow> watch_options \<Rightarrow> u32 \<Rightarrow> (bool \<times> 'w) list \<Rightarrow> string list \<times> bool" where
  "watch_loop os v opts last_val [] = ([], False)"
| "watch_loop os v opts last_val ((stop_requested, w) # obs) =
     (if stop_requested then ([], True)
      else
        let current_val = read_at os v 0 w;
            ls = (if current_val \<noteq> last_val
                  then [changed_line (watch_phys_addr opts) last_val current_val] else [])
        in if single_shot opts then (ls, True)
           else case watch_loop os v opts current_val obs of (rest, fin) \<Rightarrow> (ls @ rest, fin))"

definition watch_phys_32 ::
  "'w devmem_os \<Rightarrow> watch_options \<Rightarrow> 'w \<Rightarrow> (bool \<times> 'w) list
     \<Rightarrow> (string list \<times> bool, string) expected" where
  "watch_phys_32 os opts w obs =
     (case map_view os (watch_phys_addr opts) 4 ReadOnly ''/dev/mem'' w of
        (Unexpected e, w') \<Rightarrow> Unexpected e
      | (Expected v, w') \<Rightarrow>
          let last_val = read_at os v 0 w';
              header = ''Watching physical address 0x'' @ hex_upper (unat (watch_phys_addr opts))
                @ '' ('' @ dec_int (watch_interval opts) @ ''ms interval, Ctrl+C to exit)...'';
              init = ''[INIT] 0x'' @ hex_upper (unat (watch_phys_addr opts)) @ '': 0x'' @ hex_8 last_val
          in case watch_loop os v opts last_val obs of
               (ls, fin) \<Rightarrow> Expected (header # init # ls, fin))"

text \<open>The adapter with a stop flag of its own, which nothing sets; \<open>ws\<close> are the worlds after the sleeps.\<close>

definition watch_phys ::
  "'w devmem_os \<Rightarrow> u64 \<Rightarrow> 'w \<Rightarrow> 'w list \<Rightarrow> (string list \<times> bool, string) expected" where
  "watch_phys os phys w ws =
     watch_phys_32 os \<lparr>watch_phys_addr = phys, watch_interval = kDefaultWatchInterval, single_shot = False\<rparr> w
       (map (\<lambda>x. (False, x)) ws)"

section \<open>The command line\<close>

definition devmem_signal_handler :: "int \<Rightarrow> bool \<Rightarrow> bool" where
  "devmem_signal_handler sig g_stop_requested = (if sig = 2 \<or> sig = 15 then True else g_stop_requested)"

definition devmem_usage :: "string \<Rightarrow> string list" where
  "devmem_usage prog =
     [''ARM64 Physical Memory Inspector (`devmem`)'',
      ''Usage: '' @ prog @ '' <subcommand> [args...]'', [],
      ''Subcommands:'',
      ''  read  <phys_addr>            Read 32-bit hex value from physical memory address'',
      ''  write <phys_addr> <value>   Write 32-bit hex value to physical memory address'',
      ''  watch <phys_addr> [ms]      Poll physical memory address every 100ms (or specified ms),'',
      ''                              highlighting live changes'', [],
      ''Examples:'',
      ''  '' @ prog @ '' read 0x40001000'',
      ''  '' @ prog @ '' write 0x40001000 0xDEADDEAD'',
      ''  '' @ prog @ '' watch 0x40001000'']"

text \<open>Exit code, lines on the standard and on the error stream.\<close>

record cli_result =
  exit_code :: int
  out_lines :: "string list"
  err_lines :: "string list"

definition cli :: "int \<Rightarrow> string list \<Rightarrow> string list \<Rightarrow> cli_result" where
  "cli c os es = \<lparr>exit_code = c, out_lines = os, err_lines = es\<rparr>"

definition handle_read_cmd :: "'w devmem_os \<Rightarrow> string list \<Rightarrow> 'w \<Rightarrow> cli_result \<times> 'w" where
  "handle_read_cmd os argv w =
     (if length argv < 3
      then (cli 1 (devmem_usage (argv ! 0))
              [''Error: 'read' subcommand requires a physical address argument.''], w)
      else case parse_address (argv ! 2) of
          Unexpected e \<Rightarrow> (cli 1 [] [''Error: '' @ e], w)
        | Expected a \<Rightarrow>
            (case read_phys_32 os a w of
               (Unexpected e, w') \<Rightarrow> (cli 1 [] [''Read Error: '' @ e], w')
             | (Expected v, w') \<Rightarrow> (cli 0 [fmt_0x08X v] [], w')))"

definition handle_write_cmd :: "'w devmem_os \<Rightarrow> string list \<Rightarrow> 'w \<Rightarrow> cli_result \<times> 'w" where
  "handle_write_cmd os argv w =
     (if length argv < 4
      then (cli 1 (devmem_usage (argv ! 0))
              [''Error: 'write' subcommand requires physical address and value arguments.''], w)
      else case parse_address (argv ! 2) of
          Unexpected e \<Rightarrow> (cli 1 [] [''Error: '' @ e], w)
        | Expected a \<Rightarrow>
            (case parse_value32 (argv ! 3) of
               Unexpected e \<Rightarrow> (cli 1 [] [''Error: '' @ e], w)
             | Expected v \<Rightarrow>
                 (case write_phys_32 os a v w of
                    (Unexpected e, w') \<Rightarrow> (cli 1 [] [''Write Error: '' @ e], w')
                  | (Expected _, w') \<Rightarrow>
                      (cli 0 [''Wrote '' @ fmt_0x08X v @ '' to 0x'' @ pad0 8 (hex_upper (unat a))] [], w'))))"

text \<open>
  The optional interval argument: the interval and the warning; \<open>what\<close> is the text of the thrown
  exception.
\<close>

definition watch_interval_arg :: "(stoi_error \<Rightarrow> string) \<Rightarrow> string list \<Rightarrow> int \<times> string list" where
  "watch_interval_arg what argv =
     (if length argv < 4 then (kDefaultWatchInterval, [])
      else case stoi (argv ! 3) of
          Inr ms \<Rightarrow> (if ms > 0 then ms else kDefaultWatchInterval, [])
        | Inl e \<Rightarrow> (kDefaultWatchInterval,
            [''Warning: Invalid interval '' @ [CHR 0x27] @ argv ! 3 @ [CHR 0x27] @ '', using default ''
             @ dec_int kDefaultWatchInterval @ ''ms ('' @ what e @ '')'']))"

text \<open>\<open>None\<close>: the watch was still running when the observations ended.\<close>

definition handle_watch_cmd ::
  "'w devmem_os \<Rightarrow> (stoi_error \<Rightarrow> string) \<Rightarrow> string list \<Rightarrow> 'w \<Rightarrow> (bool \<times> 'w) list \<Rightarrow> cli_result option" where
  "handle_watch_cmd os what argv w obs =
     (if length argv < 3
      then Some (cli 1 (devmem_usage (argv ! 0))
             [''Error: 'watch' subcommand requires a physical address argument.''])
      else case parse_address (argv ! 2) of
          Unexpected e \<Rightarrow> Some (cli 1 [] [''Error: '' @ e])
        | Expected a \<Rightarrow>
            (let (interval, warning) = watch_interval_arg what argv;
                 opts = \<lparr>watch_phys_addr = a, watch_interval = interval, single_shot = False\<rparr>
             in case watch_phys_32 os opts w obs of
                  Unexpected e \<Rightarrow> Some (cli 1 [] (warning @ [''Watch Error: '' @ e]))
                | Expected (ls, fin) \<Rightarrow> if fin then Some (cli 0 ls warning) else None))"

definition devmem_main ::
  "'w devmem_os \<Rightarrow> (stoi_error \<Rightarrow> string) \<Rightarrow> string list \<Rightarrow> 'w \<Rightarrow> (bool \<times> 'w) list
     \<Rightarrow> cli_result option \<times> 'w" where
  "devmem_main os what argv w obs =
     (if length argv < 2 then (Some (cli 1 (devmem_usage (argv ! 0)) []), w)
      else
        let subcommand = argv ! 1 in
        if subcommand \<in> {''-h'', ''--help'', ''help''}
        then (Some (cli 0 (devmem_usage (argv ! 0)) []), w)
        else if subcommand = ''read''
        then (case handle_read_cmd os argv w of (r, w') \<Rightarrow> (Some r, w'))
        else if subcommand = ''write''
        then (case handle_write_cmd os argv w of (r, w') \<Rightarrow> (Some r, w'))
        else if subcommand = ''watch'' then (handle_watch_cmd os what argv w obs, w)
        else (Some (cli 1 (devmem_usage (argv ! 0))
                [''Error: Unknown subcommand '' @ [CHR 0x27] @ subcommand @ [CHR 0x27]]), w))"

section \<open>Parsing round trips\<close>

lemma hex_text_c_str:
  assumes "\<forall>c \<in> set s. is_digit 16 c"
  shows "c_str (''0x'' @ s) = ''0x'' @ s"
proof -
  have "c \<noteq> CHR 0x00" if "is_digit 16 c" for c
    using that by (auto simp: is_digit_def char_digit_def)
  with assms show ?thesis by (auto simp: c_str_def)
qed

lemma strtoull0_hex:
  assumes "s \<noteq> []" "\<forall>c \<in> set s. is_digit 16 c" "digits_value 16 s < 2 ^ 64"
  shows "strtoull0 (''0x'' @ s) = (of_nat (digits_value 16 s), Some [])"
proof -
  have tw: "takeWhile (is_digit 16) s = s" using assms(2) by (simp only: takeWhile_eq_all_conv)
  have "is_digit 16 (s ! 0)" using assms(1,2) by simp
  then have "strtoull0 (''0x'' @ s) = (let ds = takeWhile (is_digit 16) s; v = digits_value 16 ds in
      if ds = [] then (0, None)
      else (if 2 ^ 64 \<le> v then - 1 else of_nat v, Some (drop (length ds) s)))"
    using assms(1)
    by (simp add: strtoull0_def strip_sign_def detect_base_def starts_with_def c_isspace_def Let_def)
  then show ?thesis unfolding tw using assms(1,3) by (simp add: Let_def)
qed

lemma printed_hex:
  assumes "good_digits dg 16"
  shows "\<forall>c \<in> set (pad0 k (num_str dg 16 n)). is_digit 16 c" "pad0 k (num_str dg 16 n) \<noteq> []"
    "digits_value 16 (pad0 k (num_str dg 16 n)) = n"
proof -
  show "\<forall>c \<in> set (pad0 k (num_str dg 16 n)). is_digit 16 c"
    by (rule pad0_digits [OF _ num_str_digits [OF assms]]) simp
qed (simp_all add: digits_value_num_str [OF assms])

lemma unat_of_nat_u64: "n < 2 ^ 64 \<Longrightarrow> unat (of_nat n :: u64) = n"
  by (simp only: unat_of_nat) (simp add: take_bit_nat_eq_self)

lemma parse_hex_text:
  assumes "good_digits dg 16" "n < 2 ^ 64"
  shows "parse_address (''0x'' @ pad0 k (num_str dg 16 n)) = Expected (of_nat n)"
    and "parse_value32 (''0x'' @ pad0 k (num_str dg 16 n)) = Expected (of_nat n)"
proof -
  note p = printed_hex [OF assms(1), of k n]
  have s: "strtoull0 (c_str (''0x'' @ pad0 k (num_str dg 16 n))) = (of_nat n, Some [])"
    using strtoull0_hex [OF p(2,1)] assms(2) p(3) by (simp only: hex_text_c_str [OF p(1)])
  then show "parse_address (''0x'' @ pad0 k (num_str dg 16 n)) = Expected (of_nat n)"
    by (simp add: parse_address_def)
  show "parse_value32 (''0x'' @ pad0 k (num_str dg 16 n)) = Expected (of_nat n)"
    using s assms(2) by (simp add: parse_value32_def unsigned_of_nat take_bit_nat_eq_self)
qed

text \<open>
  The addresses the programs print are the addresses devmem reads. Any 64-bit address, written
  as \<open>0x\<close> and lower- or upper-case hexadecimal digits with any zero padding (the form of the
  \<open>phys_addr\<close> line of \<open>/proc/safety_mem_status\<close> and of devmem's own output), parses back to itself,
  and so does any 32-bit value devmem prints.
\<close>

theorem parse_address_roundtrip:
  "parse_address (''0x'' @ pad0 k (hex_lower (unat a))) = Expected a
   \<and> parse_address (''0x'' @ pad0 k (hex_upper (unat a))) = Expected a
   \<and> parse_value32 (fmt_0x08X v) = Expected v"
proof -
  have a: "unat a < 2 ^ 64" using unsigned_less [of a, where ?'a = nat] by simp
  have "unat v < 2 ^ 32" using unsigned_less [of v, where ?'a = nat] by simp
  then have "unat v < 2 ^ 64" by simp
  then show ?thesis
    using a parse_hex_text [OF good_digits_std(2) a] parse_hex_text [OF good_digits_std(3)]
    by (simp add: hex_lower_def hex_upper_def fmt_0x08X_def)
qed

text \<open>
  Values are cut to 32 bits without a word: a hexadecimal value below \<open>2^64\<close> is accepted and
  reduced modulo \<open>2^32\<close>.
\<close>

theorem parse_value32_truncates:
  assumes "n < 2 ^ 64"
  shows "\<exists>v. parse_value32 (''0x'' @ hex_upper n) = Expected v \<and> unat v = n mod 2 ^ 32"
  using parse_hex_text(2) [OF good_digits_std(3) assms, of 0]
  by (simp add: hex_upper_def pad0_def unat_of_nat take_bit_eq_mod)

theorem parse_value32_truncates_witness:
  "\<exists>v. parse_value32 (''0x'' @ hex_upper 0x1DEADDEAD) = Expected v \<and> unat v = 0xDEADDEAD"
  using parse_value32_truncates [of "0x1DEADDEAD"] by simp

section \<open>Reading and writing\<close>

text \<open>A 4-byte view of any address, as the reads and writes use it.\<close>

lemma map_view_word:
  assumes "devmem_os_ok os" "page_size_ok os"
    and "map_view os phys 4 mode dev w = (Expected v, w1)"
  shows "phys_word os w1 = phys_word os w" "live_maps os w1 = (mapping_ptr v, mapping_len v) # live_maps os w"
    "read_at os v 0 w1 = phys_word os w1 phys"
    "mode = ReadWrite \<Longrightarrow> phys_word os (write_at os v val 0 w1) phys = val
       \<and> live_maps os (write_at os v val 0 w1) = live_maps os w1"
    "MmapDeleter os v w' = munmap os (mapping_ptr v) (mapping_len v) w'"
proof -
  let ?m = "effective_page_size os - 1" and ?b = "phys AND NOT (effective_page_size os - 1)"
  have mm: "mmap_phys os (mapping_len v) (mode = ReadWrite) ?b w = Inr (mapping_ptr v, w1)"
    and off: "offset_in_page v = phys AND ?m" and len: "mapping_len v = offset_in_page v + 4"
    using map_view_mapped [OF assms(3)] by simp_all
  have u: "unat (mapping_len v) = unat (offset_in_page v) + 4"
    using page_offset_add [OF assms(2), of 4 phys] off len by simp
  have a: "?b + offset_in_page v = phys" using mask_split(1) [of phys ?m] off by simp
  note ok = assms(1) [unfolded devmem_os_ok_def, THEN conjunct1, rule_format, OF mm]
  show "phys_word os w1 = phys_word os w" "live_maps os w1 = (mapping_ptr v, mapping_len v) # live_maps os w"
    using ok by simp_all
  show "read_at os v 0 w1 = phys_word os w1 phys"
    using ok u a by (simp add: read_at_def)
  show "phys_word os (write_at os v val 0 w1) phys = val
      \<and> live_maps os (write_at os v val 0 w1) = live_maps os w1" if "mode = ReadWrite"
  proof -
    have "unat (offset_in_page v) + 4 \<le> unat (mapping_len v)" using u by simp
    with ok that have "phys_word os (poke32 os (mapping_ptr v + offset_in_page v) val w1)
          (?b + offset_in_page v) = val
        \<and> live_maps os (poke32 os (mapping_ptr v + offset_in_page v) val w1) = live_maps os w1"
      by blast
    with ok a show ?thesis by (simp add: write_at_def)
  qed
  have "mapping_len v \<noteq> 0" using u by auto
  then show "MmapDeleter os v w' = munmap os (mapping_ptr v) (mapping_len v) w'"
    using ok by (simp add: MmapDeleter_def MAP_FAILED_def word_neq_0_conv)
qed

lemma munmap_effect:
  assumes "devmem_os_ok os"
  shows "phys_word os (munmap os p len w) = phys_word os w"
    "live_maps os (munmap os p len w) = remove1 (p, len) (live_maps os w)"
  using assms by (simp_all add: devmem_os_ok_def)

lemma write_phys_effect:
  assumes "devmem_os_ok os" "page_size_ok os" "write_phys os a v w = (wr, w1)"
  shows "live_maps os w1 = live_maps os w \<and> (has_value wr \<longrightarrow> phys_word os w1 a = v)
      \<and> (\<not> has_value wr \<longrightarrow> w1 = w)"
proof (cases "map_view os a 4 ReadWrite ''/dev/mem'' w")
  case (Pair r w')
  show ?thesis
  proof (cases r)
    case (Expected x)
    from map_view_word [OF assms(1,2) Pair [unfolded Expected]] show ?thesis
      using assms(3) by (auto simp: write_phys_def Pair Expected munmap_effect [OF assms(1)])
  next
    case (Unexpected e)
    have "w' = w" using Pair Unexpected
      by (auto simp: map_view_def Let_def split: if_splits option.splits sum.splits prod.splits)
    with assms(3) show ?thesis by (auto simp: write_phys_def Pair Unexpected)
  qed
qed

text \<open>
  C25: a physical write is what a later physical read returns, at any address, aligned or not
  within its page; both leave exactly the mappings they found, a read changes no memory, and a
  failed one changes nothing at all.
\<close>

theorem write_phys_read_phys:
  assumes "devmem_os_ok os" "page_size_ok os"
    and "write_phys os a v w = (wr, w1)" "read_phys os a w1 = (rr, w2)"
  shows "(has_value wr \<and> has_value rr \<longrightarrow> rr = Expected v)
    \<and> live_maps os w2 = live_maps os w \<and> phys_word os w2 = phys_word os w1
    \<and> (\<not> has_value wr \<longrightarrow> w1 = w) \<and> (\<not> has_value rr \<longrightarrow> w2 = w1)"
proof -
  have read: "live_maps os w2 = live_maps os w1 \<and> phys_word os w2 = phys_word os w1
      \<and> (\<forall>x. rr = Expected x \<longrightarrow> x = phys_word os w1 a) \<and> (\<not> has_value rr \<longrightarrow> w2 = w1)"
  proof (cases "map_view os a 4 ReadOnly ''/dev/mem'' w1")
    case (Pair r w')
    show ?thesis
    proof (cases r)
      case (Expected v)
      from map_view_word [OF assms(1,2) Pair [unfolded Expected]] show ?thesis
        using assms(4) by (auto simp: read_phys_def Pair Expected munmap_effect [OF assms(1)])
    next
      case (Unexpected e)
      have "w' = w1" using Pair Unexpected
        by (auto simp: map_view_def Let_def split: if_splits option.splits sum.splits prod.splits)
      with assms(4) show ?thesis by (auto simp: read_phys_def Pair Unexpected)
    qed
  qed
  note wrote = write_phys_effect [OF assms(1-3)]
  from read wrote show ?thesis by (auto simp: has_value_iff)
qed

theorem write_phys_read_phys_witness:
  "let w = \<lparr>rw_mem = \<lambda>_. 0, rw_maps = [], rw_base = 0\<rparr>;
       w1 = snd (write_phys ref_devmem 0x40001ABC 7 w)
   in fst (read_phys ref_devmem 0x40001ABC w1) = Expected 7"
proof -
  let ?w = "\<lparr>rw_mem = \<lambda>_. 0, rw_maps = [], rw_base = 0\<rparr>"
  obtain wr w1 where w: "write_phys ref_devmem 0x40001ABC 7 ?w = (wr, w1)" by fastforce
  obtain rr w2 where r: "read_phys ref_devmem 0x40001ABC w1 = (rr, w2)" by fastforce
  have "has_value wr" using w
    by (auto simp: write_phys_def map_view_def ref_devmem_def Let_def)
  moreover have "has_value rr" using r
    by (auto simp: read_phys_def map_view_def ref_devmem_def Let_def)
  ultimately show ?thesis
    using write_phys_read_phys [OF ref_devmem_ok w r] by (simp add: w r Let_def)
qed

section \<open>Watching\<close>

text \<open>The changes in a sequence of readings.\<close>

definition changes :: "u64 \<Rightarrow> u32 list \<Rightarrow> string list" where
  "changes phys vs =
     concat (map (\<lambda>(x, y). if x \<noteq> y then [changed_line phys x y] else []) (zip (butlast vs) (tl vs)))"

lemma changes_Cons2:
  "changes phys (x # y # vs)
     = (if x \<noteq> y then [changed_line phys x y] else []) @ changes phys (y # vs)"
  by (simp add: changes_def)

text \<open>
  C27: a watch reports every change and nothing else. Until the turn at which it finds the stop flag
  set, the lines it prints are exactly the differences between successive readings, in order, each
  with the old and the new value; a stop ends it at that turn.
\<close>

theorem watch_reports_changes:
  assumes "\<not> single_shot opts"
  shows "watch_loop os v opts x (map (\<lambda>w. (False, w)) ws @ (True, w') # obs)
    = (changes (watch_phys_addr opts) (x # map (read_at os v 0) ws), True)"
  using assms
proof (induction ws arbitrary: x)
  case Nil
  then show ?case by (simp add: changes_def)
next
  case (Cons w ws)
  then show ?case by (simp add: changes_Cons2 Let_def)
qed

theorem watch_reports_changes_witness:
  "snd (watch_loop ref_devmem empty_view \<lparr>watch_phys_addr = 0x1000, watch_interval = 100, single_shot = False\<rparr>
     0 [(True, \<lparr>rw_mem = \<lambda>_. 0, rw_maps = [], rw_base = 0\<rparr>)])"
  using watch_reports_changes [where ws = "[]" and obs = "[]" and x = 0 and os = ref_devmem and v = empty_view
      and w' = "\<lparr>rw_mem = \<lambda>_. 0, rw_maps = [], rw_base = 0\<rparr>"
      and opts = "\<lparr>watch_phys_addr = 0x1000, watch_interval = 100, single_shot = False\<rparr>"]
  by simp

section \<open>The command line\<close>

text \<open>The adapter without a stop flag never ends, however long it runs.\<close>

lemma watch_loop_unstopped:
  "\<not> single_shot opts \<Longrightarrow> \<not> snd (watch_loop os v opts l (map (\<lambda>x. (False, x)) ws))"
  by (induction ws arbitrary: l) (simp_all add: Let_def split_beta)

lemma watch_phys_never_ends: "watch_phys os phys w ws \<noteq> Expected (ls, True)"
  using watch_loop_unstopped
    [of "\<lparr>watch_phys_addr = phys, watch_interval = kDefaultWatchInterval, single_shot = False\<rparr>" os _ _ ws]
  by (simp add: watch_phys_def watch_phys_32_def split_beta Let_def split: expected.splits)

text \<open>
  \<open>devmem write\<close> exits with 0 exactly when both numbers parse and the write is done, and then
  the addressed word has the parsed value; every other end is exit code 1 with one error line and
  an unchanged world. In either case no mapping stays behind.
\<close>

theorem devmem_write_command:
  assumes "devmem_os_ok os" "page_size_ok os"
    and "devmem_main os what [prog, ''write'', sa, sv] w obs = (r, w')"
  shows "\<exists>c. r = Some c \<and> live_maps os w' = live_maps os w
    \<and> (if exit_code c = 0
       then \<exists>a v. parse_address sa = Expected a \<and> parse_value32 sv = Expected v
              \<and> phys_word os w' a = v \<and> err_lines c = []
       else exit_code c = 1 \<and> length (err_lines c) = 1 \<and> out_lines c = [] \<and> w' = w)"
proof (cases "parse_address sa")
  case (Unexpected e)
  with assms(3) show ?thesis
    by (intro exI [of _ "the r"]) (auto simp: devmem_main_def handle_write_cmd_def cli_def Let_def)
next
  case a: (Expected a)
  show ?thesis
  proof (cases "parse_value32 sv")
    case (Unexpected e)
    with a assms(3) show ?thesis
    by (intro exI [of _ "the r"]) (auto simp: devmem_main_def handle_write_cmd_def cli_def Let_def)
  next
    case v: (Expected v)
    obtain wr w1 where wr: "write_phys os a v w = (wr, w1)" by fastforce
    have "live_maps os w1 = live_maps os w \<and> (has_value wr \<longrightarrow> phys_word os w1 a = v)
        \<and> (\<not> has_value wr \<longrightarrow> w1 = w)"
      by (rule write_phys_effect [OF assms(1,2) wr])
    with a v assms(3) wr show ?thesis
      by (intro exI [of _ "the r"], cases wr) (auto simp: devmem_main_def handle_write_cmd_def write_phys_32_def cli_def Let_def)
  qed
qed

theorem devmem_write_command_witness:
  "\<exists>c. fst (devmem_main ref_devmem (\<lambda>_. ''stoi'') [''devmem'', ''write'', ''0x40001000'', ''zzz'']
        \<lparr>rw_mem = \<lambda>_. 0, rw_maps = [], rw_base = 0\<rparr> []) = Some c \<and> exit_code c \<in> {0, 1}"
proof -
  obtain r w' where r: "devmem_main ref_devmem (\<lambda>_. ''stoi'') [''devmem'', ''write'', ''0x40001000'', ''zzz'']
      \<lparr>rw_mem = \<lambda>_. 0, rw_maps = [], rw_base = 0\<rparr> [] = (r, w')"
    by fastforce
  from devmem_write_command [OF ref_devmem_ok r] r show ?thesis by (auto split: if_splits)
qed

end
