(* ===== verification/Monitor.thy ===== *)
theory Monitor
  imports Scenario Status_Text
begin

text \<open>
  The live monitor, \<open>src/userspace/monitor/main.cpp\<close>, with the shared display state of
  \<open>src/userspace/monitor/renderer.hpp\<close>: the poller that reads the kernel's status file and the
  harness's state file, and the streamer that turns the trace pipe into a bounded list of events.
  The lemmas show that the poller recovers the kernel's state from its printed form, along both
  ways it reaches the monitor: the status file and the harness's state file.
\<close>

section \<open>The display state\<close>

record scenario_info =
  info_id :: string
  info_title :: string

record comparison_snapshot =
  snap_val_vmalloc :: u32
  snap_val_phys :: u32
  snap_mapping_entry :: u64
  snap_mapping_writable :: bool
  snap_ctx_protected :: bool
  snap_smmu_active :: bool
  snap_mapping_level :: string
  snap_status :: string

record event_entry =
  timestamp :: string
  source :: string
  message :: string
  is_warning :: bool
  is_error :: bool

record display_state =
  val_vmalloc :: u32
  val_phys :: u32
  virt_addr :: u64
  phys_addr :: u64
  mapping_entry_before :: u64
  mapping_entry_current :: u64
  ctx_protected :: bool
  smmu_active :: bool
  mapping_writable_before :: bool
  mapping_writable_current :: bool
  before :: comparison_snapshot
  after :: comparison_snapshot
  mutex_owner :: string
  status_str :: string
  mapping_level_before :: string
  mapping_level_current :: string
  events :: "event_entry list"
  scenario_info :: scenario_info

definition max_events :: nat where "max_events = 100"

definition empty_snapshot :: comparison_snapshot where
  "empty_snapshot = \<lparr>snap_val_vmalloc = 0, snap_val_phys = 0, snap_mapping_entry = 0,
     snap_mapping_writable = False, snap_ctx_protected = False, snap_smmu_active = False,
     snap_mapping_level = ''--'', snap_status = ''--''\<rparr>"

definition display_initial :: display_state where
  "display_initial = \<lparr>val_vmalloc = kSafetySentinel, val_phys = kSafetySentinel, virt_addr = 0, phys_addr = 0,
     mapping_entry_before = 0, mapping_entry_current = 0, ctx_protected = False, smmu_active = False,
     mapping_writable_before = False, mapping_writable_current = False,
     before = empty_snapshot, after = empty_snapshot,
     mutex_owner = ''none'', status_str = ''PROTECTED_RO'', mapping_level_before = ''unknown'',
     mapping_level_current = ''unknown'', events = [],
     scenario_info = \<lparr>info_id = ''None'', info_title = ''Waiting for a scenario''\<rparr>\<rparr>"

section \<open>Text helpers\<close>

definition kHexRadix :: nat where "kHexRadix = 16"
definition kHexPrefixLength :: nat where "kHexPrefixLength = 2"
definition kBeforePrefixLength :: nat where "kBeforePrefixLength = 7"
definition kAfterPrefixLength :: nat where "kAfterPrefixLength = 6"
definition kTraceMessageLimit :: nat where "kTraceMessageLimit = 60"
definition kTraceReadBufferCapacity :: nat where "kTraceReadBufferCapacity = 4096"
definition kTraceTimestamp :: string where "kTraceTimestamp = ''live''"
definition kPrimaryTracePipe :: string where "kPrimaryTracePipe = ''/sys/kernel/tracing/trace_pipe''"
definition kFallbackTracePipe :: string where "kFallbackTracePipe = ''/sys/kernel/debug/tracing/trace_pipe''"

definition trim_blanks :: string where
  "trim_blanks = [CHR '' '', CHR 0x09, CHR 0x0D, CHR 0x0A]"

definition trim :: "string \<Rightarrow> string" where
  "trim s =
     (case find_first_not_of s trim_blanks 0 of
        None \<Rightarrow> []
      | Some start \<Rightarrow>
          (case find_last_not_of s trim_blanks of
             None \<Rightarrow> substr s start (length s)
           | Some fin \<Rightarrow> substr s start (fin - start + 1)))"

definition hex_clean :: "string \<Rightarrow> string" where
  "hex_clean s = (if starts_with s ''0x'' \<or> starts_with s ''0X'' then drop kHexPrefixLength s else s)"

definition parse_hex64 :: "string \<Rightarrow> u64" where
  "parse_hex64 s =
     (case from_chars kHexRadix (2 ^ 64) (hex_clean s) of
        (Errc_ok, Some v, _) \<Rightarrow> of_nat v
      | _ \<Rightarrow> 0)"

definition parse_hex32 :: "string \<Rightarrow> u32" where
  "parse_hex32 s =
     (case from_chars kHexRadix (2 ^ 32) (hex_clean s) of
        (Errc_ok, Some v, _) \<Rightarrow> of_nat v
      | _ \<Rightarrow> 0)"

definition on_text :: "string \<Rightarrow> bool" where
  "on_text v \<longleftrightarrow> v = ''1'' \<or> v = ''true'' \<or> v = ''ON''"

section \<open>The poller\<close>

definition reset_snapshot :: "comparison_snapshot \<Rightarrow> comparison_snapshot" where
  "reset_snapshot s = s\<lparr>snap_val_vmalloc := 0, snap_val_phys := 0, snap_mapping_entry := 0,
     snap_mapping_writable := False, snap_ctx_protected := False, snap_smmu_active := False,
     snap_mapping_level := ''--'', snap_status := ''--''\<rparr>"

definition update_snapshot :: "string \<Rightarrow> string \<Rightarrow> comparison_snapshot \<Rightarrow> comparison_snapshot" where
  "update_snapshot key v s =
     (if key = ''value_via_vmalloc'' \<or> key = ''val_vmalloc'' then s\<lparr>snap_val_vmalloc := parse_hex32 v\<rparr>
      else if key = ''value_via_phys'' \<or> key = ''val_phys'' then s\<lparr>snap_val_phys := parse_hex32 v\<rparr>
      else if key = ''mapping_entry_current'' \<or> key = ''mapping_entry_vmalloc''
      then s\<lparr>snap_mapping_entry := parse_hex64 v\<rparr>
      else if key = ''mapping_writable_current'' \<or> key = ''mapping_writable_vmalloc''
      then s\<lparr>snap_mapping_writable := (v = ''1'')\<rparr>
      else if key = ''ctx_protected'' then s\<lparr>snap_ctx_protected := on_text v\<rparr>
      else if key = ''smmu_active'' then s\<lparr>snap_smmu_active := on_text v\<rparr>
      else if key = ''mapping_level_current'' \<or> key = ''mapping_level_vmalloc''
      then s\<lparr>snap_mapping_level := v\<rparr>
      else if key = ''status'' then s\<lparr>snap_status := v\<rparr>
      else s)"

text \<open>A line split at its first separator, both parts trimmed; \<open>None\<close> for a line without one.\<close>

definition key_value :: "char \<Rightarrow> string \<Rightarrow> (string \<times> string) option" where
  "key_value sep line =
     map_option (\<lambda>p. (trim (substr line 0 p), trim (drop (p + 1) line))) (str_find line [sep])"

text \<open>The local variables of \<open>sync_scenario_state\<close> and the display, as one line of the file changes them.\<close>

record sync_vars =
  sc_id :: string
  sc_title :: string
  phase :: string
  sync_display :: display_state

definition sync_assign :: "string \<times> string \<Rightarrow> sync_vars \<Rightarrow> sync_vars" where
  "sync_assign kv x =
     (let (key, v) = kv; d = sync_display x in
      if key = ''SCENARIO_ID'' then x\<lparr>sc_id := v\<rparr>
      else if key = ''TITLE'' then x\<lparr>sc_title := v\<rparr>
      else if key = ''PHASE'' then x\<lparr>phase := v\<rparr>
      else if starts_with key ''BEFORE_''
      then x\<lparr>sync_display := d\<lparr>before := update_snapshot (drop kBeforePrefixLength key) v (before d)\<rparr>\<rparr>
      else if starts_with key ''AFTER_''
      then x\<lparr>sync_display := d\<lparr>after := update_snapshot (drop kAfterPrefixLength key) v (after d)\<rparr>\<rparr>
      else x)"

definition sync_line :: "string \<Rightarrow> sync_vars \<Rightarrow> sync_vars" where
  "sync_line line x = (case key_value CHR ''='' line of None \<Rightarrow> x | Some kv \<Rightarrow> sync_assign kv x)"

definition sync_finish :: "sync_vars \<Rightarrow> display_state" where
  "sync_finish x =
     (let d = sync_display x;
          d1 = (if phase x = ''SETUP''
                then d\<lparr>before := reset_snapshot (before d), after := reset_snapshot (after d)\<rparr> else d);
          i = scenario_info d1
      in if sc_id x \<noteq> []
         then d1\<lparr>scenario_info := \<lparr>info_id = sc_id x,
                    info_title = (if sc_title x \<noteq> [] then sc_title x else info_title i)\<rparr>\<rparr>
         else d1)"

text \<open>
  What a \<open>getline\<close> loop over a file gets: \<open>None\<close> if it does not open, no line if reading breaks.
\<close>

definition file_lines :: "'w user_os \<Rightarrow> string \<Rightarrow> 'w \<Rightarrow> string list option" where
  "file_lines os path w =
     (if \<not> file_exists os path w then None
      else case read_file os path w of
          Open_failed \<Rightarrow> None | Read_broken \<Rightarrow> Some [] | Read_text s \<Rightarrow> Some (getlines s))"

definition sync_scenario_state :: "'w user_os \<Rightarrow> 'w \<Rightarrow> display_state \<Rightarrow> display_state" where
  "sync_scenario_state os w d =
     (case file_lines os ''/tmp/demo_state'' w of
        None \<Rightarrow> d
      | Some ls \<Rightarrow> sync_finish (fold sync_line ls \<lparr>sc_id = [], sc_title = [], phase = [], sync_display = d\<rparr>))"

definition poll_assign :: "string \<times> string \<Rightarrow> display_state \<Rightarrow> display_state" where
  "poll_assign kv d =
     (let (key, v) = kv in
      if key = ''virt_addr'' then d\<lparr>virt_addr := parse_hex64 v\<rparr>
      else if key = ''phys_addr'' then d\<lparr>phys_addr := parse_hex64 v\<rparr>
      else if key = ''mapping_entry_before'' then d\<lparr>mapping_entry_before := parse_hex64 v\<rparr>
      else if key = ''mapping_entry_current'' then d\<lparr>mapping_entry_current := parse_hex64 v\<rparr>
      else if key = ''mapping_writable_before'' then d\<lparr>mapping_writable_before := (v = ''1'')\<rparr>
      else if key = ''mapping_writable_current'' then d\<lparr>mapping_writable_current := (v = ''1'')\<rparr>
      else if key = ''mapping_level_before'' then d\<lparr>mapping_level_before := v\<rparr>
      else if key = ''mapping_level_current'' then d\<lparr>mapping_level_current := v\<rparr>
      else if key = ''value_via_vmalloc'' \<or> key = ''val_vmalloc'' then d\<lparr>val_vmalloc := parse_hex32 v\<rparr>
      else if key = ''value_via_phys'' \<or> key = ''val_phys'' then d\<lparr>val_phys := parse_hex32 v\<rparr>
      else if key = ''ctx_protected'' then d\<lparr>ctx_protected := on_text v\<rparr>
      else if key = ''smmu_active'' then d\<lparr>smmu_active := on_text v\<rparr>
      else if key = ''mutex_owner'' then d\<lparr>mutex_owner := v\<rparr>
      else if key = ''status'' then d\<lparr>status_str := v\<rparr>
      else d)"

definition poll_line :: "string \<Rightarrow> display_state \<Rightarrow> display_state" where
  "poll_line line d = (case key_value CHR '':'' line of None \<Rightarrow> d | Some kv \<Rightarrow> poll_assign kv d)"

text \<open>One turn of the \<open>mem_poller\<close> loop, up to its sleep.\<close>

definition mem_poller_turn :: "'w user_os \<Rightarrow> 'w \<Rightarrow> display_state \<Rightarrow> display_state" where
  "mem_poller_turn os w d =
     sync_scenario_state os w
       (case proc_read os ''/proc/safety_mem_status'' w of
          Expected s \<Rightarrow> fold poll_line (getlines s) d
        | Unexpected _ \<Rightarrow> d\<lparr>status_str := ''MODULE_NOT_LOADED''\<rparr>)"

section \<open>The event streamer\<close>

definition push_event :: "event_entry \<Rightarrow> display_state \<Rightarrow> display_state" where
  "push_event e d =
     (let evs = events d @ [e] in d\<lparr>events := (if length evs > max_events then drop 1 evs else evs)\<rparr>)"

definition append_event :: "string \<Rightarrow> string \<Rightarrow> bool \<Rightarrow> bool \<Rightarrow> display_state \<Rightarrow> display_state" where
  "append_event src msg warning err d =
     push_event \<lparr>timestamp = kTraceTimestamp, source = src, message = msg,
                 is_warning = warning, is_error = err\<rparr> d"

definition open_trace_pipe :: "(string \<Rightarrow> int) \<Rightarrow> (string \<times> int) option" where
  "open_trace_pipe open_fd =
     (if open_fd kPrimaryTracePipe \<ge> 0 then Some (kPrimaryTracePipe, open_fd kPrimaryTracePipe)
      else if open_fd kFallbackTracePipe \<ge> 0 then Some (kFallbackTracePipe, open_fd kFallbackTracePipe)
      else None)"

definition kDemoEventPrefixes :: "string list" where
  "kDemoEventPrefixes = [''mutex_threads:'', ''rogue_thread:'', ''VIOLATION:'']"

fun compact_from :: "string list \<Rightarrow> string \<Rightarrow> string" where
  "compact_from [] line = line"
| "compact_from (p # ps) line =
     (case str_find line p of Some pos \<Rightarrow> drop pos line | None \<Rightarrow> compact_from ps line)"

definition compact_trace_message :: "string \<Rightarrow> string" where
  "compact_trace_message line = compact_from kDemoEventPrefixes line"

definition stream_line :: "string \<Rightarrow> display_state \<Rightarrow> display_state" where
  "stream_line raw d =
     (let line = trim raw in
      if line \<noteq> []
      then append_event ''trace'' (substr (compact_trace_message line) 0 kTraceMessageLimit)
             (str_contains line ''WARN'')
             (str_contains line ''FAIL'' \<or> str_contains line ''VIOLATION'') d
      else d)"

text \<open>The inner loop: complete lines leave \<open>pending\<close>, the rest stays.\<close>

function drain_pending :: "string \<Rightarrow> display_state \<Rightarrow> string \<times> display_state" where
  "drain_pending pending d =
     (case str_find pending [newline] of
        None \<Rightarrow> (pending, d)
      | Some pos \<Rightarrow> drain_pending (drop (pos + 1) pending) (stream_line (substr pending 0 pos) d))"
  by pat_completeness auto

termination
proof (relation "measure (length \<circ> fst)")
  fix pending :: string and d :: display_state and pos
  assume "str_find pending [newline] = Some pos"
  then show "((drop (pos + 1) pending, stream_line (substr pending 0 pos) d), pending, d) \<in> measure (length \<circ> fst)"
    by (cases pending) auto
qed simp

declare drain_pending.simps [simp del]

text \<open>
  One \<open>read\<close> of the trace pipe: some bytes, nothing for now (end of file, \<open>EAGAIN\<close>, \<open>EWOULDBLOCK\<close>
  or \<open>EINTR\<close>), or another error with its message. A list of them is what the pipe does until a
  stop is requested.
\<close>

datatype trace_read = Trace_bytes string | Trace_idle | Trace_error string

fun stream_loop :: "trace_read list \<Rightarrow> string \<Rightarrow> display_state \<Rightarrow> string \<times> display_state" where
  "stream_loop [] pending d = (pending, d)"
| "stream_loop (Trace_bytes b # rs) pending d =
     (let (p, d') = drain_pending (pending @ b) d in stream_loop rs p d')"
| "stream_loop (Trace_idle # rs) pending d = stream_loop rs pending d"
| "stream_loop (Trace_error e # rs) pending d =
     (pending, append_event ''monitor'' (''trace_pipe read failed: '' @ e) True False d)"

definition event_streamer ::
  "(string \<Rightarrow> int) \<Rightarrow> string \<Rightarrow> trace_read list \<Rightarrow> display_state \<Rightarrow> display_state" where
  "event_streamer open_fd open_error rs d =
     (case open_trace_pipe open_fd of
        None \<Rightarrow> append_event ''monitor'' (''trace_pipe unavailable: '' @ open_error) True False d
      | Some (path, fd) \<Rightarrow>
          snd (stream_loop rs [] (append_event ''monitor'' (''connected to '' @ path) False False d)))"

section \<open>Signals\<close>

record monitor_flags =
  g_sigwinch_received :: bool
  g_running :: bool

definition monitor_signal_handler :: "int \<Rightarrow> monitor_flags \<Rightarrow> monitor_flags" where
  "monitor_signal_handler sig f =
     (if sig = 28 then f\<lparr>g_sigwinch_received := True\<rparr>
      else if sig = 2 \<or> sig = 15 then f\<lparr>g_running := False\<rparr>
      else f)"

section \<open>Trimming\<close>

abbreviation blank :: "char \<Rightarrow> bool" where "blank c \<equiv> c \<in> set trim_blanks"

lemma trim_alt: "trim s = trim_with blank s"
proof (cases "\<forall>c \<in> set s. blank c")
  case True
  then have "length (takeWhile blank s) = length s" by (metis takeWhile_eq_all_conv)
  then have "trim s = []" unfolding trim_def find_first_not_of_def Let_def drop_0 by simp
  moreover have "trim_with blank s = []" using True by (auto simp: trim_with_def dest: set_dropWhileD)
  ultimately show ?thesis by simp
next
  case False
  define k where "k = length (takeWhile blank s)"
  define t where "t = dropWhile blank s"
  have t: "drop k s = t" "s = take k s @ t" "t \<noteq> []"
    using False by (auto simp: k_def t_def dropWhile_eq_drop [symmetric] takeWhile_eq_take [symmetric])
  then have klt: "k < length s" by auto
  have "\<exists>x \<in> set (rev t). \<not> blank x"
    using hd_in_set [OF t(3)] hd_dropWhile [OF t(3) [unfolded t_def]] unfolding set_rev t_def by blast
  then have "dropWhile blank (rev t @ rev (take k s)) = dropWhile blank (rev t) @ rev (take k s)"
    by (auto simp: dropWhile_append)
  moreover have "rev s = rev t @ rev (take k s)" using t(2) by (metis rev_append)
  ultimately have r: "dropWhile blank (rev s) = dropWhile blank (rev t) @ rev (take k s)" by simp
  define n where "n = length (dropWhile blank (rev t))"
  have "n \<noteq> 0" using \<open>\<exists>x \<in> set (rev t). \<not> blank x\<close> by (simp add: n_def)
  moreover have "length (dropWhile blank (rev s)) = n + k" using r klt by (simp add: n_def)
  moreover have "rev (dropWhile blank (rev t)) = take n t"
    by (simp add: n_def dropWhile_eq_drop rev_drop)
  ultimately show ?thesis
    using klt t(1) by (simp add: trim_def find_first_not_of_def find_last_not_of_def substr_def trim_with_def
        t_def [symmetric] k_def [symmetric] Let_def)
qed

text \<open>Text with no blank at its ends, which trimming leaves alone.\<close>

definition tidy :: "string \<Rightarrow> bool" where
  "tidy v \<longleftrightarrow> v \<noteq> [] \<and> \<not> blank (hd v) \<and> \<not> blank (last v)"

lemma trim_tidy [simp]: "tidy v \<Longrightarrow> trim v = v"
  using trim_with_pad [of "[]" blank "[]" v] by (simp add: trim_alt tidy_def)

lemma trim_space [simp]: "trim (CHR '' '' # v) = trim v"
  by (simp add: trim_alt trim_with_def trim_blanks_def)

lemma digit_not_blank: "is_digit b c \<Longrightarrow> \<not> blank c"
  by (auto simp: is_digit_def char_digit_def trim_blanks_def split: if_splits)

lemma tidy_digits:
  assumes "\<forall>c \<in> set v. is_digit b c" "v \<noteq> []"
  shows "tidy v"
  using assms digit_not_blank hd_in_set last_in_set unfolding tidy_def by blast

lemma tidy_num_str [simp]: "good_digits dg b \<Longrightarrow> tidy (pad0 w (num_str dg b n))"
  by (rule tidy_digits [OF pad0_digits [OF _ num_str_digits]]) (simp_all add: good_digits_def)

lemma tidy_0x [simp]: "tidy v \<Longrightarrow> tidy (CHR ''0'' # CHR ''x'' # v)"
  by (simp add: tidy_def trim_blanks_def)

lemma tidy_dec_int [simp]: "tidy (dec_int i)"
proof -
  have "tidy (dec_nat n)" for n
    using tidy_num_str [OF good_digits_std(1), of 0 n] by (simp add: dec_nat_def pad0_def)
  moreover from this have "tidy (CHR ''-'' # dec_nat n)" for n
    by (simp add: tidy_def trim_blanks_def)
  ultimately show ?thesis by (simp add: dec_int_def)
qed

lemma tidy_bool [simp]: "tidy (bool_text b)"
  by (simp add: bool_text_def)

lemma tidy_level [simp]: "tidy (safety_mem_mapping_level i)"
  by (simp add: safety_mem_mapping_level_def tidy_def trim_blanks_def)

section \<open>Numbers read back\<close>

lemma parse_hex64_printed:
  assumes "good_digits dg 16"
  shows "parse_hex64 (CHR ''0'' # CHR ''x'' # pad0 w (num_str dg 16 (unat (v :: u64)))) = v"
  using from_chars_num_str [OF assms, of "unat v" "2 ^ 64" "[]" w] unsigned_less [of v, where 'a = nat]
  by (simp add: parse_hex64_def hex_clean_def starts_with_def kHexPrefixLength_def kHexRadix_def)

lemma parse_hex32_printed [simp]: "parse_hex32 (fmt_0x08X v) = v"
  using from_chars_num_str [OF good_digits_std(3), of "unat v" "2 ^ 32" "[]" 8] unsigned_less [of v, where 'a = nat]
  by (simp add: parse_hex32_def fmt_0x08X_def hex_upper_def hex_clean_def starts_with_def kHexPrefixLength_def
      kHexRadix_def)

lemma dec_int_is_1: "dec_int i = ''1'' \<longleftrightarrow> i = 1"
proof
  assume a: "dec_int i = ''1''"
  then have i: "0 \<le> i" "dec_nat (nat i) = ''1''" by (auto simp: dec_int_def split: if_splits)
  have "digits_value 10 (dec_nat (nat i)) = nat i" by (simp add: dec_nat_def digits_value_num_str)
  then show "i = 1" unfolding i(2) using i(1) by (simp add: digits_value_def digit_val_def char_digit_def)
qed (simp add: dec_int_def dec_nat_def num_str.simps digit_lower_def)

lemma on_text_dec_int [simp]: "on_text (dec_int i) \<longleftrightarrow> i = 1"
proof -
  have "\<forall>c \<in> set (dec_int i). c = CHR ''-'' \<or> is_digit 10 c"
    using num_str_digits [OF good_digits_std(1)] by (auto simp: dec_int_def dec_nat_def)
  moreover have "\<not> (c = CHR ''-'' \<or> is_digit 10 c)" if "c \<in> {CHR ''t'', CHR ''O''}" for c
    using that by (auto simp: is_digit_def char_digit_def)
  ultimately have "CHR ''t'' \<notin> set (dec_int i)" "CHR ''O'' \<notin> set (dec_int i)" by blast+
  then have "dec_int i \<noteq> ''true''" "dec_int i \<noteq> ''ON''" by (metis list.set_intros(1))+
  then show ?thesis by (simp add: on_text_def dec_int_is_1)
qed

lemma bool_text_is_1 [simp]: "bool_text b = ''1'' \<longleftrightarrow> b"
  by (simp add: bool_text_def dec_int_is_1)

section \<open>Lines and fields\<close>

lemma key_value_field:
  assumes "sep \<notin> set k" "tidy k"
  shows "key_value sep (k @ sep # CHR '' '' # v) = Some (k, trim v)"
  using assms by (simp add: key_value_def str_find_char substr_def)

text \<open>All fields of the status file in printed order, the mutex owner among them.\<close>

definition all_fields :: "'m kernel_mm \<Rightarrow> mutex_api \<Rightarrow> kernel_lib \<Rightarrow> 'm kstate \<Rightarrow> (string \<times> string) list" where
  "all_fields K M L s =
     take 16 (status_fields K L s) @ [(''mutex_owner'', mutex_owner_text M L (safety_mutex_owner (sm s)))]
     @ drop 16 (status_fields K L s)"

lemma status_lines_all_fields: "safety_mem_status_lines K M L s = map field (all_fields K M L s)"
  by (simp add: safety_mem_status_lines_def all_fields_def status_fields_def field_def Let_def)

text \<open>A field the two text formats can carry: a tidy key without separators, a value on one line.\<close>

definition good_field :: "string \<times> string \<Rightarrow> bool" where
  "good_field kv \<longleftrightarrow> tidy (fst kv) \<and> CHR '':'' \<notin> set (fst kv) \<and> CHR ''='' \<notin> set (fst kv)
     \<and> newline \<notin> set (fst kv) \<and> newline \<notin> set (snd kv)"

lemma owner_text_one_line:
  "kernel_lib_ok L \<Longrightarrow> newline \<notin> set (mutex_owner_text M L ow)"
  using kernel_lib_okD(6) [of L] kernel_lib_okD(2) [of L 16 "''unknown''"]
  by (simp add: mutex_owner_text_def)

lemma all_fields_good:
  assumes "kernel_lib_ok L"
  shows "\<forall>kv \<in> set (all_fields K M L s). good_field kv"
proof -
  have nl: "plain v \<Longrightarrow> newline \<notin> set v" for v by (simp add: plain_def)
  have "\<forall>(k, v) \<in> set (status_fields K L s). newline \<notin> set v"
    using status_fields_plain [OF assms, of K s] nl by fast
  moreover have "\<forall>(k, v) \<in> set (status_fields K L s). tidy k \<and> CHR '':'' \<notin> set k \<and> CHR ''='' \<notin> set k \<and> newline \<notin> set k"
    by (simp add: status_fields_def Let_def tidy_def trim_blanks_def)
  ultimately have "\<forall>kv \<in> set (status_fields K L s). good_field kv"
    by (auto simp: good_field_def)
  moreover have "good_field (''mutex_owner'', mutex_owner_text M L (safety_mutex_owner (sm s)))"
    using owner_text_one_line [OF assms] by (simp add: good_field_def tidy_def trim_blanks_def)
  ultimately show ?thesis
    by (auto simp: all_fields_def dest: in_set_takeD in_set_dropD)
qed

definition fields_text :: "(string \<times> string) list \<Rightarrow> string" where
  "fields_text fs = concat (map (\<lambda>kv. field kv @ [newline]) fs)"

lemma fields_text_Nil [simp]: "fields_text [] = []"
  by (simp add: fields_text_def)

lemma proc_show_fields: "snd (safety_mem_proc_show K M L s) = fields_text (all_fields K M L s)"
  by (simp add: safety_mem_proc_show_def status_lines_all_fields fields_text_def comp_def)

lemma good_field_line: "good_field kv \<Longrightarrow> newline \<notin> set (field kv)"
  by (simp add: good_field_def field_def)

lemma getlines_fields: "\<forall>kv \<in> set fs. good_field kv \<Longrightarrow> getlines (fields_text fs) = map field fs"
  using getlines_concat [of "map field fs"] good_field_line
  by (simp add: fields_text_def comp_def)

lemma poll_fields:
  "\<forall>kv \<in> set fs. good_field kv \<Longrightarrow>
   fold poll_line (map field fs) d = fold (\<lambda>kv. poll_assign (fst kv, trim (snd kv))) fs d"
proof (induction fs arbitrary: d)
  case (Cons kv fs)
  then have "key_value CHR '':'' (field kv) = Some (fst kv, trim (snd kv))"
    using key_value_field [of "CHR '':''" "fst kv" "snd kv"] by (simp add: good_field_def field_def)
  with Cons show ?case by (simp add: poll_line_def)
qed simp

lemma tidy_status [simp]: "tidy ''PROTECTED_RO''" "tidy ''UNPROTECTED_RW''"
  by (simp_all add: tidy_def trim_blanks_def)

lemma tidy_fmt [simp]: "tidy (fmt_0x08X v)"
  by (simp add: fmt_0x08X_def hex_upper_def)

lemmas printed_values = parse_hex64_printed [OF good_digits_std(2)] parse_hex64_printed [OF good_digits_std(3)]

section \<open>The status file on the display\<close>

text \<open>
  C17: the poller's display is the kernel's state. One pass over the status text the kernel prints
  puts on the display exactly the addresses, the initial and current page-table entry with level
  and permission, the word through both aliases, the two flags, the lock owner (trimmed) and the
  protection status of that kernel state, and touches nothing else.
\<close>

theorem poller_shows_kernel_state:
  assumes "kernel_lib_ok L"
  shows "fold poll_line (getlines (snd (safety_mem_proc_show K M L s))) d
    = (let st = sm s; cur = safety_mem_walk_pgtable K (mach s) (g_virt_addr st); ini = g_initial_mapping st
       in d\<lparr>val_vmalloc := nofault_value K (g_vmalloc_addr st) (mach s),
            val_phys := nofault_value K (g_virt_addr st) (mach s),
            virt_addr := g_virt_addr st, phys_addr := g_phys_addr st,
            mapping_entry_before := safety_mem_mapping_entry ini,
            mapping_entry_current := safety_mem_mapping_entry cur,
            ctx_protected := (g_ctx_protected st = 1), smmu_active := (g_smmu_active st = 1),
            mapping_writable_before := is_writable ini, mapping_writable_current := is_writable cur,
            mutex_owner := trim (mutex_owner_text M L (safety_mutex_owner st)),
            status_str := (if g_ctx_protected st \<noteq> 0 then ''PROTECTED_RO'' else ''UNPROTECTED_RW''),
            mapping_level_before := safety_mem_mapping_level ini,
            mapping_level_current := safety_mem_mapping_level cur\<rparr>)"
  unfolding proc_show_fields getlines_fields [OF all_fields_good [OF assms]]
    poll_fields [OF all_fields_good [OF assms]]
  by (simp add: all_fields_def status_fields_def poll_assign_def Let_def kernel_lib_okD(4,5) [OF assms]
      hex_lower_def hex_upper_def printed_values)

theorem poller_shows_kernel_state_witness:
  "ctx_protected (fold poll_line (getlines (snd (safety_mem_proc_show ref_kernel ref_mutex ref_lib
     (ref_state (\<lambda>a. True) True False 1)))) display_initial)"
  using poller_shows_kernel_state [where K = ref_kernel and M = ref_mutex and d = display_initial
      and s = "ref_state (\<lambda>a. True) True False 1", OF ref_lib_ok]
  by (simp add: Let_def)

section \<open>The state file on the display\<close>

text \<open>What the monitor keeps of a status text: the entry, level and permission of the vmalloc alias.\<close>

definition snapshot_of :: "'m kernel_mm \<Rightarrow> 'm kstate \<Rightarrow> comparison_snapshot" where
  "snapshot_of K s =
     (let st = sm s; vmm = safety_mem_walk_pgtable K (mach s) (g_vmalloc_addr st)
      in \<lparr>snap_val_vmalloc = nofault_value K (g_vmalloc_addr st) (mach s),
          snap_val_phys = nofault_value K (g_virt_addr st) (mach s),
          snap_mapping_entry = safety_mem_mapping_entry vmm,
          snap_mapping_writable = is_writable vmm,
          snap_ctx_protected = (g_ctx_protected st = 1), snap_smmu_active = (g_smmu_active st = 1),
          snap_mapping_level = safety_mem_mapping_level vmm,
          snap_status = (if g_ctx_protected st \<noteq> 0 then ''PROTECTED_RO'' else ''UNPROTECTED_RW'')\<rparr>)"

lemma update_all_fields:
  assumes "kernel_lib_ok L"
  shows "fold (\<lambda>kv. update_snapshot (fst kv) (trim (snd kv))) (all_fields K M L s) x = snapshot_of K s"
  by (simp add: all_fields_def status_fields_def update_snapshot_def snapshot_of_def Let_def
      kernel_lib_okD(4,5) [OF assms] hex_lower_def hex_upper_def printed_values)

lemma write_snapshot_fields:
  assumes "\<forall>kv \<in> set fs. good_field kv"
  shows "write_snapshot pre (fields_text fs)
    = concat (map (\<lambda>l. l @ [newline]) (map (\<lambda>kv. pre @ fst kv @ ''= '' @ snd kv) fs))"
proof -
  have "snapshot_line pre (field kv) = (pre @ fst kv @ ''= '' @ snd kv) @ [newline]" if "good_field kv" for kv
    using that str_find_char [of "CHR '':''" "fst kv" "CHR '' '' # snd kv"]
    by (simp add: snapshot_line_def field_def good_field_def)
  with assms have "map (snapshot_line pre) (map field fs)
      = map (\<lambda>l. l @ [newline]) (map (\<lambda>kv. pre @ fst kv @ ''= '' @ snd kv) fs)" by simp
  then show ?thesis by (simp only: write_snapshot_def getlines_fields [OF assms])
qed

lemma getlines_state_text:
  assumes "\<forall>kv \<in> set fb. good_field kv" "\<forall>kv \<in> set fa. good_field kv"
    and "newline \<notin> set sid" "newline \<notin> set title" "newline \<notin> set ph"
  shows "getlines (demo_state_text sid title ph (fields_text fb) (fields_text fa))
    = [''SCENARIO_ID='' @ sid, ''TITLE='' @ title, ''PHASE='' @ ph]
      @ map (\<lambda>kv. ''BEFORE_'' @ fst kv @ ''= '' @ snd kv) fb @ map (\<lambda>kv. ''AFTER_'' @ fst kv @ ''= '' @ snd kv) fa"
    (is "_ = ?ls")
proof -
  have "\<forall>l \<in> set ?ls. newline \<notin> set l" using assms by (auto simp: good_field_def)
  from getlines_concat [OF this] show ?thesis
    by (simp add: demo_state_text_def write_snapshot_fields assms(1,2))
qed

lemma tidy_prefix: "tidy k \<Longrightarrow> tidy (''BEFORE_'' @ k)" "tidy k \<Longrightarrow> tidy (''AFTER_'' @ k)"
  by (simp_all add: tidy_def trim_blanks_def)

lemma sync_before:
  "\<forall>kv \<in> set fs. good_field kv \<Longrightarrow>
   fold sync_line (map (\<lambda>kv. ''BEFORE_'' @ fst kv @ ''= '' @ snd kv) fs) x
   = x\<lparr>sync_display := (sync_display x)\<lparr>before :=
         fold (\<lambda>kv. update_snapshot (fst kv) (trim (snd kv))) fs (before (sync_display x))\<rparr>\<rparr>"
proof (induction fs arbitrary: x)
  case (Cons kv fs)
  then have "key_value CHR ''='' (''BEFORE_'' @ fst kv @ ''= '' @ snd kv) = Some (''BEFORE_'' @ fst kv, trim (snd kv))"
    using key_value_field [of "CHR ''=''" "''BEFORE_'' @ fst kv" "snd kv"] tidy_prefix(1) [of "fst kv"]
    by (simp add: good_field_def)
  with Cons show ?case
    by (simp add: sync_line_def sync_assign_def starts_with_def kBeforePrefixLength_def Let_def)
qed simp

lemma sync_after:
  "\<forall>kv \<in> set fs. good_field kv \<Longrightarrow>
   fold sync_line (map (\<lambda>kv. ''AFTER_'' @ fst kv @ ''= '' @ snd kv) fs) x
   = x\<lparr>sync_display := (sync_display x)\<lparr>after :=
         fold (\<lambda>kv. update_snapshot (fst kv) (trim (snd kv))) fs (after (sync_display x))\<rparr>\<rparr>"
proof (induction fs arbitrary: x)
  case (Cons kv fs)
  then have "key_value CHR ''='' (''AFTER_'' @ fst kv @ ''= '' @ snd kv) = Some (''AFTER_'' @ fst kv, trim (snd kv))"
    using key_value_field [of "CHR ''=''" "''AFTER_'' @ fst kv" "snd kv"] tidy_prefix(2) [of "fst kv"]
    by (simp add: good_field_def)
  with Cons show ?case
    by (simp add: sync_line_def sync_assign_def starts_with_def kAfterPrefixLength_def Let_def)
qed simp

lemma sync_head:
  "fold sync_line [''SCENARIO_ID='' @ sid, ''TITLE='' @ title, ''PHASE='' @ ph] x
   = x\<lparr>sc_id := trim sid, sc_title := trim title, phase := trim ph\<rparr>"
  using str_find_char [of "CHR ''=''" "''SCENARIO_ID''" sid] str_find_char [of "CHR ''=''" "''TITLE''" title]
    str_find_char [of "CHR ''=''" "''PHASE''" ph]
    trim_tidy [of "''SCENARIO_ID''"] trim_tidy [of "''TITLE''"] trim_tidy [of "''PHASE''"]
  by (simp add: sync_line_def sync_assign_def key_value_def substr_def starts_with_def tidy_def trim_blanks_def Let_def)

text \<open>The state file belongs to the harness: what it writes is what the monitor reads.\<close>

definition state_file_ok :: "'w user_os \<Rightarrow> bool" where
  "state_file_ok os \<longleftrightarrow>
     (\<forall>t w. can_write os ''/tmp/demo_state'' w
        \<and> file_exists os ''/tmp/demo_state'' (write_file os ''/tmp/demo_state'' t w)
        \<and> read_file os ''/tmp/demo_state'' (write_file os ''/tmp/demo_state'' t w) = Read_text t)"

lemma file_lines_published:
  "state_file_ok os \<Longrightarrow> file_lines os ''/tmp/demo_state'' (world (publish_state os sid title ph b a h))
     = Some (getlines (demo_state_text sid title ph b a))"
  by (simp add: publish_state_def state_file_ok_def file_lines_def)

lemma sync_published:
  assumes "state_file_ok os" "\<forall>kv \<in> set fb. good_field kv" "\<forall>kv \<in> set fa. good_field kv"
    and "newline \<notin> set sid" "newline \<notin> set title" "newline \<notin> set ph"
  shows "sync_scenario_state os (world (publish_state os sid title ph (fields_text fb) (fields_text fa) h)) d
    = sync_finish \<lparr>sc_id = trim sid, sc_title = trim title, phase = trim ph, sync_display = d\<lparr>
        before := fold (\<lambda>kv. update_snapshot (fst kv) (trim (snd kv))) fb (before d),
        after := fold (\<lambda>kv. update_snapshot (fst kv) (trim (snd kv))) fa (after d)\<rparr>\<rparr>"
  unfolding sync_scenario_state_def file_lines_published [OF assms(1)] option.case
    getlines_state_text [OF assms(2-)] fold_append o_apply sync_head sync_before [OF assms(2)] sync_after [OF assms(3)]
  by simp

text \<open>
  C16: the comparison on the display is the harness's. The state file carries a scenario from the
  harness to the monitor: in the setup phase the monitor clears both snapshots, in the phase before
  the action the snapshot it shows is the kernel state the harness read, and after the action both
  snapshots are; scenario identifier and title arrive too, and nothing else on the display changes.
  The entry shown is that of the vmalloc alias, the later of the two fields it is fed from.
\<close>

theorem state_file_reaches_display:
  assumes "state_file_ok os" "kernel_lib_ok L"
    and "tidy sid" "newline \<notin> set sid" "tidy title" "newline \<notin> set title"
  shows "let text = (\<lambda>s. snd (safety_mem_proc_show K M L s));
             seen = (\<lambda>ph b a. sync_scenario_state os (world (publish_state os sid title ph b a h)) d);
             info = \<lparr>info_id = sid, info_title = title\<rparr>
    in seen ''SETUP'' [] [] = d\<lparr>before := empty_snapshot, after := empty_snapshot, scenario_info := info\<rparr>
     \<and> seen ''BEFORE'' (text s0) [] = d\<lparr>before := snapshot_of K s0, scenario_info := info\<rparr>
     \<and> seen ''AFTER'' (text s0) (text s1)
         = d\<lparr>before := snapshot_of K s0, after := snapshot_of K s1, scenario_info := info\<rparr>"
proof -
  have t: "trim sid = sid" "trim title = title" "sid \<noteq> []" "title \<noteq> []"
    using assms(3,5) by (simp_all add: tidy_def)
  have ph: "trim ''SETUP'' = ''SETUP''" "trim ''BEFORE'' = ''BEFORE''" "trim ''AFTER'' = ''AFTER''"
    by (rule trim_tidy, simp add: tidy_def trim_blanks_def)+
  have clear: "reset_snapshot x = empty_snapshot" for x
    by (simp add: reset_snapshot_def empty_snapshot_def)
  note good = all_fields_good [OF assms(2)] and seen = sync_published [OF assms(1) _ _ assms(4,6)]
  have "sync_scenario_state os (world (publish_state os sid title ''SETUP'' [] [] h)) d
      = d\<lparr>before := empty_snapshot, after := empty_snapshot, scenario_info := \<lparr>info_id = sid, info_title = title\<rparr>\<rparr>"
    using seen [of "[]" "[]" "''SETUP''"] by (simp add: ph t clear sync_finish_def)
  moreover have "sync_scenario_state os (world (publish_state os sid title ''BEFORE''
        (snd (safety_mem_proc_show K M L s0)) [] h)) d
      = d\<lparr>before := snapshot_of K s0, scenario_info := \<lparr>info_id = sid, info_title = title\<rparr>\<rparr>"
    using seen [OF good [of K M s0], of "[]" "''BEFORE''"]
    by (simp add: ph t sync_finish_def proc_show_fields update_all_fields [OF assms(2)])
  moreover have "sync_scenario_state os (world (publish_state os sid title ''AFTER''
        (snd (safety_mem_proc_show K M L s0)) (snd (safety_mem_proc_show K M L s1)) h)) d
      = d\<lparr>before := snapshot_of K s0, after := snapshot_of K s1,
          scenario_info := \<lparr>info_id = sid, info_title = title\<rparr>\<rparr>"
    using seen [OF good [of K M s0] good [of K M s1], of "''AFTER''"]
    by (simp add: ph t sync_finish_def proc_show_fields update_all_fields [OF assms(2)])
  ultimately show ?thesis unfolding Let_def by blast
qed

text \<open>An operating system whose only file is the state file.\<close>

definition state_file_os :: "string user_os" where
  "state_file_os = \<lparr>file_exists = (\<lambda>p w. True), read_file = (\<lambda>p w. Read_text w),
     can_write = (\<lambda>p w. True), write_file = (\<lambda>p t w. t), system_call = (\<lambda>c w. (0, w)),
     sleep_ms = (\<lambda>n w. w), now_ns = (\<lambda>w. 0), command_log = (\<lambda>w. [])\<rparr>"

lemma state_file_os_ok: "state_file_ok state_file_os"
  by (simp add: state_file_ok_def state_file_os_def)

theorem state_file_reaches_display_witness:
  "sync_scenario_state state_file_os
     (world (publish_state state_file_os ''B'' ''Mutex'' ''SETUP'' [] [] (harness_start [])))
     display_initial
   = display_initial\<lparr>before := empty_snapshot, after := empty_snapshot,
       scenario_info := \<lparr>info_id = ''B'', info_title = ''Mutex''\<rparr>\<rparr>"
  using state_file_reaches_display [OF state_file_os_ok ref_lib_ok, of "''B''" "''Mutex''" ref_kernel ref_mutex
      "harness_start []" display_initial "ref_state (\<lambda>a. True) True False 1"]
  unfolding Let_def by (simp add: tidy_def trim_blanks_def)

end
