(* ===== verification/Event_Stream.thy ===== *)
theory Event_Stream
  imports Monitor Ring_Log
begin

text \<open>
  The event list of the monitor (\<open>src/userspace/monitor/main.cpp\<close>, the streamer thread): a bounded
  log of the lines of the trace pipe. It does not depend on how the pipe cuts its bytes into reads,
  and the poller and the streamer do not disturb each other's part of the display.
\<close>

section \<open>The event list\<close>

interpretation event_log: bounded_log max_events push_event events "\<lambda>d. length (events d) \<le> max_events"
proof unfold_locales
  show "0 < max_events" by (simp add: max_events_def)
  show "events (push_event e d) = take_last max_events (events d @ [e])" if "length (events d) \<le> max_events" for d e
    using that take_last_snoc_full [of "events d" max_events e]
    by (cases "events d") (auto simp: push_event_def max_events_def Let_def)
  show "length (events (push_event e d)) \<le> max_events" if "length (events d) \<le> max_events" for d e
    using that by (cases "events d") (simp_all add: push_event_def max_events_def Let_def)
qed simp

text \<open>The event a trimmed, non-empty trace line becomes.\<close>

definition trace_event :: "string \<Rightarrow> event_entry" where
  "trace_event line = \<lparr>timestamp = kTraceTimestamp, source = ''trace'',
     message = take kTraceMessageLimit (compact_trace_message line),
     is_warning = str_contains line ''WARN'',
     is_error = (str_contains line ''FAIL'' \<or> str_contains line ''VIOLATION'')\<rparr>"

definition trace_events :: "string list \<Rightarrow> event_entry list" where
  "trace_events ls = map trace_event (filter (\<lambda>l. l \<noteq> []) (map trim ls))"

lemma stream_line_push: "stream_line l d = fold push_event (trace_events [l]) d"
  by (simp add: stream_line_def trace_events_def trace_event_def append_event_def substr_def Let_def)

lemma stream_lines_push: "fold stream_line ls d = fold push_event (trace_events ls) d"
  by (induction ls arbitrary: d) (simp_all add: stream_line_push trace_events_def)

lemma drain_line: "newline \<notin> set l \<Longrightarrow> drain_pending (l @ newline # s) d = drain_pending s (stream_line l d)"
  by (subst drain_pending.simps) (simp add: str_find_char substr_def)

lemma drain_none: "newline \<notin> set p \<Longrightarrow> drain_pending p d = (p, d)"
  by (subst drain_pending.simps) (simp add: str_find_char_None)

lemma drain_lines:
  assumes "\<forall>l \<in> set ls. newline \<notin> set l" "newline \<notin> set rest"
  shows "drain_pending (concat (map (\<lambda>l. l @ [newline]) ls) @ rest) d = (rest, fold stream_line ls d)"
  using assms(1) by (induction ls arbitrary: d) (simp_all add: drain_none [OF assms(2)] drain_line)

text \<open>Draining what has arrived and then the rest is draining all of it.\<close>

lemma drain_append:
  "drain_pending (a @ b) d = (case drain_pending a d of (p, d') \<Rightarrow> drain_pending (p @ b) d')"
proof (induction a d rule: drain_pending.induct)
  case (1 a d)
  show ?case
  proof (cases "newline \<in> set a")
    case True
    then obtain l r where a: "a = l @ newline # r" "newline \<notin> set l" by (metis split_list_first)
    then have "str_find a [newline] = Some (length l)" by (simp add: str_find_char)
    from 1 [OF this] a show ?thesis by (simp add: drain_line substr_def)
  qed (simp add: drain_none)
qed

lemma drain_rest: "newline \<notin> set (fst (drain_pending a d))"
proof (induction a d rule: drain_pending.induct)
  case (1 a d)
  show ?case
  proof (cases "newline \<in> set a")
    case True
    then obtain l r where a: "a = l @ newline # r" "newline \<notin> set l" by (metis split_list_first)
    then have "str_find a [newline] = Some (length l)" by (simp add: str_find_char)
    from 1 [OF this] a show ?thesis by (simp add: drain_line substr_def)
  qed (simp add: drain_none)
qed

primrec trace_read_bytes :: "trace_read \<Rightarrow> string" where
  "trace_read_bytes (Trace_bytes b) = b"
| "trace_read_bytes Trace_idle = []"
| "trace_read_bytes (Trace_error e) = []"

definition read_failed :: "trace_read \<Rightarrow> bool" where
  "read_failed r \<longleftrightarrow> (case r of Trace_error _ \<Rightarrow> True | _ \<Rightarrow> False)"

lemma stream_loop_drain:
  assumes "newline \<notin> set pending" "\<forall>r \<in> set rs. \<not> read_failed r"
  shows "stream_loop rs pending d = drain_pending (pending @ concat (map trace_read_bytes rs)) d"
  using assms
proof (induction rs arbitrary: pending d)
  case (Cons r rs)
  show ?case
  proof (cases r)
    case (Trace_bytes b)
    obtain p d' where p: "drain_pending (pending @ b) d = (p, d')" by fastforce
    then have "newline \<notin> set p" using drain_rest [of "pending @ b" d] by simp
    with Cons.IH Cons.prems(2) have "stream_loop rs p d' = drain_pending (p @ concat (map trace_read_bytes rs)) d'"
      by simp
    with p Trace_bytes show ?thesis
      using drain_append [of "pending @ b" "concat (map trace_read_bytes rs)" d] by simp
  qed (use Cons in \<open>simp_all add: read_failed_def\<close>)
qed (simp add: drain_none)

text \<open>
  C28: the event list does not depend on how the pipe delivers its bytes. However the bytes of a
  sequence of lines are cut into reads, with idle reads in between, the streamer ends with the
  unfinished last line pending and with the last 100 of the old events followed by one event per
  line that is not blank, in order; the rest of the display is untouched.
\<close>

theorem event_stream_chunking:
  assumes "length (events d) \<le> max_events" "\<forall>r \<in> set rs. \<not> read_failed r"
    and "concat (map trace_read_bytes rs) = concat (map (\<lambda>l. l @ [newline]) ls) @ rest"
    and "\<forall>l \<in> set ls. newline \<notin> set l" "newline \<notin> set rest"
  shows "stream_loop rs [] d
    = (rest, d\<lparr>events := take_last max_events (events d @ trace_events ls)\<rparr>)"
proof -
  have frame: "fold push_event es d = d\<lparr>events := events (fold push_event es d)\<rparr>" for es d
  proof (induction es arbitrary: d)
    case (Cons e es)
    have "fold push_event es (push_event e d) = (push_event e d)\<lparr>events := events (fold push_event es (push_event e d))\<rparr>"
      by (rule Cons)
    also have "\<dots> = d\<lparr>events := events (fold push_event es (push_event e d))\<rparr>"
      by (simp add: push_event_def Let_def)
    finally show ?case unfolding fold_simps .
  qed simp
  have "stream_loop rs [] d = (rest, fold push_event (trace_events ls) d)"
    using stream_loop_drain [of "[]" rs d] assms(2,3) drain_lines [OF assms(4,5)] by (simp add: stream_lines_push)
  then show ?thesis
    using frame [of "trace_events ls" d] event_log.contents_run [OF assms(1), of "trace_events ls"] by simp
qed

theorem event_stream_chunking_witness:
  "snd (stream_loop [Trace_bytes ''ab'', Trace_idle, Trace_bytes ([newline] @ ''c'')] [] display_initial)
   = display_initial\<lparr>events := take_last max_events (events display_initial @ trace_events [''ab''])\<rparr>"
  using event_stream_chunking [of display_initial
      "[Trace_bytes ''ab'', Trace_idle, Trace_bytes ([newline] @ ''c'')]" "[''ab'']" "''c''"]
  by (simp add: read_failed_def display_initial_def max_events_def)

section \<open>The two threads\<close>

lemma poll_line_events [simp]: "poll_line l (d\<lparr>events := x\<rparr>) = (poll_line l d)\<lparr>events := x\<rparr>"
  by (simp add: poll_line_def poll_assign_def split_beta split: option.splits)

lemma poll_lines_events: "fold poll_line ls (d\<lparr>events := x\<rparr>) = (fold poll_line ls d)\<lparr>events := x\<rparr>"
  by (induction ls arbitrary: d) simp_all

definition with_events :: "event_entry list \<Rightarrow> sync_vars \<Rightarrow> sync_vars" where
  "with_events x v = v\<lparr>sync_display := (sync_display v)\<lparr>events := x\<rparr>\<rparr>"

lemma sync_lines_events: "fold sync_line ls (with_events x v) = with_events x (fold sync_line ls v)"
proof (induction ls arbitrary: v)
  case (Cons l ls)
  have "sync_line l (with_events x v) = with_events x (sync_line l v)"
    by (simp add: sync_line_def sync_assign_def with_events_def split_beta Let_def split: option.splits)
  with Cons show ?case by simp
qed simp

lemma sync_scenario_events:
  "sync_scenario_state os w (d\<lparr>events := x\<rparr>) = (sync_scenario_state os w d)\<lparr>events := x\<rparr>"
proof -
  have v: "\<lparr>sc_id = [], sc_title = [], phase = [], sync_display = d\<lparr>events := x\<rparr>\<rparr>
      = with_events x \<lparr>sc_id = [], sc_title = [], phase = [], sync_display = d\<rparr>" by (simp add: with_events_def)
  have "sync_finish (with_events x v) = (sync_finish v)\<lparr>events := x\<rparr>" for v
    by (simp add: sync_finish_def with_events_def Let_def)
  then show ?thesis
    by (simp add: sync_scenario_state_def v sync_lines_events split: option.splits)
qed

lemma mem_poller_events: "mem_poller_turn os w (d\<lparr>events := x\<rparr>) = (mem_poller_turn os w d)\<lparr>events := x\<rparr>"
proof -
  have "(d\<lparr>events := x\<rparr>)\<lparr>status_str := t\<rparr> = (d\<lparr>status_str := t\<rparr>)\<lparr>events := x\<rparr>" for t by simp
  then show ?thesis
    by (cases "proc_read os ''/proc/safety_mem_status'' w")
      (simp_all only: mem_poller_turn_def poll_lines_events sync_scenario_events expected.case)
qed

lemma poller_events: "events (mem_poller_turn os w d) = events d"
  using mem_poller_events [of os w "events d" d]
  by (metis display_state.select_convs(17) display_state.surjective display_state.update_convs(17))

text \<open>
  The poller and the streamer do not disturb each other. A turn of the poller leaves the event
  list alone, and pushing any events before or after it gives the same display.
\<close>

theorem poller_streamer_commute:
  "events (mem_poller_turn os w d) = events d
   \<and> mem_poller_turn os w (fold push_event es d) = fold push_event es (mem_poller_turn os w d)"
proof -
  have push: "push_event a d = d\<lparr>events := events (push_event a d)\<rparr>"
    "events d = events d' \<Longrightarrow> events (push_event a d) = events (push_event a d')" for a d d'
    by (simp_all add: push_event_def Let_def)
  have "mem_poller_turn os w (push_event a d) = push_event a (mem_poller_turn os w d)" for a d
  proof -
    have "mem_poller_turn os w (push_event a d) = (mem_poller_turn os w d)\<lparr>events := events (push_event a d)\<rparr>"
      by (subst push(1)) (rule mem_poller_events)
    also have "events (push_event a d) = events (push_event a (mem_poller_turn os w d))"
      by (rule push(2)) (simp add: poller_events)
    also have "(mem_poller_turn os w d)\<lparr>events := events (push_event a (mem_poller_turn os w d))\<rparr>
        = push_event a (mem_poller_turn os w d)" by (rule push(1) [symmetric])
    finally show ?thesis .
  qed
  then have "mem_poller_turn os w (fold push_event es d) = fold push_event es (mem_poller_turn os w d)"
    by (induction es arbitrary: d) simp_all
  then show ?thesis by (simp add: poller_events)
qed

end
