(* ===== verification/Renderer.thy ===== *)
theory Renderer
  imports Event_Stream
begin

text \<open>
  The dashboard of \<open>src/userspace/monitor/renderer.cpp\<close>: UTF-8 column counting, padding and
  truncation of a line, the panel geometry, and the whole frame \<open>render_normal\<close> writes. The frame
  is shown to have as many lines as the terminal has rows and lines as wide as its columns.
\<close>

section \<open>UTF-8 columns\<close>

definition kUtf8TwoByteMask :: u8 where "kUtf8TwoByteMask = 0xE0"
definition kUtf8TwoByteLead :: u8 where "kUtf8TwoByteLead = 0xC0"
definition kUtf8ThreeByteMask :: u8 where "kUtf8ThreeByteMask = 0xF0"
definition kUtf8ThreeByteLead :: u8 where "kUtf8ThreeByteLead = 0xE0"
definition kUtf8FourByteMask :: u8 where "kUtf8FourByteMask = 0xF8"
definition kUtf8FourByteLead :: u8 where "kUtf8FourByteLead = 0xF0"

definition kUtf8TwoByteLength :: nat where "kUtf8TwoByteLength = 2"
definition kUtf8ThreeByteLength :: nat where "kUtf8ThreeByteLength = 3"
definition kUtf8FourByteLength :: nat where "kUtf8FourByteLength = 4"

lemmas utf8_defs = kUtf8TwoByteMask_def kUtf8TwoByteLead_def kUtf8ThreeByteMask_def kUtf8ThreeByteLead_def
  kUtf8FourByteMask_def kUtf8FourByteLead_def kUtf8TwoByteLength_def kUtf8ThreeByteLength_def kUtf8FourByteLength_def

text \<open>How far the lead byte of a character makes the scan advance.\<close>

definition utf8_step :: "char \<Rightarrow> nat" where
  "utf8_step ch =
     (let c = of_char ch :: u8 in
      if c AND kUtf8TwoByteMask = kUtf8TwoByteLead then kUtf8TwoByteLength
      else if c AND kUtf8ThreeByteMask = kUtf8ThreeByteLead then kUtf8ThreeByteLength
      else if c AND kUtf8FourByteMask = kUtf8FourByteLead then kUtf8FourByteLength
      else 1)"

lemma utf8_step_pos [simp]: "0 < utf8_step ch" "utf8_step ch \<noteq> 0"
  by (simp_all add: utf8_step_def utf8_defs Let_def)

text \<open>The loop of \<open>visual_len\<close>, on the text from the current index on.\<close>

function visual_len :: "string \<Rightarrow> nat" where
  "visual_len [] = 0"
| "visual_len (c # s) = 1 + visual_len (drop (utf8_step c) (c # s))"
  by pat_completeness auto

termination
  by (relation "measure length") auto

text \<open>The byte index at which \<open>pad_line\<close> cuts: at most \<open>w\<close> characters, perhaps past the end.\<close>

fun cut_index :: "string \<Rightarrow> nat \<Rightarrow> nat" where
  "cut_index s 0 = 0"
| "cut_index s (Suc w) =
     (case s of [] \<Rightarrow> 0 | c # _ \<Rightarrow> utf8_step c + cut_index (drop (utf8_step c) s) w)"

definition pad_line :: "string \<Rightarrow> nat \<Rightarrow> string" where
  "pad_line s w =
     (let vlen = visual_len s in
      if vlen \<ge> w then substr s 0 (cut_index s w)
      else s @ replicate (w - vlen) CHR '' '')"

definition make_hline :: "string \<Rightarrow> nat \<Rightarrow> string" where
  "make_hline fill n = concat (replicate n fill)"

section \<open>The frame\<close>

definition kDefaultTerminalCols :: u16 where "kDefaultTerminalCols = 80"
definition kDefaultTerminalRows :: u16 where "kDefaultTerminalRows = 24"
definition kMinCols :: u16 where "kMinCols = 40"
definition kMinRows :: u16 where "kMinRows = 12"
definition kMinSideW :: nat where "kMinSideW = 18"
definition kLeftPanelRatioNumerator :: nat where "kLeftPanelRatioNumerator = 2"
definition kPanelRatioDenominator :: nat where "kPanelRatioDenominator = 5"
definition kPanelBordersWidth :: nat where "kPanelBordersWidth = 3"
definition kDashboardFrameRows :: nat where "kDashboardFrameRows = 4"

record terminal_size =
  cols :: u16
  rows :: u16

text \<open>\<open>ioctl(TIOCGWINSZ)\<close> gives its result and the window's columns and rows.\<close>

definition get_size :: "int \<Rightarrow> u16 \<Rightarrow> u16 \<Rightarrow> terminal_size" where
  "get_size ret ws_col ws_row =
     (if ret = 0 \<and> ws_col > 0 \<and> ws_row > 0 then \<lparr>cols = ws_col, rows = ws_row\<rparr>
      else \<lparr>cols = kDefaultTerminalCols, rows = kDefaultTerminalRows\<rparr>)"

text \<open>The box-drawing characters and the dash of the source, as the bytes the compiler stores.\<close>

definition box :: "char \<Rightarrow> string" where "box b = [CHR 0xE2, CHR 0x94, b]"
definition box_h :: string where "box_h = box CHR 0x80"
definition box_v :: string where "box_v = box CHR 0x82"
definition box_down_right :: string where "box_down_right = box CHR 0x8C"
definition box_down_left :: string where "box_down_left = box CHR 0x90"
definition box_up_right :: string where "box_up_right = box CHR 0x94"
definition box_up_left :: string where "box_up_left = box CHR 0x98"
definition box_v_right :: string where "box_v_right = box CHR 0x9C"
definition box_v_left :: string where "box_v_left = box CHR 0xA4"
definition box_h_down :: string where "box_h_down = box CHR 0xAC"
definition box_h_up :: string where "box_h_up = box CHR 0xB4"
definition long_dash :: string where "long_dash = [CHR 0xE2, CHR 0x80, CHR 0x94]"

lemmas box_defs = box_h_def box_v_def box_down_right_def box_down_left_def box_up_right_def box_up_left_def
  box_v_right_def box_v_left_def box_h_down_def box_h_up_def

definition clamped :: "nat \<Rightarrow> nat \<Rightarrow> nat \<Rightarrow> nat" where
  "clamped v lo hi = (if v < lo then lo else if hi < v then hi else v)"

text \<open>The columns and rows drawn, the panel widths and the height of the main part.\<close>

record geometry =
  g_cols :: nat
  g_rows :: nat
  left_w :: nat
  right_w :: nat
  main_h :: nat

definition frame_geometry :: "terminal_size \<Rightarrow> geometry" where
  "frame_geometry sz =
     (let c = unat (if cols sz < kMinCols then kMinCols else cols sz);
          r = unat (if rows sz < kMinRows then kMinRows else rows sz);
          panel_width = c - kPanelBordersWidth;
          desired_left_w = panel_width * kLeftPanelRatioNumerator div kPanelRatioDenominator;
          lw = clamped desired_left_w kMinSideW (panel_width - kMinSideW)
      in \<lparr>g_cols = c, g_rows = r, left_w = lw, right_w = panel_width - lw, main_h = r - kDashboardFrameRows\<rparr>)"

definition left_title :: string where "left_title = '' SAFETY MEMORY STATE ''"
definition right_title :: string where "right_title = '' KERNEL EVENT STREAM ''"

definition title_fill :: "string \<Rightarrow> nat \<Rightarrow> nat" where
  "title_fill t w = (if w > visual_len t then w - visual_len t else 0)"

definition title_part :: "string \<Rightarrow> nat \<Rightarrow> string" where
  "title_part t w = (let f = title_fill t w in make_hline box_h (f div 2) @ t @ make_hline box_h (f - f div 2))"

definition top_header :: "geometry \<Rightarrow> string" where
  "top_header g = box_down_right @ title_part left_title (left_w g) @ box_h_down
     @ title_part right_title (right_w g) @ box_down_left"

text \<open>The text of the left panel, row by row, from the snapshots before and after the action.\<close>

definition on_off :: "bool \<Rightarrow> string" where "on_off b = (if b then ''ON'' else ''OFF'')"

definition values_text :: "comparison_snapshot \<Rightarrow> string" where
  "values_text v = '' val: VM '' @ fmt_0x08X (snap_val_vmalloc v) @ '' / PHYS '' @ fmt_0x08X (snap_val_phys v)"

definition page_table_text :: "comparison_snapshot \<Rightarrow> string" where
  "page_table_text v = '' attack PT: '' @ snap_mapping_level v @ '' ''
     @ (if snap_mapping_writable v then ''RW'' else ''RO'') @ '' 0x'' @ pad0 16 (hex_upper (unat (snap_mapping_entry v)))"

definition protection_text :: "comparison_snapshot \<Rightarrow> string" where
  "protection_text v = '' CTX: '' @ on_off (snap_ctx_protected v) @ ''  SMMU: '' @ on_off (snap_smmu_active v)
     @ ''  '' @ snap_status v"

text \<open>\<open>SnapshotRow\<close>: a row number cast to the enumeration; beyond it the switch takes its default.\<close>

datatype snapshot_row = BeforeHeading | BeforeValues | BeforePageTable | BeforeProtection
  | AfterHeading | AfterValues | AfterPageTable | AfterProtection

definition snapshot_rows :: "snapshot_row list" where
  "snapshot_rows = [BeforeHeading, BeforeValues, BeforePageTable, BeforeProtection,
     AfterHeading, AfterValues, AfterPageTable, AfterProtection]"

primrec snapshot_text :: "display_state \<Rightarrow> snapshot_row \<Rightarrow> string" where
  "snapshot_text d BeforeHeading = '' BEFORE ACTION''"
| "snapshot_text d BeforeValues = values_text (before d)"
| "snapshot_text d BeforePageTable = page_table_text (before d)"
| "snapshot_text d BeforeProtection = protection_text (before d)"
| "snapshot_text d AfterHeading = '' AFTER ACTION''"
| "snapshot_text d AfterValues = values_text (after d)"
| "snapshot_text d AfterPageTable = page_table_text (after d)"
| "snapshot_text d AfterProtection = protection_text (after d)"

definition left_text :: "display_state \<Rightarrow> nat \<Rightarrow> string" where
  "left_text d row = (if row < length snapshot_rows then snapshot_text d (snapshot_rows ! row) else [])"

definition right_text :: "display_state \<Rightarrow> nat \<Rightarrow> string" where
  "right_text d row =
     (if row < length (events d)
      then let ev = events d ! (length (events d) - 1 - row)
           in '' ['' @ timestamp ev @ ''] '' @ source ev @ '': '' @ message ev
      else [])"

definition main_row :: "geometry \<Rightarrow> display_state \<Rightarrow> nat \<Rightarrow> string" where
  "main_row g d row = box_v @ pad_line (left_text d row) (left_w g) @ box_v
     @ pad_line (right_text d row) (right_w g) @ box_v"

definition divider :: "geometry \<Rightarrow> string" where
  "divider g = box_v_right @ make_hline box_h (left_w g) @ box_h_up @ make_hline box_h (right_w g) @ box_v_left"

definition scenario_bar :: "display_state \<Rightarrow> string" where
  "scenario_bar d = '' Active: '' @ info_id (scenario_info d) @ '' '' @ long_dash @ '' '' @ info_title (scenario_info d)"

text \<open>The lines of the frame in the order they are appended, without their newlines.\<close>

definition frame_lines :: "display_state \<Rightarrow> terminal_size \<Rightarrow> string list" where
  "frame_lines d sz =
     (let g = frame_geometry sz; total_inner_w = left_w g + right_w g + 1
      in [top_header g] @ map (main_row g d) [0..<main_h g] @ [divider g,
          box_v @ pad_line (scenario_bar d) total_inner_w @ box_v,
          box_up_right @ make_hline box_h total_inner_w @ box_up_left])"

definition render_normal :: "display_state \<Rightarrow> terminal_size \<Rightarrow> string" where
  "render_normal d sz = concat (map (\<lambda>l. l @ [newline]) (frame_lines d sz))"

text \<open>\<open>None\<close> for a renderer that is not bound to a display state.\<close>

definition render :: "display_state option \<Rightarrow> terminal_size \<Rightarrow> string" where
  "render st sz =
     [CHR 0x1B, CHR ''['', CHR ''H''] @ (case st of None \<Rightarrow> [] | Some d \<Rightarrow> render_normal d sz)"

section \<open>Widths\<close>

text \<open>Text whose last character is complete.\<close>

function utf8_complete :: "string \<Rightarrow> bool" where
  "utf8_complete [] = True"
| "utf8_complete (c # s) =
     (utf8_step c \<le> length (c # s) \<and> utf8_complete (drop (utf8_step c) (c # s)))"
  by pat_completeness auto

termination
  by (relation "measure length") auto

lemma step_append:
  "utf8_step c \<le> length (c # s) \<Longrightarrow> drop (utf8_step c) (c # s @ t) = drop (utf8_step c) (c # s) @ t"
  using drop_append [of "utf8_step c" "c # s" t] by simp

lemma visual_len_append: "utf8_complete s \<Longrightarrow> visual_len (s @ t) = visual_len s + visual_len t"
proof (induction s rule: utf8_complete.induct)
  case (2 c s)
  then have "visual_len (drop (utf8_step c) (c # s) @ t) = visual_len (drop (utf8_step c) (c # s)) + visual_len t"
    by simp
  moreover have "drop (utf8_step c) (c # s @ t) = drop (utf8_step c) (c # s) @ t" using 2(2) by (simp add: step_append)
  ultimately show ?case by (simp only: append_Cons visual_len.simps)
qed simp

lemma complete_append: "utf8_complete s \<Longrightarrow> utf8_complete (s @ t) = utf8_complete t"
proof (induction s rule: utf8_complete.induct)
  case (2 c s)
  then have "utf8_complete (drop (utf8_step c) (c # s) @ t) = utf8_complete t" by simp
  moreover have "drop (utf8_step c) (c # s @ t) = drop (utf8_step c) (c # s) @ t" "utf8_step c \<le> length (c # s @ t)"
    using 2(2) by (simp_all add: step_append)
  ultimately show ?case by (simp only: append_Cons utf8_complete.simps) simp
qed simp

text \<open>ASCII: every character is one byte and one column.\<close>

definition ascii :: "string \<Rightarrow> bool" where
  "ascii s \<longleftrightarrow> (\<forall>c \<in> set s. utf8_step c = 1)"

lemma ascii_complete: "ascii s \<Longrightarrow> utf8_complete s \<and> visual_len s = length s"
  by (induction s) (simp_all add: ascii_def)

lemma cut_width:
  "w \<le> visual_len s \<Longrightarrow> visual_len (take (cut_index s w) s) = w"
proof (induction s w rule: cut_index.induct)
  case (2 s w)
  then show ?case
  proof (cases s)
    case (Cons c r)
    let ?k = "utf8_step c"
    have "visual_len (take (cut_index (drop ?k s) w) (drop ?k s)) = w"
      using 2 Cons by (simp split: list.splits)
    moreover obtain m where m: "?k = Suc m" using utf8_step_pos(1) gr0_implies_Suc by blast
    moreover have "take (?k + cut_index (drop ?k s) w) s = c # take (m + cut_index (drop ?k s) w) r"
      using Cons m by simp
    moreover have "drop ?k (c # take (m + cut_index (drop ?k s) w) r) = take (cut_index (drop ?k s) w) (drop ?k s)"
      using Cons m by (simp add: drop_take)
    ultimately show ?thesis using Cons by simp
  qed simp
qed simp

lemma visual_len_spaces [simp]: "visual_len (replicate n CHR '' '') = n"
  using ascii_complete [of "replicate n CHR '' ''"] by (simp add: ascii_def utf8_step_def utf8_defs)

lemma pad_line_visual: "utf8_complete s \<Longrightarrow> visual_len (pad_line s w) = w"
  by (simp add: pad_line_def cut_width substr_def visual_len_append Let_def)

lemma cut_complete: "utf8_complete s \<Longrightarrow> utf8_complete (take (cut_index s w) s)"
proof (induction s w rule: cut_index.induct)
  case (2 s w)
  then show ?case
  proof (cases s)
    case (Cons c r)
    let ?k = "utf8_step c"
    have c: "?k \<le> length s" "utf8_complete (take (cut_index (drop ?k s) w) (drop ?k s))"
      using 2 Cons by (simp_all split: list.splits)
    obtain m where m: "?k = Suc m" using utf8_step_pos(1) gr0_implies_Suc by blast
    have "take (?k + cut_index (drop ?k s) w) s = c # take (m + cut_index (drop ?k s) w) r"
      using Cons m by simp
    moreover have "drop ?k (c # take (m + cut_index (drop ?k s) w) r) = take (cut_index (drop ?k s) w) (drop ?k s)"
      using Cons m by (simp add: drop_take)
    ultimately show ?thesis using Cons c m by simp
  qed simp
qed simp

lemma complete_spaces [simp]: "utf8_complete (replicate n CHR '' '')"
  using ascii_complete [of "replicate n CHR '' ''"] by (simp add: ascii_def utf8_step_def utf8_defs)

text \<open>Text that fills columns predictably: complete, of known width.\<close>

definition spans :: "string \<Rightarrow> nat \<Rightarrow> bool" where
  "spans s n \<longleftrightarrow> utf8_complete s \<and> visual_len s = n"

lemma spans_append: "spans s m \<Longrightarrow> spans t n \<Longrightarrow> spans (s @ t) (m + n)"
  by (simp add: spans_def visual_len_append complete_append)

lemma spans_pad_line: "utf8_complete s \<Longrightarrow> spans (pad_line s w) w"
  by (simp add: spans_def pad_line_visual)
    (simp add: pad_line_def substr_def cut_complete complete_append Let_def)

lemma spans_box: "spans (box b) 1"
  by (simp add: spans_def box_def utf8_step_def utf8_defs)

lemma spans_boxes:
  "spans box_h 1" "spans box_v 1" "spans box_down_right 1" "spans box_down_left 1" "spans box_up_right 1"
  "spans box_up_left 1" "spans box_v_right 1" "spans box_v_left 1" "spans box_h_down 1" "spans box_h_up 1"
  by (simp_all add: box_defs spans_box del: One_nat_def)

lemma spans_hline: "spans (make_hline box_h n) n"
proof (induction n)
  case 0
  then show ?case by (simp add: make_hline_def spans_def)
next
  case (Suc n)
  from spans_append [OF spans_boxes(1) this] show ?case by (simp add: make_hline_def)
qed

lemma spans_titles: "spans left_title 21" "spans right_title 21"
  by (simp_all add: spans_def left_title_def right_title_def utf8_step_def utf8_defs)

lemma spans_title_part:
  assumes "spans t n"
  shows "spans (title_part t w) (max w n)"
proof -
  let ?f = "title_fill t w"
  have "spans (title_part t w) (?f div 2 + (n + (?f - ?f div 2)))"
    unfolding title_part_def Let_def by (intro spans_append spans_hline assms)
  moreover have "?f div 2 + (n + (?f - ?f div 2)) = max w n"
    using assms by (simp add: title_fill_def spans_def)
  ultimately show ?thesis by simp
qed

section \<open>The frame fits\<close>

lemma clamped_bounds: "lo \<le> hi \<Longrightarrow> lo \<le> clamped v lo hi \<and> clamped v lo hi \<le> hi"
  by (simp add: clamped_def)

lemma geometry_columns:
  "left_w (frame_geometry sz) + right_w (frame_geometry sz) + 3 = g_cols (frame_geometry sz)"
  "18 \<le> left_w (frame_geometry sz)" "18 \<le> right_w (frame_geometry sz)"
  "40 \<le> g_cols (frame_geometry sz)" "12 \<le> g_rows (frame_geometry sz)"
  "main_h (frame_geometry sz) + 4 = g_rows (frame_geometry sz)"
proof -
  define c where "c = unat (if cols sz < kMinCols then kMinCols else cols sz)"
  define r where "r = unat (if rows sz < kMinRows then kMinRows else rows sz)"
  define lw where "lw = clamped ((c - kPanelBordersWidth) * kLeftPanelRatioNumerator div kPanelRatioDenominator)
      kMinSideW (c - kPanelBordersWidth - kMinSideW)"
  have cr: "40 \<le> c" "12 \<le> r"
    by (auto simp: c_def r_def kMinCols_def kMinRows_def word_less_nat_alt not_less)
  then have lw: "18 \<le> lw" "lw \<le> c - 3 - 18"
    using clamped_bounds [of 18 "c - 3 - 18"] by (simp_all add: lw_def kMinSideW_def kPanelBordersWidth_def)
  have g: "frame_geometry sz = \<lparr>g_cols = c, g_rows = r, left_w = lw, right_w = c - 3 - lw, main_h = r - 4\<rparr>"
    by (simp add: frame_geometry_def lw_def c_def r_def kPanelBordersWidth_def kDashboardFrameRows_def Let_def)
  show "left_w (frame_geometry sz) + right_w (frame_geometry sz) + 3 = g_cols (frame_geometry sz)"
    "18 \<le> left_w (frame_geometry sz)" "18 \<le> right_w (frame_geometry sz)"
    "40 \<le> g_cols (frame_geometry sz)" "12 \<le> g_rows (frame_geometry sz)"
    "main_h (frame_geometry sz) + 4 = g_rows (frame_geometry sz)"
    using cr lw by (simp_all add: g)
qed

text \<open>A display whose texts end in complete characters.\<close>

definition snapshot_complete :: "comparison_snapshot \<Rightarrow> bool" where
  "snapshot_complete v \<longleftrightarrow> utf8_complete (snap_mapping_level v) \<and> utf8_complete (snap_status v)"

definition event_complete :: "event_entry \<Rightarrow> bool" where
  "event_complete e \<longleftrightarrow> utf8_complete (timestamp e) \<and> utf8_complete (source e) \<and> utf8_complete (message e)"

definition display_complete :: "display_state \<Rightarrow> bool" where
  "display_complete d \<longleftrightarrow> snapshot_complete (before d) \<and> snapshot_complete (after d)
     \<and> list_all event_complete (events d)
     \<and> utf8_complete (info_id (scenario_info d)) \<and> utf8_complete (info_title (scenario_info d))"

lemma complete_Cons_ascii: "utf8_step c = 1 \<Longrightarrow> utf8_complete (c # s) = utf8_complete s"
  by simp

lemma digit_ascii:
  assumes "is_digit b c"
  shows "utf8_step c = 1"
proof -
  have "\<not> digit7 c"
    using assms by (cases c) (auto simp: is_digit_def char_digit_def Let_def of_char_def split: if_splits)
  then have nb: "\<not> bit (of_char c :: u8) 7"
    by (cases c) (simp add: of_char_def bit_horner_sum_bit_iff)
  have "(of_char c :: u8) AND m \<noteq> l" if "bit l 7" for m l :: u8
    using that nb by (auto simp: bit_and_iff)
  then show ?thesis by (simp add: utf8_step_def utf8_defs Let_def)
qed

lemma complete_num_str [simp]: "good_digits dg b \<Longrightarrow> utf8_complete (pad0 w (num_str dg b n))"
  using ascii_complete pad0_digits [OF _ num_str_digits, of b dg] digit_ascii
  by (metis ascii_def good_digits_def)

lemma complete_fmt [simp]: "utf8_complete (fmt_0x08X v)"
  by (simp add: fmt_0x08X_def hex_upper_def utf8_step_def utf8_defs)

lemmas ascii_eval = complete_append utf8_step_def utf8_defs

lemma left_text_complete:
  assumes "display_complete d"
  shows "utf8_complete (left_text d row)"
proof -
  have "utf8_complete (values_text v)" for v
    by (simp add: values_text_def ascii_eval)
  moreover have "snapshot_complete v \<Longrightarrow> utf8_complete (page_table_text v)" for v
    by (simp add: page_table_text_def snapshot_complete_def hex_upper_def ascii_eval)
  moreover have "snapshot_complete v \<Longrightarrow> utf8_complete (protection_text v)" for v
    by (simp add: protection_text_def snapshot_complete_def on_off_def ascii_eval)
  moreover have "utf8_complete '' BEFORE ACTION''" "utf8_complete '' AFTER ACTION''"
    by (simp_all add: ascii_eval)
  ultimately have "utf8_complete (snapshot_text d r)" for r
    using assms by (cases r) (simp_all add: display_complete_def)
  then show ?thesis by (simp add: left_text_def)
qed

lemma right_text_complete:
  assumes "display_complete d"
  shows "utf8_complete (right_text d row)"
proof -
  have "event_complete e \<Longrightarrow> utf8_complete ('' ['' @ timestamp e @ ''] '' @ source e @ '': '' @ message e)" for e
    by (simp add: event_complete_def ascii_eval)
  then show ?thesis
    using assms by (simp add: right_text_def display_complete_def list_all_length Let_def)
qed

lemma scenario_bar_complete: "display_complete d \<Longrightarrow> utf8_complete (scenario_bar d)"
  by (simp add: scenario_bar_def display_complete_def long_dash_def ascii_eval)

lemma main_row_spans:
  assumes "display_complete d" "left_w g + right_w g + 3 = g_cols g"
  shows "spans (main_row g d row) (g_cols g)"
proof -
  have "spans (main_row g d row) (1 + (left_w g + (1 + (right_w g + 1))))"
    unfolding main_row_def
    by (intro spans_append spans_boxes spans_pad_line left_text_complete right_text_complete assms(1))
  then show ?thesis using assms(2) by (simp add: add.assoc) (metis add.commute add_Suc_right numeral_3_eq_3 add_0_right)
qed

lemma bottom_spans:
  assumes "display_complete d" "left_w g + right_w g + 3 = g_cols g"
  shows "spans (divider g) (g_cols g)"
    "spans (box_v @ pad_line (scenario_bar d) (left_w g + right_w g + 1) @ box_v) (g_cols g)"
    "spans (box_up_right @ make_hline box_h (left_w g + right_w g + 1) @ box_up_left) (g_cols g)"
proof -
  have n: "1 + (left_w g + (1 + (right_w g + 1))) = g_cols g" "1 + ((left_w g + right_w g + 1) + 1) = g_cols g"
    using assms(2) by simp_all
  show "spans (divider g) (g_cols g)"
    unfolding divider_def n(1) [symmetric] by (intro spans_append spans_boxes spans_hline)
  show "spans (box_v @ pad_line (scenario_bar d) (left_w g + right_w g + 1) @ box_v) (g_cols g)"
    "spans (box_up_right @ make_hline box_h (left_w g + right_w g + 1) @ box_up_left) (g_cols g)"
    unfolding n(2) [symmetric]
    by (intro spans_append spans_boxes spans_hline spans_pad_line scenario_bar_complete assms(1))+
qed

text \<open>
  C29: the dashboard fits the terminal. For every terminal size and every display whose texts end in
  complete characters, the frame has as many lines as the terminal has rows (at least 12), the two
  panels are at least 18 columns wide and fill the width with their borders, and every line below
  the header is exactly as wide as the terminal (at least 40 columns). The header is that wide when
  both panels hold their 21-column titles, and wider than the terminal otherwise.
\<close>

theorem frame_fits_terminal:
  assumes "display_complete d"
  shows "let g = frame_geometry sz; ls = frame_lines d sz in
    length ls = max 12 (unat (rows sz)) \<and> g_cols g = max 40 (unat (cols sz))
    \<and> left_w g + right_w g + 3 = g_cols g \<and> 18 \<le> left_w g \<and> 18 \<le> right_w g
    \<and> (\<forall>l \<in> set (tl ls). visual_len l = g_cols g)
    \<and> visual_len (hd ls) = 3 + max (left_w g) 21 + max (right_w g) 21"
proof -
  let ?g = "frame_geometry sz"
  note geo = geometry_columns [of sz]
  have mx: "g_cols ?g = max 40 (unat (cols sz))" "g_rows ?g = max 12 (unat (rows sz))"
    by (auto simp: frame_geometry_def kMinCols_def kMinRows_def word_less_nat_alt Let_def)
  have len: "length (frame_lines d sz) = g_rows ?g"
    using geo(6) by (simp add: frame_lines_def Let_def)
  have "\<forall>l \<in> set (tl (frame_lines d sz)). spans l (g_cols ?g)"
    using main_row_spans [OF assms geo(1)] bottom_spans [OF assms geo(1)] by (auto simp: frame_lines_def Let_def)
  then have body: "\<forall>l \<in> set (tl (frame_lines d sz)). visual_len l = g_cols ?g" by (simp add: spans_def)
  have "spans (top_header ?g) (1 + (max (left_w ?g) 21 + (1 + (max (right_w ?g) 21 + 1))))"
    unfolding top_header_def by (intro spans_append spans_boxes spans_title_part spans_titles)
  then have "visual_len (hd (frame_lines d sz)) = 3 + max (left_w ?g) 21 + max (right_w ?g) 21"
    by (simp add: spans_def frame_lines_def Let_def)
  then show ?thesis using geo mx len body by (simp add: Let_def)
qed

theorem frame_fits_terminal_witness:
  "length (frame_lines display_initial \<lparr>cols = 80, rows = 24\<rparr>) = 24"
proof -
  have "display_complete display_initial"
    by (simp add: display_complete_def display_initial_def snapshot_complete_def empty_snapshot_def ascii_eval)
  from frame_fits_terminal [OF this, of "\<lparr>cols = 80, rows = 24\<rparr>"] show ?thesis
    unfolding Let_def by simp
qed

end
