(* ===== verification/Monitor_Main.thy ===== *)
theory Monitor_Main
  imports Renderer Transition
begin

text \<open>
  The whole monitor, \<open>main\<close> of \<open>src/userspace/monitor/main.cpp\<close>: the poller thread, the streamer
  thread and the rendering loop over the shared display, and signals at any time, as a step
  relation whose steps are the threads' turns. Shown: what holds of the display and the terminal
  however the threads interleave, and that a termination signal ends the program.
\<close>

section \<open>State and steps\<close>

definition terminal_enter :: string where
  "terminal_enter = [CHR 0x1B] @ ''[?1049h'' @ [CHR 0x1B] @ ''[?25l''"

definition terminal_leave :: string where
  "terminal_leave = [CHR 0x1B] @ ''[?25h'' @ [CHR 0x1B] @ ''[?1049l''"

datatype poller_status = Poller_running | Poller_ended
datatype streamer_status = Streamer_opening | Streamer_reading | Streamer_ended

text \<open>\<open>main\<close> renders, then (its threads being destroyed first) waits for them, then has returned.\<close>

datatype main_status = Main_rendering | Main_joining | Main_returned

record monitor_run =
  run_flags :: monitor_flags
  shown :: display_state
  pending_bytes :: string
  poller :: poller_status
  streamer :: streamer_status
  main_at :: main_status
  terminal_output :: string

definition monitor_start :: monitor_run where
  "monitor_start = \<lparr>run_flags = \<lparr>g_sigwinch_received = False, g_running = True\<rparr>, shown = display_initial,
     pending_bytes = [], poller = Poller_running, streamer = Streamer_opening, main_at = Main_rendering,
     terminal_output = terminal_enter\<rparr>"

text \<open>
  The loop condition of the two threads: a stop is requested when \<open>main\<close> destroys them, which it
  does after its own loop.
\<close>

definition keep_going :: "monitor_run \<Rightarrow> bool" where
  "keep_going s \<longleftrightarrow> main_at s = Main_rendering \<and> g_running (run_flags s)"

text \<open>
  A turn of one of the threads. The files may change between turns (\<open>w\<close> is any world), the pipe
  delivers any bytes, the terminal has any size.
\<close>

inductive work_step :: "'w user_os \<Rightarrow> (string \<Rightarrow> int) \<Rightarrow> string \<Rightarrow> monitor_run \<Rightarrow> monitor_run \<Rightarrow> bool"
  for os open_fd open_error where
  poll: "poller s = Poller_running \<Longrightarrow> keep_going s \<Longrightarrow>
    work_step os open_fd open_error s (s\<lparr>shown := mem_poller_turn os w (shown s)\<rparr>)"
| poll_end: "poller s = Poller_running \<Longrightarrow> \<not> keep_going s \<Longrightarrow>
    work_step os open_fd open_error s (s\<lparr>poller := Poller_ended\<rparr>)"
| stream_no_pipe: "streamer s = Streamer_opening \<Longrightarrow> open_trace_pipe open_fd = None \<Longrightarrow>
    work_step os open_fd open_error s (s\<lparr>streamer := Streamer_ended,
      shown := append_event ''monitor'' (''trace_pipe unavailable: '' @ open_error) True False (shown s)\<rparr>)"
| stream_open: "streamer s = Streamer_opening \<Longrightarrow> open_trace_pipe open_fd = Some (path, fd) \<Longrightarrow>
    work_step os open_fd open_error s (s\<lparr>streamer := Streamer_reading,
      shown := append_event ''monitor'' (''connected to '' @ path) False False (shown s)\<rparr>)"
| stream_bytes: "streamer s = Streamer_reading \<Longrightarrow> keep_going s \<Longrightarrow>
    drain_pending (pending_bytes s @ b) (shown s) = (p, d) \<Longrightarrow>
    work_step os open_fd open_error s (s\<lparr>pending_bytes := p, shown := d\<rparr>)"
| stream_error: "streamer s = Streamer_reading \<Longrightarrow> keep_going s \<Longrightarrow>
    work_step os open_fd open_error s (s\<lparr>streamer := Streamer_ended,
      shown := append_event ''monitor'' (''trace_pipe read failed: '' @ e) True False (shown s)\<rparr>)"
| stream_end: "streamer s = Streamer_reading \<Longrightarrow> \<not> keep_going s \<Longrightarrow>
    work_step os open_fd open_error s (s\<lparr>streamer := Streamer_ended\<rparr>)"
| draw: "keep_going s \<Longrightarrow>
    work_step os open_fd open_error s (s\<lparr>run_flags := (run_flags s)\<lparr>g_sigwinch_received := False\<rparr>,
      terminal_output := terminal_output s @ render (Some (shown s)) sz\<rparr>)"
| main_leave: "main_at s = Main_rendering \<Longrightarrow> \<not> g_running (run_flags s) \<Longrightarrow>
    work_step os open_fd open_error s (s\<lparr>main_at := Main_joining\<rparr>)"
| main_return: "main_at s = Main_joining \<Longrightarrow> poller s = Poller_ended \<Longrightarrow> streamer s = Streamer_ended \<Longrightarrow>
    work_step os open_fd open_error s
      (s\<lparr>main_at := Main_returned, terminal_output := terminal_output s @ terminal_leave\<rparr>)"

text \<open>A signal can arrive at any time.\<close>

inductive monitor_step :: "'w user_os \<Rightarrow> (string \<Rightarrow> int) \<Rightarrow> string \<Rightarrow> monitor_run \<Rightarrow> monitor_run \<Rightarrow> bool"
  for os open_fd open_error where
  work: "work_step os open_fd open_error s s' \<Longrightarrow> monitor_step os open_fd open_error s s'"
| signal: "monitor_step os open_fd open_error s (s\<lparr>run_flags := monitor_signal_handler sig (run_flags s)\<rparr>)"

section \<open>What holds in every state\<close>

definition monitor_inv :: "monitor_run \<Rightarrow> bool" where
  "monitor_inv s \<longleftrightarrow> length (events (shown s)) \<le> max_events \<and> newline \<notin> set (pending_bytes s)
     \<and> (main_at s = Main_returned \<longrightarrow> poller s = Poller_ended \<and> streamer s = Streamer_ended)
     \<and> (main_at s \<noteq> Main_rendering \<longrightarrow> \<not> g_running (run_flags s))
     \<and> (\<exists>frames. terminal_output s
          = terminal_enter @ frames @ (if main_at s = Main_returned then terminal_leave else []))"

lemma append_event_bound: "length (events d) \<le> max_events \<Longrightarrow> length (events (append_event src msg w e d)) \<le> max_events"
  unfolding append_event_def by (rule event_log.invar_push)

lemma drain_bound:
  assumes "length (events d) \<le> max_events" "drain_pending a d = (p, d')"
  shows "length (events d') \<le> max_events"
  using assms
proof (induction a d rule: drain_pending.induct)
  case (1 a d)
  have line: "length (events (stream_line l d)) \<le> max_events" for l
    unfolding stream_line_push using 1(2) by (rule event_log.invar_run)
  from 1(1) [OF _ line] 1(2,3) show ?case
    by (cases "str_find a [newline]") (simp_all add: drain_pending.simps [of a])
qed

lemma signal_stops: "\<not> g_running f \<Longrightarrow> \<not> g_running (monitor_signal_handler sig f)"
  by (simp add: monitor_signal_handler_def)

lemma work_step_inv: "work_step os open_fd open_error s s' \<Longrightarrow> monitor_inv s \<Longrightarrow> monitor_inv s'"
proof (induction rule: work_step.induct)
  case (stream_bytes s b p d)
  have "newline \<notin> set p" using drain_rest [of "pending_bytes s @ b" "shown s"] stream_bytes(3) by simp
  moreover have "length (events d) \<le> max_events"
    using drain_bound [OF _ stream_bytes(3)] stream_bytes(4) by (simp add: monitor_inv_def)
  ultimately show ?case using stream_bytes(4) by (simp add: monitor_inv_def)
next
  case (poll s w)
  have "events (mem_poller_turn os w (shown s)) = events (shown s)" by (rule poller_events)
  with poll show ?case by (auto simp: monitor_inv_def)
qed (auto simp: monitor_inv_def keep_going_def append_event_bound)

interpretation monitor_system: state_machine "monitor_step os open_fd open_error" monitor_inv
  for os open_fd open_error
proof
  fix s s' assume i: "monitor_inv s" and st: "monitor_step os open_fd open_error s s'"
  from st show "monitor_inv s'"
  proof (cases rule: monitor_step.cases)
    case work
    from work_step_inv [OF work i] show ?thesis .
  next
    case (signal sig)
    then show ?thesis using i by (auto simp: monitor_inv_def signal_stops)
  qed
qed

lemma monitor_inv_start: "monitor_inv monitor_start"
  by (simp add: monitor_inv_def monitor_start_def display_initial_def)

text \<open>
  C30: the monitor keeps its bounds and gives the terminal back. However the poller, the streamer, the
  renderer and signals interleave, the event list never holds more than 100 entries, no complete line
  is left waiting, the output starts by entering the alternate screen, and once \<open>main\<close> has returned
  both threads have ended and the last thing written leaves that screen.
\<close>

theorem monitor_always:
  assumes "(monitor_step os open_fd open_error)\<^sup>*\<^sup>* monitor_start s"
  shows "length (events (shown s)) \<le> max_events \<and> newline \<notin> set (pending_bytes s)
    \<and> (\<exists>frames. terminal_output s
         = terminal_enter @ frames @ (if main_at s = Main_returned then terminal_leave else []))
    \<and> (main_at s = Main_returned \<longrightarrow>
         poller s = Poller_ended \<and> streamer s = Streamer_ended \<and> \<not> g_running (run_flags s))"
  using monitor_system.reachable [OF assms monitor_inv_start] by (simp add: monitor_inv_def)

theorem monitor_always_witness:
  "length (events (shown (monitor_start\<lparr>run_flags := monitor_signal_handler 2 (run_flags monitor_start)\<rparr>))) \<le> max_events"
proof -
  have "(monitor_step state_file_os (\<lambda>p. 3) [])\<^sup>*\<^sup>* monitor_start
      (monitor_start\<lparr>run_flags := monitor_signal_handler 2 (run_flags monitor_start)\<rparr>)"
    by (rule r_into_rtranclp) (rule monitor_step.signal)
  from monitor_always [OF this] show ?thesis by blast
qed

section \<open>Shutdown\<close>

text \<open>The turns the threads still have once the running flag is cleared.\<close>

definition work_left :: "monitor_run \<Rightarrow> nat" where
  "work_left s =
     (case poller s of Poller_running \<Rightarrow> 1 | Poller_ended \<Rightarrow> 0)
     + (case streamer s of Streamer_opening \<Rightarrow> 2 | Streamer_reading \<Rightarrow> 1 | Streamer_ended \<Rightarrow> 0)
     + (case main_at s of Main_rendering \<Rightarrow> 2 | Main_joining \<Rightarrow> 1 | Main_returned \<Rightarrow> 0)"

lemma work_left_bound: "work_left s \<le> 5"
  by (auto simp: work_left_def split: poller_status.splits streamer_status.splits main_status.splits)

lemma work_enabled:
  assumes "\<not> g_running (run_flags s)" "main_at s \<noteq> Main_returned"
  shows "\<exists>s'. work_step os open_fd open_error s s'"
proof -
  have stop: "\<not> keep_going s" using assms(1) by (simp add: keep_going_def)
  show ?thesis
  proof (cases "main_at s")
    case Main_rendering
    then show ?thesis using work_step.main_leave assms(1) by blast
  next
    case Main_joining
    show ?thesis
    proof (cases "poller s = Poller_ended \<and> streamer s = Streamer_ended")
      case True
      then show ?thesis using work_step.main_return Main_joining by blast
    next
      case False
      then consider "poller s = Poller_running" | "streamer s = Streamer_reading" | "streamer s = Streamer_opening"
        by (metis poller_status.exhaust streamer_status.exhaust)
      then show ?thesis
      proof cases
        case 3
        show ?thesis
        proof (cases "open_trace_pipe open_fd")
          case None
          from work_step.stream_no_pipe [OF 3 this] show ?thesis by blast
        next
          case (Some x)
          then have "open_trace_pipe open_fd = Some (fst x, snd x)" by simp
          from work_step.stream_open [OF 3 this] show ?thesis by blast
        qed
      qed (use work_step.poll_end [OF _ stop] work_step.stream_end [OF _ stop] in blast)+
    qed
  qed (use assms(2) in blast)
qed

lemma work_shrinks:
  "work_step os open_fd open_error s s' \<Longrightarrow> \<not> g_running (run_flags s) \<Longrightarrow>
   work_left s' < work_left s \<and> \<not> g_running (run_flags s')"
  by (induction rule: work_step.induct) (auto simp: keep_going_def work_left_def)

text \<open>Once the flag is cleared it stays cleared, and the threads' turns run out.\<close>

abbreviation stopping :: "monitor_run \<Rightarrow> bool" where
  "stopping s \<equiv> \<not> g_running (run_flags s)"

interpretation monitor_shutdown: finite_work "work_step os open_fd open_error" stopping work_left
  for os open_fd open_error
  by unfold_locales (use work_shrinks in blast)+

interpretation monitor_stopping: state_machine "monitor_step os open_fd open_error" stopping
  for os open_fd open_error
  by unfold_locales (auto elim!: monitor_step.cases simp: signal_stops monitor_shutdown.kept)

text \<open>
  C31: a termination signal ends the monitor. After SIGINT or SIGTERM, in whatever state it arrives
  and whatever further signals follow, the running flag stays cleared, the threads and \<open>main\<close>
  together take at most five more turns, and taking them always leads to \<open>main\<close> returning: no
  interleaving gets stuck before that.
\<close>

theorem monitor_shuts_down:
  assumes "sig = 2 \<or> sig = 15" "s = s0\<lparr>run_flags := monitor_signal_handler sig (run_flags s0)\<rparr>"
    and "(monitor_step os open_fd open_error)\<^sup>*\<^sup>* s t"
  shows "\<not> g_running (run_flags t)
    \<and> (\<forall>n t'. (work_step os open_fd open_error ^^ n) t t' \<longrightarrow> n \<le> 5)
    \<and> (\<forall>t'. (work_step os open_fd open_error)\<^sup>*\<^sup>* t t' \<longrightarrow>
         (\<exists>u. (work_step os open_fd open_error)\<^sup>*\<^sup>* t' u \<and> main_at u = Main_returned))"
proof -
  have s: "stopping s" using assms(1,2) by (auto simp: monitor_signal_handler_def)
  then have t: "stopping t" by (rule monitor_stopping.reachable [OF assms(3)])
  have "n \<le> 5" if "(work_step os open_fd open_error ^^ n) t t'" for n t'
    using monitor_shutdown.run_bounded [OF that t] work_left_bound [of t] by linarith
  moreover have "\<exists>u. (work_step os open_fd open_error)\<^sup>*\<^sup>* t' u \<and> main_at u = Main_returned"
    if "(work_step os open_fd open_error)\<^sup>*\<^sup>* t t'" for t'
    using monitor_shutdown.runs_to_end [OF monitor_shutdown.reachable [OF that t]] work_enabled by blast
  ultimately show ?thesis using t by blast
qed

theorem monitor_shuts_down_witness:
  "\<exists>u. (work_step state_file_os (\<lambda>p. 3) [])\<^sup>*\<^sup>*
      (monitor_start\<lparr>run_flags := monitor_signal_handler 2 (run_flags monitor_start)\<rparr>) u
    \<and> main_at u = Main_returned"
  using monitor_shuts_down [of 2, OF _ refl rtranclp.rtrancl_refl, of monitor_start state_file_os "\<lambda>p. 3" "[]"]
  by blast

end
