(* ===== verification/Analysis.thy ===== *)
theory Analysis
  imports Proc_Reader
begin

text \<open>
  The comparison report, \<open>src/userspace/analysis/main.cpp\<close>: it reads the four procfs endpoints,
  wraps them into a fixed markdown text and writes it to the path given on the command line. Shown:
  the file holds the current text of every endpoint, or says why it could not be read.
\<close>

section \<open>Telemetry\<close>

record telemetry_data =
  safety_mem_status :: string
  bad_driver_ts :: string
  ctx_monitor_log :: string
  smmu_guard_log :: string

definition endpoint_text :: "'w user_os \<Rightarrow> string \<Rightarrow> 'w \<Rightarrow> string" where
  "endpoint_text os path w =
     (case proc_read os path w of
        Expected s \<Rightarrow> s
      | Unexpected e \<Rightarrow> ''[PROC UNLOADED / UNREADABLE: '' @ e @ '']'')"

definition collect_telemetry :: "'w user_os \<Rightarrow> 'w \<Rightarrow> telemetry_data" where
  "collect_telemetry os w =
     \<lparr>safety_mem_status = endpoint_text os ''/proc/safety_mem_status'' w,
      bad_driver_ts = endpoint_text os ''/proc/bad_driver_ts'' w,
      ctx_monitor_log = endpoint_text os ''/proc/ctx_monitor_log'' w,
      smmu_guard_log = endpoint_text os ''/proc/smmu_guard_log'' w\<rparr>"

section \<open>The report\<close>

definition report_summary :: string where
  "report_summary = concat [
     ''# Safety Isolation Scenario Comparison & Telemetry Analysis'' @ [newline, newline],
     ''## Executive Summary'' @ [newline, newline],
     ''This document presents the comprehensive tradeoff analysis and live kernel telemetry evaluation'' @ [newline],
     ''for safety-critical kernel memory isolation under Linux 6.6 on ARM64 SMMUv3 hardware.'' @ [newline, newline]]"

definition report_matrix :: string where
  "report_matrix = concat [
     ''## Scenario Tradeoff Matrix & Feature Table'' @ [newline, newline],
     ''| Feature / Attribute | Scenario B (Mutex) | Scenario D (Naive CTX) | Scenario F (Full CTX) | Scenario G (Metadata Attack) |'' @ [newline],
     ''| :--- | :--- | :--- | :--- | :--- |'' @ [newline],
     ''| **CPU MMU Protected?** | '' @ [CHR 0xE2, CHR 0x9D, CHR 0x8C] @ '' No | '' @ [CHR 0xF0, CHR 0x9F, CHR 0x9F, CHR 0xA1] @ '' Vmalloc | '' @ [CHR 0xE2, CHR 0x9C, CHR 0x85] @ '' All PTEs | '' @ [CHR 0xE2, CHR 0x9D, CHR 0x8C] @ '' No |'' @ [newline],
     ''| **Physical Bus (DMA)?** | '' @ [CHR 0xE2, CHR 0x9D, CHR 0x8C] @ '' No | '' @ [CHR 0xE2, CHR 0x9D, CHR 0x8C] @ '' No | '' @ [CHR 0xE2, CHR 0x9C, CHR 0x85] @ '' SMMUv3 | '' @ [CHR 0xE2, CHR 0x9D, CHR 0x8C] @ '' No |'' @ [newline],
     ''| **Rogue Thread Proof?** | '' @ [CHR 0xE2, CHR 0x9D, CHR 0x8C] @ '' No | '' @ [CHR 0xF0, CHR 0x9F, CHR 0x9F, CHR 0xA1] @ '' Partial | '' @ [CHR 0xE2, CHR 0x9C, CHR 0x85] @ '' Yes | '' @ [CHR 0xE2, CHR 0x9D, CHR 0x8C] @ '' No |'' @ [newline],
     ''| **Lock Struct Safe?** | '' @ [CHR 0xE2, CHR 0x9D, CHR 0x8C] @ '' No | '' @ [CHR 0xE2, CHR 0x9D, CHR 0x8C] @ '' No | '' @ [CHR 0xE2, CHR 0x9C, CHR 0x85] @ '' Yes | '' @ [CHR 0xE2, CHR 0x9D, CHR 0x8C] @ '' Corruptible |'' @ [newline],
     ''| **Implementation Complexity** | '' @ [CHR 0xF0, CHR 0x9F, CHR 0x9F, CHR 0xA2] @ '' Very Low | '' @ [CHR 0xF0, CHR 0x9F, CHR 0x9F, CHR 0xA1] @ '' Moderate | '' @ [CHR 0xF0, CHR 0x9F, CHR 0x94, CHR 0xB4] @ '' High | '' @ [CHR 0xF0, CHR 0x9F, CHR 0x9F, CHR 0xA2] @ '' Low |'' @ [newline],
     ''| **Observed Latency / Overhead** | ~4 ns | ~600 ns | ~2.5 '' @ [CHR 0xC2, CHR 0xB5] @ ''s | ~4 ns |'' @ [newline, newline]]"

definition report_mutex :: string where
  "report_mutex = concat [
     ''## Detailed Mechanism Tradeoff Analysis'' @ [newline, newline],
     ''### 1. Software Mutex (Scenario B & G)'' @ [newline],
     ''- **Pros**:'' @ [newline],
     ''  - Extremely fast execution (~4 ns uncontended).'' @ [newline],
     ''  - Zero special hardware or kernel driver support required.'' @ [newline],
     ''  - Simple, standard programming interface across OS environments.'' @ [newline],
     ''- **Cons**:'' @ [newline],
     ''  - Requires 100% voluntary compliance by all executing threads.'' @ [newline],
     ''  - Zero protection against rogue modules, uncooperative drivers, or memory corruption bugs.'' @ [newline],
     ''  - Mutex state structures live in writable RAM and are vulnerable to direct memory overwrites (Scenario G).'' @ [newline, newline]]"

definition report_naive_ctx :: string where
  "report_naive_ctx = concat [
     ''### 2. Naive CTX / Vmalloc PTE Protection (Scenario D)'' @ [newline],
     ''- **Pros**:'' @ [newline],
     ''  - Hardware-enforced read-only protection on the primary virtual address.'' @ [newline],
     ''  - Simple kernel API (`set_memory_ro`).'' @ [newline],
     ''- **Cons**:'' @ [newline],
     ''  - **False Sense of Security**: Leaves the Linux kernel Linear Map (`phys_to_virt`) exposed.'' @ [newline],
     ''  - Any code with physical address knowledge can bypass protection via the linear alias.'' @ [newline],
     ''  - Does not block physical DMA transactions from hardware peripherals.'' @ [newline, newline]]"

definition report_full_ctx :: string where
  "report_full_ctx = concat [
     ''### 3. Full CTX + SMMU Enforcement (Scenario F)'' @ [newline],
     ''- **Pros**:'' @ [newline],
     ''  - **Complete Isolation**: Closes both virtual CPU aliases (vmalloc + linear map) and physical bus DMA paths.'' @ [newline],
     ''  - Enforces true safety boundaries regardless of thread cooperation or driver origin.'' @ [newline],
     ''  - SMMU traps and logs unauthorized bus-master write attempts.'' @ [newline],
     ''- **Cons**:'' @ [newline],
     ''  - Higher implementation complexity (page table walking, PMD splitting, TLB invalidation, SMMU stream mapping).'' @ [newline],
     ''  - Runtime performance cost (~1'' @ [CHR 0xE2, CHR 0x80, CHR 0x93] @ ''2 '' @ [CHR 0xC2, CHR 0xB5] @ ''s per authorized context switch + TLB shootdown overhead).'' @ [newline],
     ''  - Requires specific SoC hardware support (ARM64 MMU + SMMUv3).'' @ [newline, newline]]"

definition fence :: string where "fence = ''```''"

definition report_telemetry :: "telemetry_data \<Rightarrow> string" where
  "report_telemetry t = concat [
     ''## Live Kernel Telemetry & Proc Logs'' @ [newline, newline],
     ''### `/proc/safety_mem_status`'' @ [newline],
     fence @ [newline] @ safety_mem_status t @ [newline] @ fence @ [newline, newline],
     ''### `/proc/bad_driver_ts`'' @ [newline],
     fence @ [newline] @ bad_driver_ts t @ [newline] @ fence @ [newline, newline],
     ''### `/proc/ctx_monitor_log`'' @ [newline],
     fence @ [newline] @ ctx_monitor_log t @ [newline] @ fence @ [newline, newline],
     ''### `/proc/smmu_guard_log`'' @ [newline],
     fence @ [newline] @ smmu_guard_log t @ [newline] @ fence @ [newline]]"

definition generate_markdown_report :: "telemetry_data \<Rightarrow> string" where
  "generate_markdown_report t =
     report_summary @ report_matrix @ report_mutex @ report_naive_ctx @ report_full_ctx @ report_telemetry t"

section \<open>The program\<close>

definition kOutputPrefix :: string where "kOutputPrefix = ''--output=''"

text \<open>The loop over the arguments after the program name: the last output option wins.\<close>

fun output_arg :: "string \<Rightarrow> string list \<Rightarrow> string" where
  "output_arg out [] = out"
| "output_arg out [a] = (if starts_with a kOutputPrefix then drop (length kOutputPrefix) a else out)"
| "output_arg out (a # b # args) =
     (if a = ''--output'' then output_arg b args
      else if starts_with a kOutputPrefix then output_arg (drop (length kOutputPrefix) a) (b # args)
      else output_arg out (b # args))"

text \<open>\<open>parent_path()\<close> of a POSIX path; a path has a parent if it contains a separator.\<close>

definition parent_path :: "string \<Rightarrow> string" where
  "parent_path p =
     (if CHR ''/'' \<in> set p
      then let q = rev (dropWhile (\<lambda>c. c = CHR ''/'') (dropWhile (\<lambda>c. c \<noteq> CHR ''/'') (rev p)))
           in if q = [] then ''/'' else q
      else [])"

text \<open>
  \<open>main\<close>: exit code, what it prints, and the world after it; \<open>create_directories\<close> is the library
  call, its error code ignored as in the source.
\<close>

definition analysis_main ::
  "'w user_os \<Rightarrow> (string \<Rightarrow> 'w \<Rightarrow> 'w) \<Rightarrow> string list \<Rightarrow> 'w \<Rightarrow> int \<times> string list \<times> 'w" where
  "analysis_main os create_directories args w =
     (let path = output_arg ''/results/comparison_table.md'' args;
          markdown = generate_markdown_report (collect_telemetry os w);
          w1 = (if parent_path path \<noteq> [] then create_directories (parent_path path) w else w);
          first = ''Collecting telemetry and generating comparison report...''
      in if \<not> can_write os path w1
         then (1, [first, ''Error: Failed to open output file for writing: '' @ path], w1)
         else (0, [first, ''Report successfully written to '' @ path], write_file os path markdown w1))"

section \<open>What the report holds\<close>

definition kEndpoints :: "string list" where
  "kEndpoints = [''/proc/safety_mem_status'', ''/proc/bad_driver_ts'', ''/proc/ctx_monitor_log'', ''/proc/smmu_guard_log'']"

definition endpoint_section :: "'w user_os \<Rightarrow> 'w \<Rightarrow> string \<Rightarrow> string" where
  "endpoint_section os w p =
     ''### `'' @ p @ ''`'' @ [newline] @ fence @ [newline] @ endpoint_text os p w @ [newline] @ fence @ [newline]"

lemma contains_concat: "x \<in> set xs \<Longrightarrow> str_contains (concat xs) x"
  by (auto dest!: split_list)

lemma contains_trans: "str_contains s t \<Longrightarrow> str_contains t u \<Longrightarrow> str_contains s u"
  by (auto simp: str_contains_iff) (metis append.assoc)

lemma report_holds_endpoint:
  assumes "p \<in> set kEndpoints"
  shows "str_contains (generate_markdown_report (collect_telemetry os w)) (endpoint_section os w p)"
proof -
  let ?s = "endpoint_section os w"
  define prose where "prose = report_summary @ report_matrix @ report_mutex @ report_naive_ctx @ report_full_ctx
    @ ''## Live Kernel Telemetry & Proc Logs'' @ [newline, newline]"
  have "generate_markdown_report (collect_telemetry os w)
      = concat (prose # concat (map (\<lambda>p. [?s p, [newline]]) (butlast kEndpoints)) @ [?s (last kEndpoints)])"
    by (simp add: generate_markdown_report_def report_telemetry_def endpoint_section_def collect_telemetry_def
        prose_def kEndpoints_def)
  moreover have "?s p \<in> set (concat (map (\<lambda>p. [?s p, [newline]]) (butlast kEndpoints)) @ [?s (last kEndpoints)])"
  proof -
    have "kEndpoints \<noteq> []" by (simp add: kEndpoints_def)
    with assms have "p \<in> set (butlast kEndpoints) \<or> p = last kEndpoints"
      by (metis append_butlast_last_id in_set_conv_nth rotate1.simps(2) set_ConsD set_rotate1)
    then show ?thesis by auto
  qed
  ultimately show ?thesis by (simp only: contains_concat list.set_intros(2))
qed

text \<open>
  A report that was written is complete. If the output file can be opened and holds what is
  written to it, then \<open>main\<close> exits with 0 and the file reads back as a text with a section for
  each of the four procfs endpoints that holds its content at the start of the run, or the reader's
  error naming the file; if it cannot be opened, \<open>main\<close> exits with 1 and writes nothing.
\<close>

theorem analysis_report_complete:
  assumes "\<And>p t w. file_exists os p (write_file os p t w) \<and> read_file os p (write_file os p t w) = Read_text t"
    and "analysis_main os mkdirs args w = (code, out, w')"
    and "path = output_arg ''/results/comparison_table.md'' args"
    and "w1 = (if parent_path path \<noteq> [] then mkdirs (parent_path path) w else w)"
  shows "if can_write os path w1
    then code = 0 \<and> (\<exists>report. proc_read os path w' = Expected report
           \<and> (\<forall>p \<in> set kEndpoints. str_contains report (endpoint_section os w p)
                \<and> (\<forall>e. proc_read os p w = Unexpected e \<longrightarrow> str_contains report e \<and> str_contains e p)))
    else code = 1 \<and> w' = w1"
proof -
  let ?report = "generate_markdown_report (collect_telemetry os w)"
  note main = assms(2) [unfolded analysis_main_def Let_def, folded assms(3), folded assms(4)]
  show ?thesis
  proof (cases "can_write os path w1")
    case True
    with main have "code = 0" "w' = write_file os path ?report w1" by simp_all
    moreover have "str_contains ?report e \<and> str_contains e p"
      if p: "p \<in> set kEndpoints" and e: "proc_read os p w = Unexpected e" for p e
    proof
      show "str_contains e p" using e by (rule proc_read_error_names_path)
      have "endpoint_section os w p = (''### `'' @ p @ ''`'' @ [newline] @ fence @ [newline]
          @ ''[PROC UNLOADED / UNREADABLE: '') @ e @ ('']'' @ [newline] @ fence @ [newline])"
        by (simp add: endpoint_section_def endpoint_text_def e)
      then have "str_contains (endpoint_section os w p) e" by (simp only: str_contains_middle)
      with report_holds_endpoint [OF p, of os w] show "str_contains ?report e" by (rule contains_trans)
    qed
    ultimately show ?thesis
      using True assms(1) report_holds_endpoint by (auto intro!: exI [of _ ?report])
  qed (use main in simp)
qed

text \<open>An operating system with one file, which every path names.\<close>

definition one_file_os :: "string user_os" where
  "one_file_os = \<lparr>file_exists = (\<lambda>p w. True), read_file = (\<lambda>p w. Read_text w), can_write = (\<lambda>p w. True),
     write_file = (\<lambda>p t w. t), system_call = (\<lambda>c w. (0, w)), sleep_ms = (\<lambda>n w. w), now_ns = (\<lambda>w. 0),
     command_log = (\<lambda>w. [])\<rparr>"

theorem analysis_report_complete_witness:
  "fst (analysis_main one_file_os (\<lambda>p w. w) [''--output'', ''r.md''] ''x'') = 0"
proof -
  obtain code out w' where m: "analysis_main one_file_os (\<lambda>p w. w) [''--output'', ''r.md''] ''x'' = (code, out, w')"
    by (metis prod_cases3)
  have "code = 0"
    using analysis_report_complete [OF _ m refl refl] by (simp add: one_file_os_def)
  with m show ?thesis by simp
qed

end
