(* ===== verification/Spec2Isabelle.thy ===== *)
theory Spec2Isabelle
  imports Demo_System Fine_System Thread_Stop Harness_Main Devmem Monitor_Main Analysis
begin

text \<open>
  \<^bold>\<open>The program.\<close> A demonstration of memory isolation in the Linux kernel. Kernel modules keep one
  page with a safety word in two virtual aliases (a vmalloc alias and the kernel's linear map),
  switch the page read-only and back, attack it, race for a mutex around it and log faults. User
  space has a harness that loads the modules, runs scenarios B, D, E, F and G and judges them by
  the text of procfs files, a live monitor, a physical-memory tool and a report generator.

  \<^bold>\<open>The theories and what they model.\<close>

  \<^item> \<open>Prelude\<close>, \<open>Cxx_Text\<close>, \<open>Ring_Log\<close>, \<open>Kernel_Calls\<close>, \<open>Transition\<close>: machine integers and errno
    values; number formatting and parsing and string search of C and C++ with print/parse round trips;
    bounded logs and ring buffers as locales; acquisition and release of kernel resources by module
    entry and exit, as the locale \<open>kernel_module\<close>; step relations with an invariant
    (\<open>state_machine\<close>), with a measure (\<open>finite_work\<close>) and with an abstract image (\<open>simulation\<close>).
  \<^item> \<open>Demo_Constants\<close>: \<open>kernel/demo_constants.h\<close> and \<open>userspace/common/demo_constants.hpp\<close>.
    \<open>Expected\<close>: \<open>common/expected.hpp\<close>. \<open>Proc_Reader\<close>: \<open>common/proc_reader.hpp\<close> and the operating
    system that user space sees, as a parameter.
  \<^item> \<open>Page_Walk\<close>, \<open>Safety_Mem\<close>, \<open>Safety_Proc\<close>, \<open>Status_Text\<close>: \<open>kernel/safety_mem/safety_mem.c\<close>. The
    static variables are the record \<open>safety_mem_state\<close>; together with an abstract machine state
    they are a \<open>kstate\<close>. \<open>Page_Walk\<close> is the page-table walker, \<open>Safety_Mem\<close> the toggle, the
    authorized write, the status file and module entry and exit, \<open>Safety_Proc\<close> the command file,
    \<open>Status_Text\<close> what a search in the status text can conclude.
  \<^item> \<open>Ctx_Monitor\<close>, \<open>Smmu_Guard\<close>, \<open>Bad_Driver\<close>: the fault logger, the SMMU guard and the attack
    driver (\<open>kernel/ctx_monitor\<close>, \<open>kernel/smmu_guard\<close>, \<open>kernel/bad_driver\<close>).
  \<^item> \<open>Mutex_Threads\<close>, \<open>Rogue_Thread\<close>: \<open>kernel/mutex_threads/*.c\<close>. A thread is a step function on a
    program counter, one step per access to shared state; \<open>coop_step\<close> and \<open>rogue_step\<close> interleave
    the threads freely.
    \<open>Lock_Discipline\<close> has what all users of the mutex share: the locale \<open>lock_client\<close> and the
    abstract lock \<open>lock_spec_step\<close>. \<open>Locked_Paths\<close> gives the two locked paths of safety_mem again,
    one kernel call per step, and proves them equal to their atomic definitions; \<open>Fine_System\<close>
    interleaves them with the threads, \<open>Write_Window\<close> interleaves the authorized write with the
    attack driver. \<open>Thread_Stop\<close> has the module parameters, the time a thread sleeps, and
    \<open>kthread_stop\<close>.
  \<^item> \<open>Procfs\<close>: open functions, operation tables, names and modes of the five procfs files, the state
    of all modules together (\<open>module_states\<close>) and what can happen to it (\<open>module_step\<close>).
  \<^item> \<open>Memory_Region\<close>, \<open>Devmem\<close>: \<open>common/memory_region.hpp\<close> and \<open>userspace/devmem\<close>.
  \<^item> \<open>Module_Loader\<close>, \<open>Scenario\<close>, \<open>Scenarios\<close>, \<open>Harness_Main\<close>: \<open>userspace/harness\<close> and
    \<open>common/scenario.hpp\<close>. All loaders of the process, its signal flag, its console and the world
    outside are the record \<open>harness\<close>; the C++ concept \<open>Scenario\<close> is the locale \<open>scenario\<close>.
  \<^item> \<open>Monitor\<close>, \<open>Event_Stream\<close>, \<open>Renderer\<close>, \<open>Monitor_Main\<close>: \<open>userspace/monitor\<close>. The shared display is
    the record \<open>display_state\<close>; a turn of the poller, a read of the streamer, a frame of the renderer
    are functions on it, and \<open>monitor_step\<close> interleaves them with signals.
  \<^item> \<open>Analysis\<close>: \<open>userspace/analysis\<close>.
  \<^item> \<open>Reference_Kernel\<close>, \<open>Kernel_Lib\<close>: instances of the parameters, for the witnesses.
    \<open>Demo_System\<close>: the harness reading and writing the procfs files the kernel model provides.

  \<^bold>\<open>Parameters.\<close> Code that is not in the repository is an argument of the definitions, and what is
  relied on is a named predicate: \<open>kernel_mm_ok\<close> (page tables, loads, stores, \<open>set_memory_ro/rw\<close>,
  \<open>copy_*_kernel_nofault\<close>), \<open>mutex_ok\<close>, \<open>kernel_lib_ok\<close> (\<open>%px\<close>, \<open>%pa\<close>, \<open>strim\<close>, \<open>strscpy\<close>,
  \<open>kstrtouint\<close>, task names), \<open>page_ops_ok\<close> (\<open>alloc_pages\<close>, \<open>vmap\<close>), \<open>settable\<close> and
  \<open>set_memory_monotone\<close> (the kernel agrees to change a mapping, and a change in one direction undoes
  none in the other), \<open>devmem_os_ok\<close> and
  \<open>page_size_ok\<close> (\<open>open\<close>, \<open>mmap\<close>, \<open>sysconf\<close>), \<open>user_os_ok\<close>, \<open>clock_ok\<close>, \<open>state_file_ok\<close>,
  \<open>procfs_ok\<close>. Each is met by an executable instance used in the witnesses.

  \<^bold>\<open>What is shown.\<close>

  \<^item> Protection: the toggle's contract and the honesty of its flag, the authorized write, the command
    file, the state a load establishes, and where the flag can be wrong.
  \<^item> Attacks: every attack mode refines an abstract vault; an honest flag stops the vmalloc attack, a
    writable linear alias defeats it, two closed aliases withstand any campaign. Against an authorized
    write an attack gets through only while the write has the page open, and there it does.
  \<^item> Threads: the threads and the locked paths, interleaved access by access, exclude each other, never
    see a violation and refine the abstract lock; a data attack is detected exactly when the word
    changed; a metadata attack breaks mutual exclusion; a round of the safety thread takes its period,
    and removing the module ends both threads.
  \<^item> Types: from loading on, the state of all modules stays well formed whatever is written to their
    files and whatever faults arrive.
  \<^item> Logs: both kernel rings and the monitor's event list hold the last entries in order.
  \<^item> Text: the harness's searches in the status text are exact; the poller, the state file and the
    rogue counter give back the kernel's numbers; addresses round-trip through devmem.
  \<^item> Harness: modules are unloaded in reverse order, after every scenario, on every exit and after a
    signal; scenario F's verdict is sound; D and E report the linear-map bypass; G
    returns, and its verdict is the rogue thread's own counter.
  \<^item> Display: the frame has the terminal's rows and columns; however its threads interleave, the
    monitor keeps its bounds, ends after a termination signal and gives the terminal back.
  \<^item> Resources: below, the stack of all six modules gives back what it took.

  \<^bold>\<open>Loops and fuel.\<close> \<open>drain_pending\<close>, \<open>visual_len\<close> and the parsers terminate by a measure.
  Scenario G's polling loop is a \<open>partial_function\<close> over a clock and is proved to return if sleeping
  makes time pass. The watch loop of devmem and the streamer of the monitor run over the list of what
  they observe. The kernel threads are step functions without bound; a stopped thread has at most nine
  (A), five (B) and four (C) steps left, and a locked path at most eight, which is the fuel of
  \<open>run_until_stop\<close>.

  \<^bold>\<open>Not modelled.\<close> \<open>MODULE_\<close> macros and exported symbols; \<open>seq_file\<close> itself (a read of a procfs
  file is the text of its show function) and the priority of the die notifier; deleted and defaulted
  members of the classes that no code uses; concurrency inside one turn of the monitor's threads
  (its fields are atomic or guarded by a mutex each); shell scripts, build files, QEMU setup and
  documentation, and the agents' scratch programs, which are not part of the build.
\<close>

section \<open>The stack of modules\<close>

text \<open>
  Loading modules in order and removing them in the reverse order, as the harness does: the calls
  of each module's entry come before, those of its exit after the modules above it.
\<close>

fun nested_session :: "(kcall list \<times> kcall list) list \<Rightarrow> kcall list" where
  "nested_session [] = []"
| "nested_session ((load, unload) # ms) = load @ nested_session ms @ unload"

lemma nested_session_clean:
  assumes "\<forall>(load, unload) \<in> set ms. \<forall>h. replay h (load @ unload) = Some h"
  shows "replay h (nested_session ms) = Some h"
  using assms
proof (induction ms arbitrary: h)
  case (Cons m ms)
  obtain load unload where m: "m = (load, unload)" by fastforce
  then obtain h' where "replay h load = Some h'" "replay h' unload = Some h"
    using Cons.prems by (fastforce simp: replay_append split: option.splits)
  moreover have "replay h' (nested_session ms) = Some h'" using Cons by simp
  ultimately show ?case by (simp add: m replay_append)
qed simp



end
